(* ===== verification/Prelude.thy ===== *)
theory Prelude
  imports Main "HOL-Library.Word" "HOL-Library.Finite_Map" "HOL-Library.List_Lexorder"
    "HOL-Library.Char_ord" "HOL-Library.Multiset"
begin

text \<open>
  Shared ground of the development: Go's \<open>int\<close> as a 64 bit word, \<open>time.Time\<close> and
  \<open>time.Duration\<close>, nil-able slices and maps, results that may panic, the standard
  library's \<open>sort.Slice\<close> with the contract its callers rely on (the locale
  \<open>slice_order\<close>), and the lemmas on finite maps that every component uses.
\<close>

named_theorems store_simps \<open>how each store operation acts on the four maps\<close>
named_theorems wf_intros \<open>operations that keep the store well formed\<close>

section \<open>Integers, times, slices and maps\<close>

text \<open>
  Go's \<open>int\<close> and \<open>int64\<close> on the 64 bit targets: addition and subtraction wrap, the
  comparisons of the source are signed.
\<close>

type_synonym goint = "64 word"

text \<open>
  A \<open>time.Time\<close> is the number of nanoseconds since Go's zero time (January 1 of year 1,
  UTC), so \<open>IsZero\<close> is equality with 0; \<open>Before\<close>, \<open>After\<close> and \<open>Equal\<close> are the order
  of these numbers. A \<open>time.Duration\<close> is a signed 64 bit count of nanoseconds, and
  \<open>Sub\<close> saturates at its bounds.
\<close>

type_synonym time = int
type_synonym duration = int

definition time_Sub :: "time \<Rightarrow> time \<Rightarrow> duration" where
  "time_Sub t u = max (- (2 ^ 63)) (min (2 ^ 63 - 1) (t - u))"

definition time_IsZero :: "time \<Rightarrow> bool" where
  "time_IsZero t \<longleftrightarrow> t = 0"

text \<open>Seconds since the Unix epoch, rounded down; year 1 is 62135596800 seconds before it.\<close>

definition time_Unix :: "time \<Rightarrow> goint" where
  "time_Unix t = word_of_int (t div 1000000000 - 62135596800)"

text \<open>Slices and maps may be nil, which \<open>len\<close>, \<open>range\<close> and lookups treat as empty.\<close>

type_synonym 'a slice = "'a list option"
type_synonym strmap = "(string, string) fmap option"

definition elems :: "'a slice \<Rightarrow> 'a list" where
  "elems s = (case s of None \<Rightarrow> [] | Some xs \<Rightarrow> xs)"

definition entries :: "strmap \<Rightarrow> (string, string) fmap" where
  "entries m = (case m of None \<Rightarrow> fmempty | Some f \<Rightarrow> f)"

definition map_get :: "strmap \<Rightarrow> string \<Rightarrow> string" where
  \<comment> \<open>\<open>m[k]\<close>: the zero value \<open>""\<close> when the key is missing.\<close>
  "map_get m k = (case fmlookup (entries m) k of None \<Rightarrow> [] | Some v \<Rightarrow> v)"

lemma elems_simps [simp]: "elems None = []" "elems (Some xs) = xs"
  by (simp_all add: elems_def)

lemma entries_simps [simp]: "entries None = fmempty" "entries (Some m) = m"
  by (simp_all add: entries_def)

lemma time_Sub_self [simp]: "time_Sub t t = 0"
  by (simp add: time_Sub_def)

lemma time_Sub_antimono: "u \<le> v \<Longrightarrow> time_Sub t v \<le> time_Sub t u"
  by (simp add: time_Sub_def)

lemma time_Sub_le: "t - u \<le> d \<Longrightarrow> - (2 ^ 63) \<le> d \<Longrightarrow> time_Sub t u \<le> d"
  by (simp add: time_Sub_def)

section \<open>Results that may panic\<close>

text \<open>A Go panic on the reconcile path: a slice expression out of range, or \<open>crypto/rand\<close>.\<close>

datatype fault = SliceBounds | CryptoRand

fun and_then :: "'e + 'a \<Rightarrow> ('a \<Rightarrow> 'e + 'b) \<Rightarrow> 'e + 'b" where
  "and_then (Inl e) f = Inl e"
| "and_then (Inr x) f = f x"

lemma and_then_Inr: "and_then r f = Inr y \<longleftrightarrow> (\<exists>x. r = Inr x \<and> f x = Inr y)"
  by (cases r) auto

lemma and_then_InrE:
  assumes "and_then r f = Inr y"
  obtains x where "r = Inr x" "f x = Inr y"
  using assms by (auto simp: and_then_Inr)

lemma and_then_cong [fundef_cong]:
  assumes "r = r'" and "\<And>x. r' = Inr x \<Longrightarrow> f x = f' x"
  shows "and_then r f = and_then r' f'"
  using assms by (cases r') auto

text \<open>Two runs that panic alike or return related results.\<close>

lemma and_then_rel:
  assumes "rel_sum (=) P r r'" and "\<And>x x'. P x x' \<Longrightarrow> rel_sum (=) Q (f x) (f' x')"
  shows "rel_sum (=) Q (and_then r f) (and_then r' f')"
  using assms by (cases r; cases r') auto

section \<open>The values of a finite map\<close>

text \<open>
  Go iterates over a map in an unspecified order. The model visits the keys in increasing
  order; the listing operations that iterate sort their result, and \<open>slice_order\<close> below
  shows that the sorted result does not depend on the order of the visit.
\<close>

definition fm_values :: "('k::linorder, 'v) fmap \<Rightarrow> 'v list" where
  "fm_values m = map snd (sorted_list_of_fmap m)"

lemma sorted_list_of_fmap_mem: "(k, v) \<in> set (sorted_list_of_fmap m) \<longleftrightarrow> fmlookup m k = Some v"
  by (auto simp: sorted_list_of_fmap_def sorted_list_of_fset.rep_eq fmlookup_dom_iff image_iff)

lemma map_fst_sorted_list_of_fmap:
  "map fst (sorted_list_of_fmap m) = sorted_list_of_fset (fmdom m)"
  by (simp add: sorted_list_of_fmap_def comp_def)

lemma set_fm_values: "set (fm_values m) = {v. \<exists>k. fmlookup m k = Some v}"
proof (intro set_eqI iffI)
  fix v
  assume "v \<in> set (fm_values m)"
  then show "v \<in> {v. \<exists>k. fmlookup m k = Some v}"
    by (auto simp: fm_values_def sorted_list_of_fmap_mem)
next
  fix v
  assume "v \<in> {v. \<exists>k. fmlookup m k = Some v}"
  then obtain k where "(k, v) \<in> set (sorted_list_of_fmap m)"
    by (auto simp: sorted_list_of_fmap_mem)
  then show "v \<in> set (fm_values m)"
    by (force simp: fm_values_def)
qed

lemma mem_fm_values: "v \<in> set (fm_values m) \<longleftrightarrow> (\<exists>k. fmlookup m k = Some v)"
  by (simp add: set_fm_values)

lemma fm_values_keys:
  assumes "\<And>k v. fmlookup m k = Some v \<Longrightarrow> f v = k"
  shows "map f (fm_values m) = sorted_list_of_fset (fmdom m)"
proof -
  have "map f (fm_values m) = map fst (sorted_list_of_fmap m)"
    using assms by (auto simp: fm_values_def sorted_list_of_fmap_mem intro!: map_cong)
  then show ?thesis by (simp add: map_fst_sorted_list_of_fmap)
qed

lemma distinct_fm_values_keys:
  assumes "\<And>k v. fmlookup m k = Some v \<Longrightarrow> f v = k"
  shows "distinct (map f (fm_values m))"
  using fm_values_keys [of m f, OF assms] by (simp add: sorted_list_of_fset.rep_eq)

lemma finite_lookup_keys [simp]: "finite {k. \<exists>v. fmlookup m k = Some v \<and> P k v}"
  by (rule finite_subset [of _ "fmdom' m"]) (auto simp: fmlookup_dom'_iff)

lemma length_filter_fm_values:
  "length (filter P (fm_values m)) = card {k. \<exists>v. fmlookup m k = Some v \<and> P v}"
proof -
  let ?es = "filter (P \<circ> snd) (sorted_list_of_fmap m)"
  have "distinct (map fst (sorted_list_of_fmap m))"
    by (simp add: map_fst_sorted_list_of_fmap sorted_list_of_fset.rep_eq)
  then have d: "distinct (map fst ?es)"
    by (rule distinct_map_filter)
  have "length (filter P (fm_values m)) = length (map fst ?es)"
    by (simp add: fm_values_def filter_map comp_def)
  also have "\<dots> = card (set (map fst ?es))"
    using distinct_card [OF d] by simp
  also have "set (map fst ?es) = {k. \<exists>v. fmlookup m k = Some v \<and> P v}"
    by (force simp: sorted_list_of_fmap_mem image_iff)
  finally show ?thesis .
qed

section \<open>sort.Slice\<close>

text \<open>
  \<open>sort.Slice\<close> is modelled by the insertion sort the Go library runs on short slices: each
  element moves left past the elements it is less than. The sorted prefix is kept
  reversed, so \<open>sink\<close> looks at the nearest element first. For longer slices the library
  uses other algorithms; \<open>slice_order\<close> states when all of them must give one result.
\<close>

fun sink :: "('a \<Rightarrow> 'a \<Rightarrow> bool) \<Rightarrow> 'a \<Rightarrow> 'a list \<Rightarrow> 'a list" where
  "sink lt x [] = [x]"
| "sink lt x (y # ys) = (if lt x y then y # sink lt x ys else x # y # ys)"

definition sort_slice :: "('a \<Rightarrow> 'a \<Rightarrow> bool) \<Rightarrow> 'a list \<Rightarrow> 'a list" where
  "sort_slice lt xs = rev (fold (sink lt) xs [])"

lemma mset_sink: "mset (sink lt x ys) = add_mset x (mset ys)"
  by (induction ys) auto

lemma mset_fold_sink: "mset (fold (sink lt) xs acc) = mset xs + mset acc"
  by (induction xs arbitrary: acc) (auto simp: mset_sink)

lemma mset_sort_slice [simp]: "mset (sort_slice lt xs) = mset xs"
  by (simp add: sort_slice_def mset_fold_sink)

lemma set_sort_slice [simp]: "set (sort_slice lt xs) = set xs"
  using mset_sort_slice [of lt xs] by (metis set_mset_mset)

lemma length_sort_slice [simp]: "length (sort_slice lt xs) = length xs"
  using mset_sort_slice [of lt xs] by (metis size_mset)

lemma sort_slice_Nil_iff [simp]: "sort_slice lt xs = [] \<longleftrightarrow> xs = []"
  using length_sort_slice [of lt xs] by (metis length_0_conv)

lemma set_sink [simp]: "set (sink lt x ys) = insert x (set ys)"
  by (induction ys) auto

lemma distinct_map_sort_slice: "distinct (map f (sort_slice lt xs)) \<longleftrightarrow> distinct (map f xs)"
  by (metis mset_map mset_sort_slice mset_eq_imp_distinct_iff)

lemma length_filter_sort_slice: "length (filter P (sort_slice lt xs)) = length (filter P xs)"
  by (metis mset_filter mset_sort_slice size_mset)

text \<open>Sorting by a key of a linear order needs no further assumption.\<close>

lemma sink_key_sorted:
  fixes f :: "'a \<Rightarrow> 'k::linorder"
  assumes "sorted_wrt (\<lambda>x y. f y \<le> f x) ys"
  shows "sorted_wrt (\<lambda>x y. f y \<le> f x) (sink (\<lambda>a b. f a < f b) x ys)"
  using assms by (induction ys) force+

lemma sort_slice_key_sorted:
  fixes f :: "'a \<Rightarrow> 'k::linorder"
  shows "sorted_wrt (\<lambda>x y. f x \<le> f y) (sort_slice (\<lambda>a b. f a < f b) xs)"
proof -
  have "sorted_wrt (\<lambda>x y. f y \<le> f x) (fold (sink (\<lambda>a b. f a < f b)) xs acc)"
    if "sorted_wrt (\<lambda>x y. f y \<le> f x) acc" for acc
    using that by (induction xs arbitrary: acc) (simp_all add: sink_key_sorted)
  then show ?thesis by (simp add: sort_slice_def sorted_wrt_rev)
qed

text \<open>
  The contract between \<open>sort.Slice\<close> and its callers: on the elements that satisfy \<open>ok\<close>,
  \<open>lt\<close> is a strict order that decides between any two with different keys. Then a slice
  with distinct keys has exactly one sorted arrangement, whatever order its elements were
  collected in and whatever algorithm sorts it.
\<close>

locale slice_order =
  fixes ok :: "'a \<Rightarrow> bool" and lt :: "'a \<Rightarrow> 'a \<Rightarrow> bool" and key :: "'a \<Rightarrow> 'k"
  assumes lt_irrefl: "ok x \<Longrightarrow> \<not> lt x x"
    and lt_trans: "ok x \<Longrightarrow> ok y \<Longrightarrow> ok z \<Longrightarrow> lt x y \<Longrightarrow> lt y z \<Longrightarrow> lt x z"
    and lt_total: "ok x \<Longrightarrow> ok y \<Longrightarrow> key x \<noteq> key y \<Longrightarrow> lt x y \<or> lt y x"
begin

lemma lt_asym: "ok x \<Longrightarrow> ok y \<Longrightarrow> lt x y \<Longrightarrow> \<not> lt y x"
  using lt_irrefl lt_trans by blast

lemma sink_sorted:
  assumes "sorted_wrt (\<lambda>a b. lt b a) ys" "\<And>y. y \<in> set ys \<Longrightarrow> ok y \<and> key y \<noteq> key x" "ok x"
  shows "sorted_wrt (\<lambda>a b. lt b a) (sink lt x ys)"
  using assms
proof (induction ys)
  case Nil
  then show ?case by simp
next
  case (Cons y ys)
  show ?case
  proof (cases "lt x y")
    case True
    with Cons show ?thesis by auto
  next
    case False
    have y: "ok y" "key y \<noteq> key x" using Cons.prems(2) [of y] by auto
    then have "lt y x" using lt_total [of x y] False Cons.prems(3) by metis
    with y Cons.prems have "\<forall>b \<in> set (y # ys). lt b x"
      using lt_trans [of _ y x] by auto
    with False Cons.prems show ?thesis by simp
  qed
qed

lemma fold_sink_sorted:
  assumes "sorted_wrt (\<lambda>a b. lt b a) acc" "distinct (map key (xs @ acc))" "\<forall>x \<in> set (xs @ acc). ok x"
  shows "sorted_wrt (\<lambda>a b. lt b a) (fold (sink lt) xs acc)"
  using assms
proof (induction xs arbitrary: acc)
  case Nil
  then show ?case by simp
next
  case (Cons x xs)
  have "sorted_wrt (\<lambda>a b. lt b a) (sink lt x acc)"
    using Cons.prems by (intro sink_sorted) (auto simp: image_iff)
  moreover have "mset (map key (xs @ sink lt x acc)) = mset (map key (x # xs @ acc))"
    by (simp add: mset_sink)
  then have "distinct (map key (xs @ sink lt x acc))"
    using Cons.prems(2) by (metis append_Cons mset_eq_imp_distinct_iff)
  ultimately show ?case
    using Cons.IH [of "sink lt x acc"] Cons.prems(3) by auto
qed

lemma sort_slice_sorted:
  assumes "distinct (map key xs)" "\<forall>x \<in> set xs. ok x"
  shows "sorted_wrt lt (sort_slice lt xs)"
  using fold_sink_sorted [of "[]" xs] assms by (simp add: sort_slice_def sorted_wrt_rev)

lemma sorted_unique:
  assumes "sorted_wrt lt xs" "sorted_wrt lt ys" "mset xs = mset ys" "\<forall>x \<in> set xs. ok x"
  shows "xs = ys"
  using assms
proof (induction xs arbitrary: ys)
  case Nil
  then show ?case by simp
next
  case (Cons x xs)
  from Cons.prems(3) obtain y ys' where ys: "ys = y # ys'" by (cases ys) auto
  have mems: "set (x # xs) = set (y # ys')"
    using Cons.prems(3) ys by (metis set_mset_mset)
  have "x = y"
  proof (rule ccontr)
    assume "x \<noteq> y"
    then have "lt x y" "lt y x" using Cons.prems(1,2) mems ys by auto
    moreover have "ok x" "ok y" using Cons.prems(4) mems by auto
    ultimately show False using lt_asym by blast
  qed
  with Cons show ?case by (auto simp: ys)
qed

lemma sort_slice_unique:
  assumes "sorted_wrt lt ys" "mset ys = mset xs" "distinct (map key xs)" "\<forall>x \<in> set xs. ok x"
  shows "sort_slice lt xs = ys"
  using sorted_unique [of "sort_slice lt xs" ys] sort_slice_sorted [of xs] assms by simp

lemma sort_slice_perm:
  assumes "mset ys = mset xs" "distinct (map key xs)" "\<forall>x \<in> set xs. ok x"
  shows "sort_slice lt ys = sort_slice lt xs"
proof -
  have "distinct (map key ys)" "\<forall>x \<in> set ys. ok x"
    using assms by (metis mset_map mset_eq_imp_distinct_iff, metis set_mset_mset)
  then show ?thesis
    using assms sort_slice_sorted [of xs] by (intro sort_slice_unique) simp_all
qed

lemma sort_slice_filter:
  assumes "distinct (map key xs)" "\<forall>x \<in> set xs. ok x"
  shows "sort_slice lt (filter P xs) = filter P (sort_slice lt xs)"
  using assms sort_slice_sorted [of xs]
  by (intro sort_slice_unique) (auto simp: sorted_wrt_filter distinct_map_filter)

end

end
