(* ===== verification/Api.thy ===== *)
theory Api
  imports Prelude
begin

text \<open>
  The data model of \<open>internal/api\<close>: the records of \<open>types.go\<close> field by field, the phase
  predicates of \<open>phases.go\<close> and the \<open>Clone\<close> methods of \<open>clone.go\<close>. \<open>WorkloadKind\<close> and
  \<open>AssignmentPhase\<close> are string types with named constants; each datatype has one
  constructor per constant and one for any other string a client may send.
\<close>

section \<open>Workload kinds and phases\<close>

datatype workload_kind = KindService | KindJob | OtherKind string

datatype assignment_phase =
    Pending | Running | Succeeded | Failed | Stopped | Lost | OtherPhase string

fun kind_string :: "workload_kind \<Rightarrow> string" where
  "kind_string KindService = ''service''"
| "kind_string KindJob = ''job''"
| "kind_string (OtherKind s) = s"

definition kind_of_string :: "string \<Rightarrow> workload_kind" where
  "kind_of_string s = (if s = ''service'' then KindService else if s = ''job'' then KindJob else OtherKind s)"

fun phase_string :: "assignment_phase \<Rightarrow> string" where
  "phase_string Pending = ''Pending''"
| "phase_string Running = ''Running''"
| "phase_string Succeeded = ''Succeeded''"
| "phase_string Failed = ''Failed''"
| "phase_string Stopped = ''Stopped''"
| "phase_string Lost = ''Lost''"
| "phase_string (OtherPhase s) = s"

definition phase_of_string :: "string \<Rightarrow> assignment_phase" where
  "phase_of_string s =
     (if s = ''Pending'' then Pending else if s = ''Running'' then Running
      else if s = ''Succeeded'' then Succeeded else if s = ''Failed'' then Failed
      else if s = ''Stopped'' then Stopped else if s = ''Lost'' then Lost
      else OtherPhase s)"

fun IsTerminalPhase :: "assignment_phase \<Rightarrow> bool" where
  "IsTerminalPhase Succeeded = True"
| "IsTerminalPhase Failed = True"
| "IsTerminalPhase Stopped = True"
| "IsTerminalPhase Lost = True"
| "IsTerminalPhase _ = False"

definition IsActivePhase :: "assignment_phase \<Rightarrow> bool" where
  "IsActivePhase p \<longleftrightarrow> p = Pending \<or> p = Running"

section \<open>Records\<close>

record resource_requirements =
  res_CPU :: goint
  res_Memory :: goint

record placement =
  required_labels :: strmap

record volume =
  vol_name :: string
  host_path :: string
  mount_path :: string

record node =
  node_ID :: string
  node_labels :: strmap
  node_capacity :: resource_requirements
  last_heartbeat :: time

record service_status =
  desired_replicas :: goint
  pending_replicas :: goint
  running_replicas :: goint
  assignment_IDs :: "string slice"
  last_reconciled_unix :: goint

record service =
  service_name :: string
  service_image :: string
  service_command :: "string slice"
  service_env :: strmap
  service_replicas :: goint
  service_resources :: resource_requirements
  service_placement :: placement
  service_volumes :: "volume slice"
  service_ports :: "goint slice"
  service_st :: service_status

record job_status =
  active_assignment_ID :: string
  last_assignment_ID :: string
  job_succeeded :: bool
  failed_attempts :: goint
  last_failure :: string
  completed_at :: "time option"

record job =
  job_name :: string
  job_image :: string
  job_command :: "string slice"
  job_env :: strmap
  job_resources :: resource_requirements
  job_placement :: placement
  job_volumes :: "volume slice"
  job_retries :: goint
  job_st :: job_status

record assignment =
  asg_ID :: string
  owner_kind :: workload_kind
  owner_name :: string
  asg_node :: string
  asg_image :: string
  asg_command :: "string slice"
  asg_env :: strmap
  asg_resources :: resource_requirements
  asg_volumes :: "volume slice"
  asg_ports :: "goint slice"
  attempt :: goint
  asg_phase :: assignment_phase
  status_message :: string
  created_at :: time
  started_at :: "time option"
  finished_at :: "time option"

record state_snapshot =
  snap_nodes :: "node list"
  snap_services :: "service list"
  snap_jobs :: "job list"
  snap_assignments :: "assignment list"

abbreviation active :: "assignment \<Rightarrow> bool" where
  "active a \<equiv> IsActivePhase (asg_phase a)"

abbreviation terminal :: "assignment \<Rightarrow> bool" where
  "terminal a \<equiv> IsTerminalPhase (asg_phase a)"

text \<open>The zero values Go gives to a \<open>ServiceStatus{}\<close> and a \<open>JobStatus{}\<close>.\<close>

definition zero_service_status :: service_status where
  "zero_service_status = \<lparr>desired_replicas = 0, pending_replicas = 0, running_replicas = 0,
     assignment_IDs = None, last_reconciled_unix = 0\<rparr>"

definition zero_job_status :: job_status where
  "zero_job_status = \<lparr>active_assignment_ID = [], last_assignment_ID = [], job_succeeded = False,
     failed_attempts = 0, last_failure = [], completed_at = None\<rparr>"

section \<open>Clone\<close>

definition cloneStringMap :: "strmap \<Rightarrow> strmap" where
  "cloneStringMap m = (if entries m = fmempty then None else Some (entries m))"

text \<open>\<open>cloneStringSlice\<close>, \<open>cloneInts\<close> and \<open>cloneVolumes\<close> are one function at three types.\<close>

definition cloneSlice :: "'a slice \<Rightarrow> 'a slice" where
  "cloneSlice xs = (if length (elems xs) = 0 then None else Some (elems xs))"

definition Node_Clone :: "node \<Rightarrow> node" where
  "Node_Clone n = \<lparr>node_ID = node_ID n, node_labels = cloneStringMap (node_labels n),
     node_capacity = node_capacity n, last_heartbeat = last_heartbeat n\<rparr>"

definition Service_Clone :: "service \<Rightarrow> service" where
  "Service_Clone s = \<lparr>
     service_name = service_name s,
     service_image = service_image s,
     service_command = cloneSlice (service_command s),
     service_env = cloneStringMap (service_env s),
     service_replicas = service_replicas s,
     service_resources = service_resources s,
     service_placement = \<lparr>required_labels = cloneStringMap (required_labels (service_placement s))\<rparr>,
     service_volumes = cloneSlice (service_volumes s),
     service_ports = cloneSlice (service_ports s),
     service_st = \<lparr>
       desired_replicas = desired_replicas (service_st s),
       pending_replicas = pending_replicas (service_st s),
       running_replicas = running_replicas (service_st s),
       assignment_IDs = cloneSlice (assignment_IDs (service_st s)),
       last_reconciled_unix = last_reconciled_unix (service_st s)\<rparr>\<rparr>"

definition Job_Clone :: "job \<Rightarrow> job" where
  "Job_Clone j = \<lparr>
     job_name = job_name j,
     job_image = job_image j,
     job_command = cloneSlice (job_command j),
     job_env = cloneStringMap (job_env j),
     job_resources = job_resources j,
     job_placement = \<lparr>required_labels = cloneStringMap (required_labels (job_placement j))\<rparr>,
     job_volumes = cloneSlice (job_volumes j),
     job_retries = job_retries j,
     job_st = \<lparr>
       active_assignment_ID = active_assignment_ID (job_st j),
       last_assignment_ID = last_assignment_ID (job_st j),
       job_succeeded = job_succeeded (job_st j),
       failed_attempts = failed_attempts (job_st j),
       last_failure = last_failure (job_st j),
       completed_at = completed_at (job_st j)\<rparr>\<rparr>"

definition Assignment_Clone :: "assignment \<Rightarrow> assignment" where
  "Assignment_Clone a = \<lparr>
     asg_ID = asg_ID a,
     owner_kind = owner_kind a,
     owner_name = owner_name a,
     asg_node = asg_node a,
     asg_image = asg_image a,
     asg_command = cloneSlice (asg_command a),
     asg_env = cloneStringMap (asg_env a),
     asg_resources = asg_resources a,
     asg_volumes = cloneSlice (asg_volumes a),
     asg_ports = cloneSlice (asg_ports a),
     attempt = attempt a,
     asg_phase = asg_phase a,
     status_message = status_message a,
     created_at = created_at a,
     started_at = started_at a,
     finished_at = finished_at a\<rparr>"

section \<open>Lemmas on phases\<close>

lemma phase_of_phase_string: "phase_of_string (phase_string p) = (case p of
    OtherPhase s \<Rightarrow> phase_of_string s | q \<Rightarrow> q)"
  by (cases p) (simp_all add: phase_of_string_def)

lemma phase_string_of_string [simp]: "phase_string (phase_of_string s) = s"
  by (simp add: phase_of_string_def)

lemma active_not_terminal: "IsActivePhase p \<Longrightarrow> \<not> IsTerminalPhase p"
  by (auto simp: IsActivePhase_def)

lemma terminal_not_active: "IsTerminalPhase p \<Longrightarrow> \<not> IsActivePhase p"
  by (auto simp: IsActivePhase_def)

lemma IsActivePhase_simps [simp]:
  "IsActivePhase Pending" "IsActivePhase Running" "\<not> IsActivePhase Succeeded"
  "\<not> IsActivePhase Failed" "\<not> IsActivePhase Stopped" "\<not> IsActivePhase Lost"
  "\<not> IsActivePhase (OtherPhase s)"
  by (simp_all add: IsActivePhase_def)

section \<open>Lemmas on clones\<close>

lemma elems_cloneSlice [simp]: "elems (cloneSlice xs) = elems xs"
  by (auto simp: cloneSlice_def)

lemma entries_cloneStringMap [simp]: "entries (cloneStringMap m) = entries m"
  by (auto simp: cloneStringMap_def)

lemma map_get_cloneStringMap [simp]: "map_get (cloneStringMap m) k = map_get m k"
  by (simp add: map_get_def)

lemma cloneSlice_idem [simp]: "cloneSlice (cloneSlice xs) = cloneSlice xs"
  by (simp add: cloneSlice_def)

lemma cloneStringMap_idem [simp]: "cloneStringMap (cloneStringMap m) = cloneStringMap m"
  by (simp add: cloneStringMap_def)

lemma cloneSlice_eq_iff: "cloneSlice xs = cloneSlice ys \<longleftrightarrow> elems xs = elems ys"
  by (auto simp: cloneSlice_def)

lemma cloneStringMap_eq_iff: "cloneStringMap m = cloneStringMap m' \<longleftrightarrow> entries m = entries m'"
  by (auto simp: cloneStringMap_def)

lemma cloneSlice_None [simp]: "cloneSlice None = None"
  by (simp add: cloneSlice_def)

lemma cloneStringMap_None [simp]: "cloneStringMap None = None"
  by (simp add: cloneStringMap_def)

lemma Clone_idem [simp]:
  "Node_Clone (Node_Clone n) = Node_Clone n"
  "Service_Clone (Service_Clone s) = Service_Clone s"
  "Job_Clone (Job_Clone j) = Job_Clone j"
  "Assignment_Clone (Assignment_Clone a) = Assignment_Clone a"
  by (simp_all add: Node_Clone_def Service_Clone_def Job_Clone_def Assignment_Clone_def)

lemma Clone_updates [simp]:
  "Node_Clone (n\<lparr>last_heartbeat := t\<rparr>) = (Node_Clone n)\<lparr>last_heartbeat := t\<rparr>"
  "Job_Clone (j\<lparr>job_st := jst\<rparr>) = (Job_Clone j)\<lparr>job_st := jst\<rparr>"
  "Service_Clone (v\<lparr>service_st := st\<rparr>) =
     (Service_Clone v)\<lparr>service_st := st\<lparr>assignment_IDs := cloneSlice (assignment_IDs st)\<rparr>\<rparr>"
  by (cases n, simp add: Node_Clone_def) (cases j, simp add: Job_Clone_def,
      cases v, simp add: Service_Clone_def)

lemma Node_Clone_fields [simp]:
  "node_ID (Node_Clone n) = node_ID n" "node_capacity (Node_Clone n) = node_capacity n"
  "last_heartbeat (Node_Clone n) = last_heartbeat n"
  "node_labels (Node_Clone n) = cloneStringMap (node_labels n)"
  by (simp_all add: Node_Clone_def)

lemma Service_Clone_fields [simp]:
  "service_name (Service_Clone s) = service_name s"
  "service_image (Service_Clone s) = service_image s"
  "service_replicas (Service_Clone s) = service_replicas s"
  "service_resources (Service_Clone s) = service_resources s"
  "elems (service_ports (Service_Clone s)) = elems (service_ports s)"
  by (simp_all add: Service_Clone_def)

lemma Job_Clone_fields [simp]:
  "job_name (Job_Clone j) = job_name j" "job_image (Job_Clone j) = job_image j"
  "job_retries (Job_Clone j) = job_retries j" "job_resources (Job_Clone j) = job_resources j"
  "job_st (Job_Clone j) = job_st j"
  by (simp_all add: Job_Clone_def)

lemma Assignment_Clone_fields [simp]:
  "asg_ID (Assignment_Clone a) = asg_ID a" "owner_kind (Assignment_Clone a) = owner_kind a"
  "owner_name (Assignment_Clone a) = owner_name a" "asg_node (Assignment_Clone a) = asg_node a"
  "asg_resources (Assignment_Clone a) = asg_resources a"
  "elems (asg_ports (Assignment_Clone a)) = elems (asg_ports a)"
  "attempt (Assignment_Clone a) = attempt a" "asg_phase (Assignment_Clone a) = asg_phase a"
  "status_message (Assignment_Clone a) = status_message a"
  "created_at (Assignment_Clone a) = created_at a" "started_at (Assignment_Clone a) = started_at a"
  "finished_at (Assignment_Clone a) = finished_at a"
  by (simp_all add: Assignment_Clone_def)

end
