(* ===== verification/Scheduler.thy ===== *)
theory Scheduler
  imports Api
begin

text \<open>
  \<open>internal/scheduler/scheduler.go\<close>: \<open>ChooseNode\<close> as the code computes it (one pass that
  drops dead nodes, a sort by ID, one pass that tallies the resources and ports in use, one
  pass over the nodes), the specification \<open>eligible\<close> of the node it looks for, and what a
  placement guarantees about ports and capacity.
\<close>

section \<open>Model\<close>

record scheduler =
  NodeTimeout :: duration

datatype sched_error = ErrNoEligibleNode

definition zero_resources :: resource_requirements where
  "zero_resources = \<lparr>res_CPU = 0, res_Memory = 0\<rparr>"

text \<open>The maps \<open>used\<close> and \<open>usedPorts\<close> of the tally loop.\<close>

record tally =
  used :: "(string, resource_requirements) fmap"
  used_ports :: "(string, goint fset) fmap"

definition used_at :: "tally \<Rightarrow> string \<Rightarrow> resource_requirements" where
  "used_at t i = (case fmlookup (used t) i of None \<Rightarrow> zero_resources | Some r \<Rightarrow> r)"

definition ports_at :: "tally \<Rightarrow> string \<Rightarrow> goint fset" where
  "ports_at t i = (case fmlookup (used_ports t) i of None \<Rightarrow> {||} | Some ps \<Rightarrow> ps)"

definition note_port :: "string \<Rightarrow> goint \<Rightarrow> tally \<Rightarrow> tally" where
  "note_port i port t = t\<lparr>used_ports := fmupd i (finsert port (ports_at t i)) (used_ports t)\<rparr>"

definition tally_assignment :: "string set \<Rightarrow> assignment \<Rightarrow> tally \<Rightarrow> tally" where
  "tally_assignment live a t =
     (if \<not> IsActivePhase (asg_phase a) then t
      else if asg_node a \<notin> live then t
      else
        let current = used_at t (asg_node a);
            current' = \<lparr>res_CPU = res_CPU current + res_CPU (asg_resources a),
                        res_Memory = res_Memory current + res_Memory (asg_resources a)\<rparr>
        in fold (note_port (asg_node a)) (elems (asg_ports a))
             (t\<lparr>used := fmupd (asg_node a) current' (used t)\<rparr>))"

definition portsClash :: "goint fset \<Rightarrow> goint list \<Rightarrow> bool" where
  "portsClash taken wanted \<longleftrightarrow> list_ex (\<lambda>port. port |\<in>| taken) wanted"

definition matchesPlacement :: "strmap \<Rightarrow> strmap \<Rightarrow> bool" where
  "matchesPlacement nodeLabels required \<longleftrightarrow>
     list_all (\<lambda>(key, val). map_get nodeLabels key = val) (sorted_list_of_fmap (entries required))"

fun first_fit ::
  "tally \<Rightarrow> resource_requirements \<Rightarrow> placement \<Rightarrow> goint slice \<Rightarrow> node list \<Rightarrow> sched_error + string" where
  "first_fit t req pl ports [] = Inl ErrNoEligibleNode"
| "first_fit t req pl ports (n # ns) =
     (if \<not> matchesPlacement (node_labels n) (required_labels pl) then first_fit t req pl ports ns
      else
        let current = used_at t (node_ID n);
            availCPU = res_CPU (node_capacity n) - res_CPU current;
            availMemory = res_Memory (node_capacity n) - res_Memory current
        in if availCPU <s res_CPU req \<or> availMemory <s res_Memory req then first_fit t req pl ports ns
           else if portsClash (ports_at t (node_ID n)) (elems ports) then first_fit t req pl ports ns
           else Inr (node_ID n))"

definition ChooseNode ::
  "scheduler \<Rightarrow> time \<Rightarrow> node list \<Rightarrow> assignment list \<Rightarrow> resource_requirements \<Rightarrow> placement \<Rightarrow>
   goint slice \<Rightarrow> sched_error + string" where
  "ChooseNode s now nodes assignments req pl ports =
     (let liveNodes = filter (\<lambda>n. \<not> (NodeTimeout s < time_Sub now (last_heartbeat n))) nodes;
          liveNodeIDs = set (map node_ID liveNodes);
          sorted_nodes = sort_slice (\<lambda>a b. node_ID a < node_ID b) liveNodes;
          t = fold (tally_assignment liveNodeIDs) assignments \<lparr>used = fmempty, used_ports = fmempty\<rparr>
      in first_fit t req pl ports sorted_nodes)"

section \<open>Specification\<close>

definition work_on :: "string \<Rightarrow> assignment list \<Rightarrow> assignment list" where
  "work_on i as = filter (\<lambda>a. active a \<and> asg_node a = i) as"

definition used_CPU :: "string \<Rightarrow> assignment list \<Rightarrow> goint" where
  "used_CPU i as = sum_list (map (res_CPU \<circ> asg_resources) (work_on i as))"

definition used_Memory :: "string \<Rightarrow> assignment list \<Rightarrow> goint" where
  "used_Memory i as = sum_list (map (res_Memory \<circ> asg_resources) (work_on i as))"

definition ports_on :: "string \<Rightarrow> assignment list \<Rightarrow> goint set" where
  "ports_on i as = (\<Union>a \<in> set (work_on i as). set (elems (asg_ports a)))"

definition node_live :: "duration \<Rightarrow> time \<Rightarrow> node \<Rightarrow> bool" where
  "node_live tmo now n \<longleftrightarrow> time_Sub now (last_heartbeat n) \<le> tmo"

definition fits :: "node \<Rightarrow> assignment list \<Rightarrow> resource_requirements \<Rightarrow> bool" where
  "fits n as req \<longleftrightarrow>
     res_CPU req <=s res_CPU (node_capacity n) - used_CPU (node_ID n) as \<and>
     res_Memory req <=s res_Memory (node_capacity n) - used_Memory (node_ID n) as"

definition eligible ::
  "duration \<Rightarrow> time \<Rightarrow> assignment list \<Rightarrow> resource_requirements \<Rightarrow> placement \<Rightarrow> goint slice \<Rightarrow> node \<Rightarrow> bool" where
  "eligible tmo now as req pl ports n \<longleftrightarrow>
     node_live tmo now n \<and>
     (\<forall>key val. fmlookup (entries (required_labels pl)) key = Some val \<longrightarrow>
        map_get (node_labels n) key = val) \<and>
     fits n as req \<and>
     set (elems ports) \<inter> ports_on (node_ID n) as = {}"

section \<open>The tally computes the specification's sums and port sets\<close>

lemma matchesPlacement_iff:
  "matchesPlacement ls req \<longleftrightarrow>
     (\<forall>key val. fmlookup (entries req) key = Some val \<longrightarrow> map_get ls key = val)"
  by (force simp: matchesPlacement_def list_all_iff sorted_list_of_fmap_mem
      simp flip: sorted_list_of_fmap_mem)

text \<open>The specification is executable too.\<close>

lemma eligible_code [code]:
  "eligible tmo now as req pl ports n \<longleftrightarrow>
     node_live tmo now n \<and> matchesPlacement (node_labels n) (required_labels pl) \<and>
     fits n as req \<and> set (elems ports) \<inter> ports_on (node_ID n) as = {}"
  by (simp add: eligible_def matchesPlacement_iff)

lemma used_note_ports [simp]: "used (fold (note_port i) ps t) = used t"
  by (induction ps arbitrary: t) (simp_all add: note_port_def)

lemma ports_at_note_port:
  "ports_at (note_port i p t) j = (if i = j then finsert p (ports_at t j) else ports_at t j)"
  by (simp add: ports_at_def note_port_def)

lemma ports_at_note_ports:
  "fset (ports_at (fold (note_port i) ps t) j) =
     fset (ports_at t j) \<union> (if i = j then set ps else {})"
  by (induction ps arbitrary: t) (auto simp: ports_at_note_port)

lemma used_at_note_ports [simp]: "used_at (fold (note_port i) ps t) j = used_at t j"
  by (simp add: used_at_def)

lemma ports_at_used_update [simp]: "ports_at (t\<lparr>used := u\<rparr>) j = ports_at t j"
  by (simp add: ports_at_def)

lemma used_at_tally:
  "used_at (tally_assignment live a t) i =
     (if active a \<and> asg_node a = i \<and> i \<in> live
      then \<lparr>res_CPU = res_CPU (used_at t i) + res_CPU (asg_resources a),
            res_Memory = res_Memory (used_at t i) + res_Memory (asg_resources a)\<rparr>
      else used_at t i)"
  by (auto simp: tally_assignment_def Let_def) (auto simp: used_at_def)

lemma ports_at_tally:
  "fset (ports_at (tally_assignment live a t) i) =
     fset (ports_at t i) \<union>
     (if active a \<and> asg_node a = i \<and> i \<in> live then set (elems (asg_ports a)) else {})"
  by (auto simp: tally_assignment_def Let_def ports_at_note_ports)

lemma work_on_Cons:
  "work_on i (a # as) = (if active a \<and> asg_node a = i then a # work_on i as else work_on i as)"
  by (simp add: work_on_def)

lemma work_on_Nil [simp]: "work_on i [] = []"
  by (simp add: work_on_def)

lemma used_at_fold_tally:
  assumes "i \<in> live"
  shows "res_CPU (used_at (fold (tally_assignment live) as t) i) = res_CPU (used_at t i) + used_CPU i as"
    and "res_Memory (used_at (fold (tally_assignment live) as t) i) =
         res_Memory (used_at t i) + used_Memory i as"
  using assms
  by (induction as arbitrary: t)
    (auto simp: used_CPU_def used_Memory_def work_on_Cons used_at_tally add.assoc)

lemma ports_at_fold_tally:
  assumes "i \<in> live"
  shows "fset (ports_at (fold (tally_assignment live) as t) i) = fset (ports_at t i) \<union> ports_on i as"
  using assms
  by (induction as arbitrary: t) (auto simp: ports_on_def work_on_Cons ports_at_tally)

lemma used_at_empty [simp]: "used_at \<lparr>used = fmempty, used_ports = m\<rparr> i = zero_resources"
  by (simp add: used_at_def)

lemma ports_at_empty [simp]: "ports_at \<lparr>used = m, used_ports = fmempty\<rparr> i = {||}"
  by (simp add: ports_at_def)

section \<open>First fit\<close>

definition fit_in :: "tally \<Rightarrow> resource_requirements \<Rightarrow> placement \<Rightarrow> goint slice \<Rightarrow> node \<Rightarrow> bool" where
  "fit_in t req pl ports n \<longleftrightarrow>
     matchesPlacement (node_labels n) (required_labels pl) \<and>
     \<not> res_CPU (node_capacity n) - res_CPU (used_at t (node_ID n)) <s res_CPU req \<and>
     \<not> res_Memory (node_capacity n) - res_Memory (used_at t (node_ID n)) <s res_Memory req \<and>
     \<not> portsClash (ports_at t (node_ID n)) (elems ports)"

lemma first_fit_find:
  "first_fit t req pl ports ns =
     (case find (fit_in t req pl ports) ns of None \<Rightarrow> Inl ErrNoEligibleNode | Some n \<Rightarrow> Inr (node_ID n))"
  by (induction ns) (auto simp: fit_in_def Let_def)

lemma find_in_order:
  assumes "sorted_wrt (\<lambda>x y. f x \<le> f y) xs" "find P xs = Some x"
  shows "x \<in> set xs \<and> P x \<and> (\<forall>y \<in> set xs. P y \<longrightarrow> f x \<le> (f y :: 'k::linorder))"
  using assms by (induction xs) (auto split: if_splits)

lemma not_sless_iff: "\<not> a <s b \<longleftrightarrow> b <=s a"
  by (simp add: word_sless_alt word_sle_eq not_less)

lemma eligible_iff_fit_in:
  assumes "live = set (map node_ID (filter (\<lambda>n. \<not> (tmo < time_Sub now (last_heartbeat n))) nodes))"
    and "n \<in> set nodes" and "node_live tmo now n"
    and "t = fold (tally_assignment live) as \<lparr>used = fmempty, used_ports = fmempty\<rparr>"
  shows "fit_in t req pl ports n \<longleftrightarrow> eligible tmo now as req pl ports n"
proof -
  have "node_ID n \<in> live"
    using assms by (auto simp: node_live_def not_less)
  then show ?thesis
    using assms(3)
    by (auto simp: fit_in_def eligible_def fits_def matchesPlacement_iff portsClash_def list_ex_iff
        assms(4) used_at_fold_tally ports_at_fold_tally zero_resources_def not_sless_iff)
qed

lemma ChooseNode_find:
  "ChooseNode s now nodes as req pl ports =
     (case find (eligible (NodeTimeout s) now as req pl ports)
             (sort_slice (\<lambda>a b. node_ID a < node_ID b) (filter (node_live (NodeTimeout s) now) nodes)) of
        None \<Rightarrow> Inl ErrNoEligibleNode
      | Some n \<Rightarrow> Inr (node_ID n))"
proof -
  let ?live = "filter (\<lambda>n. \<not> (NodeTimeout s < time_Sub now (last_heartbeat n))) nodes"
  let ?t = "fold (tally_assignment (set (map node_ID ?live))) as \<lparr>used = fmempty, used_ports = fmempty\<rparr>"
  have live: "?live = filter (node_live (NodeTimeout s) now) nodes"
    by (intro filter_cong) (simp_all add: node_live_def not_less)
  have "find (fit_in ?t req pl ports) (sort_slice (\<lambda>a b. node_ID a < node_ID b) ?live) =
        find (eligible (NodeTimeout s) now as req pl ports) (sort_slice (\<lambda>a b. node_ID a < node_ID b) ?live)"
    by (rule find_cong [OF refl], rule eligible_iff_fit_in [OF refl _ _ refl])
      (auto simp: node_live_def)
  then show ?thesis
    by (simp add: ChooseNode_def Let_def first_fit_find live)
qed

lemma ChooseNode_Inr:
  assumes "ChooseNode s now nodes as req pl ports = Inr i"
  obtains n where "n \<in> set nodes" "node_ID n = i" "eligible (NodeTimeout s) now as req pl ports n"
    "\<And>m. m \<in> set nodes \<Longrightarrow> eligible (NodeTimeout s) now as req pl ports m \<Longrightarrow> i \<le> node_ID m"
proof -
  let ?E = "eligible (NodeTimeout s) now as req pl ports"
  let ?ns = "sort_slice (\<lambda>a b. node_ID a < node_ID b) (filter (node_live (NodeTimeout s) now) nodes)"
  obtain n where n: "find ?E ?ns = Some n" "node_ID n = i"
    using assms by (auto simp: ChooseNode_find split: option.splits)
  from find_in_order [OF sort_slice_key_sorted n(1)]
  have "n \<in> set ?ns" "?E n" and least: "\<And>m. m \<in> set ?ns \<Longrightarrow> ?E m \<Longrightarrow> node_ID n \<le> node_ID m"
    by auto
  moreover have "\<And>m. ?E m \<Longrightarrow> node_live (NodeTimeout s) now m"
    by (simp add: eligible_def)
  ultimately show thesis using that n(2) by auto
qed

lemma ChooseNode_Inl:
  "ChooseNode s now nodes as req pl ports = Inl e \<longleftrightarrow>
     (\<forall>n \<in> set nodes. \<not> eligible (NodeTimeout s) now as req pl ports n)"
proof -
  let ?E = "eligible (NodeTimeout s) now as req pl ports"
  let ?ns = "sort_slice (\<lambda>a b. node_ID a < node_ID b) (filter (node_live (NodeTimeout s) now) nodes)"
  have "ChooseNode s now nodes as req pl ports = Inl e \<longleftrightarrow> find ?E ?ns = None"
    by (cases e) (auto simp: ChooseNode_find split: option.splits)
  also have "\<dots> \<longleftrightarrow> (\<forall>n \<in> set nodes. \<not> ?E n)"
    by (auto simp: find_None_iff eligible_def)
  finally show ?thesis .
qed

section \<open>Capacity\<close>

text \<open>
  The load of a node as an exact integer, for one of the two resources. The code compares
  wrapped sums; on a node whose load is within its capacity and whose work asks for
  nothing negative, the sums do not wrap.
\<close>

definition load :: "(resource_requirements \<Rightarrow> goint) \<Rightarrow> string \<Rightarrow> assignment list \<Rightarrow> int" where
  "load f i as = sum_list (map (\<lambda>a. sint (f (asg_resources a))) (work_on i as))"

lemma sint_add_small:
  fixes a b :: goint
  assumes "0 \<le> sint a" "0 \<le> sint b" "sint a + sint b < 2 ^ 63"
  shows "sint (a + b) = sint a + sint b"
  using assms by (simp add: signed_take_bit_int_eq_self sint_word_ariths)

lemma sint_diff_small:
  fixes a b :: goint
  assumes "0 \<le> sint a" "0 \<le> sint b"
  shows "sint (a - b) = sint a - sint b"
proof -
  have "sint a < 2 ^ 63" "sint b < 2 ^ 63"
    using sint_lt [of a] sint_lt [of b] by simp_all
  with assms show ?thesis by (simp add: signed_take_bit_int_eq_self sint_word_ariths)
qed

lemma sint_sum_list_small:
  fixes ws :: "goint list"
  assumes "\<forall>w \<in> set ws. 0 \<le> sint w" "sum_list (map sint ws) < 2 ^ 63"
  shows "sint (sum_list ws) = sum_list (map sint ws)"
  using assms
proof (induction ws)
  case Nil
  then show ?case by simp
next
  case (Cons w ws)
  have nonneg: "0 \<le> sum_list (map sint ws)"
    using Cons.prems(1) by (intro sum_list_nonneg) auto
  with Cons have "sint (sum_list ws) = sum_list (map sint ws)" by simp
  with Cons.prems nonneg show ?case by (simp add: sint_add_small)
qed

lemma fits_words:
  fixes c r :: goint
  assumes fit: "r <=s c - sum_list ws" and nonneg: "\<forall>w \<in> set ws. 0 \<le> sint w"
    and within: "sum_list (map sint ws) \<le> sint c"
  shows "sum_list (map sint ws) + sint r \<le> sint c"
proof -
  have pos: "0 \<le> sum_list (map sint ws)"
    using nonneg by (intro sum_list_nonneg) auto
  have "sint c < 2 ^ 63"
    using sint_lt [of c] by simp
  with nonneg within have "sint (sum_list ws) = sum_list (map sint ws)"
    by (intro sint_sum_list_small) auto
  with fit pos within show ?thesis
    by (simp add: word_sle_eq sint_diff_small)
qed

lemma eligible_load:
  assumes "eligible tmo now as req pl ports n"
    and "f = res_CPU \<or> f = res_Memory"
    and "\<And>a. a \<in> set (work_on (node_ID n) as) \<Longrightarrow> 0 \<le> sint (f (asg_resources a))"
    and "load f (node_ID n) as \<le> sint (f (node_capacity n))"
  shows "load f (node_ID n) as + sint (f req) \<le> sint (f (node_capacity n))"
proof -
  have "f req <=s f (node_capacity n) - sum_list (map (f \<circ> asg_resources) (work_on (node_ID n) as))"
    using assms(1,2) by (auto simp: eligible_def fits_def used_CPU_def used_Memory_def)
  then show ?thesis
    using fits_words [of "f req" "f (node_capacity n)"
        "map (f \<circ> asg_resources) (work_on (node_ID n) as)"] assms(3,4)
    by (auto simp: load_def comp_def)
qed

section \<open>The choice\<close>

text \<open>
  C8: \<open>ChooseNode\<close> returns the eligible node with the least ID and reports
  \<open>ErrNoEligibleNode\<close> exactly when there is none. A node is eligible when its heartbeat is
  recent, it has the required labels, its capacity less the sums over the active
  assignments on it covers the request (in the signed 64 bit arithmetic of Go), and none of
  the wanted ports is taken on it.
\<close>

theorem ChooseNode_correct:
  "(ChooseNode s now nodes as req pl ports = Inl ErrNoEligibleNode \<longleftrightarrow>
      (\<forall>n \<in> set nodes. \<not> eligible (NodeTimeout s) now as req pl ports n)) \<and>
    (\<forall>i. ChooseNode s now nodes as req pl ports = Inr i \<longleftrightarrow>
      (\<exists>n \<in> set nodes. node_ID n = i \<and> eligible (NodeTimeout s) now as req pl ports n \<and>
        (\<forall>m \<in> set nodes. eligible (NodeTimeout s) now as req pl ports m \<longrightarrow> i \<le> node_ID m)))"
proof (rule conjI [OF ChooseNode_Inl], rule allI)
  fix i
  show "ChooseNode s now nodes as req pl ports = Inr i \<longleftrightarrow>
      (\<exists>n \<in> set nodes. node_ID n = i \<and> eligible (NodeTimeout s) now as req pl ports n \<and>
        (\<forall>m \<in> set nodes. eligible (NodeTimeout s) now as req pl ports m \<longrightarrow> i \<le> node_ID m))"
    (is "_ \<longleftrightarrow> ?least")
  proof
    assume "ChooseNode s now nodes as req pl ports = Inr i"
    then show ?least by (rule ChooseNode_Inr) blast
  next
    assume least: ?least
    then have "ChooseNode s now nodes as req pl ports \<noteq> Inl e" for e
      unfolding ChooseNode_Inl by blast
    then obtain k where k: "ChooseNode s now nodes as req pl ports = Inr k"
      by (cases "ChooseNode s now nodes as req pl ports") auto
    moreover have "k = i"
      using ChooseNode_Inr [OF k] least by (metis order_antisym)
    ultimately show "ChooseNode s now nodes as req pl ports = Inr i" by simp
  qed
qed

end
