(* ===== verification/Memory_Store.thy ===== *)
theory Memory_Store
  imports Api
begin

text \<open>
  \<open>MemoryStore\<close> of \<open>internal/store\<close> (\<open>store.go\<close>, \<open>nodes.go\<close>, \<open>services.go\<close>, \<open>jobs.go\<close>,
  \<open>assignments.go\<close>): four maps, one definition per method. Every method holds the store's
  mutex for its whole body, so a method is one atomic step. The invariant \<open>wf_store\<close> says
  that each object is filed under its own name and holds no empty non-nil slice or map;
  under it a listing is the sorted contents of its map, whatever order Go iterates in.
\<close>

section \<open>State and operations\<close>

record mem_store =
  m_nodes :: "(string, node) fmap"
  m_services :: "(string, service) fmap"
  m_jobs :: "(string, job) fmap"
  m_assignments :: "(string, assignment) fmap"

definition NewMemoryStore :: mem_store where
  "NewMemoryStore = \<lparr>m_nodes = fmempty, m_services = fmempty, m_jobs = fmempty, m_assignments = fmempty\<rparr>"

text \<open>Deleting from a Go map while ranging over it: every entry is visited once.\<close>

definition fm_delete_where :: "('v \<Rightarrow> bool) \<Rightarrow> ('k, 'v) fmap \<Rightarrow> ('k, 'v) fmap" where
  "fm_delete_where P m = fmfilter (\<lambda>k. case fmlookup m k of None \<Rightarrow> True | Some v \<Rightarrow> \<not> P v) m"

subsection \<open>nodes.go\<close>

definition UpsertNode :: "node \<Rightarrow> mem_store \<Rightarrow> mem_store" where
  "UpsertNode n s = s\<lparr>m_nodes := fmupd (node_ID n) (Node_Clone n) (m_nodes s)\<rparr>"

definition TouchNode :: "string \<Rightarrow> time \<Rightarrow> mem_store \<Rightarrow> mem_store \<times> bool" where
  "TouchNode i now s = (case fmlookup (m_nodes s) i of
      None \<Rightarrow> (s, False)
    | Some n \<Rightarrow> (s\<lparr>m_nodes := fmupd i (n\<lparr>last_heartbeat := now\<rparr>) (m_nodes s)\<rparr>, True))"

definition ListNodes :: "mem_store \<Rightarrow> node list" where
  "ListNodes s = sort_slice (\<lambda>a b. node_ID a < node_ID b) (map Node_Clone (fm_values (m_nodes s)))"

subsection \<open>services.go\<close>

definition UpsertService :: "service \<Rightarrow> mem_store \<Rightarrow> mem_store" where
  "UpsertService v s = s\<lparr>m_services := fmupd (service_name v) (Service_Clone v) (m_services s)\<rparr>"

definition UpdateServiceStatus :: "string \<Rightarrow> service_status \<Rightarrow> mem_store \<Rightarrow> mem_store \<times> bool" where
  "UpdateServiceStatus name st s = (case fmlookup (m_services s) name of
      None \<Rightarrow> (s, False)
    | Some v \<Rightarrow> (s\<lparr>m_services := fmupd name (v\<lparr>service_st := st\<rparr>) (m_services s)\<rparr>, True))"

definition ListServices :: "mem_store \<Rightarrow> service list" where
  "ListServices s = sort_slice (\<lambda>a b. service_name a < service_name b)
     (map Service_Clone (fm_values (m_services s)))"

definition DeleteService :: "string \<Rightarrow> mem_store \<Rightarrow> mem_store \<times> bool" where
  "DeleteService name s =
     (if fmlookup (m_services s) name = None then (s, False)
      else (s\<lparr>m_services := fmdrop name (m_services s),
              m_assignments := fm_delete_where (\<lambda>a. owner_kind a = KindService \<and> owner_name a = name)
                                 (m_assignments s)\<rparr>, True))"

subsection \<open>jobs.go\<close>

definition UpsertJob :: "job \<Rightarrow> mem_store \<Rightarrow> mem_store" where
  "UpsertJob j s = s\<lparr>m_jobs := fmupd (job_name j) (Job_Clone j) (m_jobs s)\<rparr>"

definition UpdateJobStatus :: "string \<Rightarrow> job_status \<Rightarrow> mem_store \<Rightarrow> mem_store \<times> bool" where
  "UpdateJobStatus name st s = (case fmlookup (m_jobs s) name of
      None \<Rightarrow> (s, False)
    | Some j \<Rightarrow> (s\<lparr>m_jobs := fmupd name (j\<lparr>job_st := st\<rparr>) (m_jobs s)\<rparr>, True))"

definition ListJobs :: "mem_store \<Rightarrow> job list" where
  "ListJobs s = sort_slice (\<lambda>a b. job_name a < job_name b) (map Job_Clone (fm_values (m_jobs s)))"

definition DeleteJob :: "string \<Rightarrow> mem_store \<Rightarrow> mem_store \<times> bool" where
  "DeleteJob name s =
     (if fmlookup (m_jobs s) name = None then (s, False)
      else (s\<lparr>m_jobs := fmdrop name (m_jobs s),
              m_assignments := fm_delete_where (\<lambda>a. owner_kind a = KindJob \<and> owner_name a = name)
                                 (m_assignments s)\<rparr>, True))"

subsection \<open>assignments.go\<close>

definition SaveAssignment :: "assignment \<Rightarrow> mem_store \<Rightarrow> mem_store" where
  "SaveAssignment a s = s\<lparr>m_assignments := fmupd (asg_ID a) (Assignment_Clone a) (m_assignments s)\<rparr>"

definition HasAssignment :: "string \<Rightarrow> mem_store \<Rightarrow> bool" where
  "HasAssignment i s \<longleftrightarrow> fmlookup (m_assignments s) i \<noteq> None"

definition DeleteAssignment :: "string \<Rightarrow> mem_store \<Rightarrow> mem_store \<times> bool" where
  "DeleteAssignment i s =
     (if fmlookup (m_assignments s) i = None then (s, False)
      else (s\<lparr>m_assignments := fmdrop i (m_assignments s)\<rparr>, True))"

definition applyStatus :: "assignment_phase \<Rightarrow> string \<Rightarrow> time \<Rightarrow> assignment \<Rightarrow> assignment \<times> bool" where
  "applyStatus phase message now a =
     (if IsTerminalPhase (asg_phase a) then (a, False)
      else
        let a1 = a\<lparr>asg_phase := phase, status_message := message\<rparr>;
            a2 = (if phase = Running \<and> started_at a1 = None then a1\<lparr>started_at := Some now\<rparr> else a1);
            a3 = (if IsTerminalPhase phase then a2\<lparr>finished_at := Some now\<rparr> else a2)
        in (a3, True))"

definition UpdateAssignmentStatus ::
  "string \<Rightarrow> assignment_phase \<Rightarrow> string \<Rightarrow> time \<Rightarrow> mem_store \<Rightarrow> mem_store \<times> assignment option" where
  "UpdateAssignmentStatus i phase message now s = (case fmlookup (m_assignments s) i of
      None \<Rightarrow> (s, None)
    | Some a \<Rightarrow>
        let (a', changed) = applyStatus phase message now a
        in (if changed then s\<lparr>m_assignments := fmupd i a' (m_assignments s)\<rparr> else s,
            Some (Assignment_Clone a')))"

definition created_before :: "assignment \<Rightarrow> assignment \<Rightarrow> bool" where
  "created_before a b =
     (if created_at a = created_at b then asg_ID a < asg_ID b else created_at a < created_at b)"

definition ListAssignments :: "mem_store \<Rightarrow> assignment list" where
  "ListAssignments s = sort_slice created_before (map Assignment_Clone (fm_values (m_assignments s)))"

definition ListNodeAssignments :: "string \<Rightarrow> mem_store \<Rightarrow> assignment list" where
  "ListNodeAssignments i s = filter (\<lambda>a. asg_node a = i) (ListAssignments s)"

definition ListAssignmentsForOwner :: "workload_kind \<Rightarrow> string \<Rightarrow> mem_store \<Rightarrow> assignment list" where
  "ListAssignmentsForOwner kind name s =
     filter (\<lambda>a. owner_kind a = kind \<and> owner_name a = name) (ListAssignments s)"

subsection \<open>store.go\<close>

definition Snapshot :: "mem_store \<Rightarrow> state_snapshot" where
  "Snapshot s = \<lparr>snap_nodes = ListNodes s, snap_services = ListServices s,
     snap_jobs = ListJobs s, snap_assignments = ListAssignments s\<rparr>"

section \<open>Well-formed stores\<close>

definition wf_store :: "mem_store \<Rightarrow> bool" where
  "wf_store s \<longleftrightarrow>
     (\<forall>i n. fmlookup (m_nodes s) i = Some n \<longrightarrow> node_ID n = i \<and> Node_Clone n = n) \<and>
     (\<forall>i v. fmlookup (m_services s) i = Some v \<longrightarrow> service_name v = i \<and> Service_Clone v = v) \<and>
     (\<forall>i j. fmlookup (m_jobs s) i = Some j \<longrightarrow> job_name j = i \<and> Job_Clone j = j) \<and>
     (\<forall>i a. fmlookup (m_assignments s) i = Some a \<longrightarrow> asg_ID a = i \<and> Assignment_Clone a = a)"

lemma wf_node: "wf_store s \<Longrightarrow> fmlookup (m_nodes s) i = Some n \<Longrightarrow> node_ID n = i \<and> Node_Clone n = n"
  and wf_service: "wf_store s \<Longrightarrow> fmlookup (m_services s) i = Some v \<Longrightarrow> service_name v = i \<and> Service_Clone v = v"
  and wf_job: "wf_store s \<Longrightarrow> fmlookup (m_jobs s) i = Some j \<Longrightarrow> job_name j = i \<and> Job_Clone j = j"
  and wf_assignment: "wf_store s \<Longrightarrow> fmlookup (m_assignments s) i = Some a \<Longrightarrow> asg_ID a = i \<and> Assignment_Clone a = a"
  by (simp_all add: wf_store_def)

lemma fmlookup_fm_delete_where:
  "fmlookup (fm_delete_where P m) k = Some v \<longleftrightarrow> fmlookup m k = Some v \<and> \<not> P v"
  by (auto simp: fm_delete_where_def split: option.splits)

lemma applyStatus_fields [simp]:
  "asg_ID (fst (applyStatus p m now a)) = asg_ID a"
  "asg_node (fst (applyStatus p m now a)) = asg_node a"
  "owner_kind (fst (applyStatus p m now a)) = owner_kind a"
  "owner_name (fst (applyStatus p m now a)) = owner_name a"
  "asg_ports (fst (applyStatus p m now a)) = asg_ports a"
  "asg_resources (fst (applyStatus p m now a)) = asg_resources a"
  "attempt (fst (applyStatus p m now a)) = attempt a"
  "created_at (fst (applyStatus p m now a)) = created_at a"
  by (simp_all add: applyStatus_def Let_def)

lemma applyStatus_phase:
  "asg_phase (fst (applyStatus p m now a)) = (if terminal a then asg_phase a else p)"
  by (simp add: applyStatus_def Let_def)

lemma applyStatus_snd: "snd (applyStatus p m now a) \<longleftrightarrow> \<not> terminal a"
  by (simp add: applyStatus_def Let_def)

lemma applyStatus_terminal: "terminal a \<Longrightarrow> applyStatus p m now a = (a, False)"
  by (simp add: applyStatus_def)

lemma applyStatus_Clone:
  "Assignment_Clone a = a \<Longrightarrow> Assignment_Clone (fst (applyStatus p m now a)) = fst (applyStatus p m now a)"
  by (cases a) (simp add: applyStatus_def Let_def Assignment_Clone_def)

text \<open>One equation for the map after a status update.\<close>

lemma UpdateAssignmentStatus_fst:
  "fst (UpdateAssignmentStatus i p m now s) = (case fmlookup (m_assignments s) i of
      None \<Rightarrow> s
    | Some a \<Rightarrow> if terminal a then s
        else s\<lparr>m_assignments := fmupd i (fst (applyStatus p m now a)) (m_assignments s)\<rparr>)"
  by (auto simp: UpdateAssignmentStatus_def applyStatus_snd split: option.splits prod.splits)
    (metis applyStatus_snd snd_conv)+

lemma m_assignments_status [store_simps]:
  "fmlookup (m_assignments (fst (UpdateAssignmentStatus i p m now s))) k =
     (if k = i then map_option (\<lambda>a. fst (applyStatus p m now a)) (fmlookup (m_assignments s) i)
      else fmlookup (m_assignments s) k)"
  by (auto simp: UpdateAssignmentStatus_fst applyStatus_terminal split: option.splits)

lemma m_assignments_SaveAssignment [store_simps]:
  "fmlookup (m_assignments (SaveAssignment a s)) k =
     (if k = asg_ID a then Some (Assignment_Clone a) else fmlookup (m_assignments s) k)"
  by (simp add: SaveAssignment_def)

lemma m_assignments_DeleteAssignment [store_simps]:
  "fmlookup (m_assignments (fst (DeleteAssignment i s))) k =
     (if k = i then None else fmlookup (m_assignments s) k)"
  by (auto simp: DeleteAssignment_def)

lemma m_assignments_DeleteService [store_simps]:
  "fmlookup (m_assignments (fst (DeleteService name s))) k = Some a \<longleftrightarrow>
     fmlookup (m_assignments s) k = Some a \<and>
     \<not> (fmlookup (m_services s) name \<noteq> None \<and> owner_kind a = KindService \<and> owner_name a = name)"
  by (auto simp: DeleteService_def fmlookup_fm_delete_where)

lemma m_assignments_DeleteJob [store_simps]:
  "fmlookup (m_assignments (fst (DeleteJob name s))) k = Some a \<longleftrightarrow>
     fmlookup (m_assignments s) k = Some a \<and>
     \<not> (fmlookup (m_jobs s) name \<noteq> None \<and> owner_kind a = KindJob \<and> owner_name a = name)"
  by (auto simp: DeleteJob_def fmlookup_fm_delete_where)

text \<open>What each operation leaves alone.\<close>

lemma store_frames [simp]:
  "m_services (UpsertNode n s) = m_services s" "m_jobs (UpsertNode n s) = m_jobs s"
  "m_assignments (UpsertNode n s) = m_assignments s"
  "m_services (fst (TouchNode i now s)) = m_services s" "m_jobs (fst (TouchNode i now s)) = m_jobs s"
  "m_assignments (fst (TouchNode i now s)) = m_assignments s"
  "m_nodes (UpsertService v s) = m_nodes s" "m_jobs (UpsertService v s) = m_jobs s"
  "m_assignments (UpsertService v s) = m_assignments s"
  "m_nodes (fst (UpdateServiceStatus nm st s)) = m_nodes s" "m_jobs (fst (UpdateServiceStatus nm st s)) = m_jobs s"
  "m_assignments (fst (UpdateServiceStatus nm st s)) = m_assignments s"
  "m_nodes (fst (DeleteService nm s)) = m_nodes s" "m_jobs (fst (DeleteService nm s)) = m_jobs s"
  "m_nodes (UpsertJob j s) = m_nodes s" "m_services (UpsertJob j s) = m_services s"
  "m_assignments (UpsertJob j s) = m_assignments s"
  "m_nodes (fst (UpdateJobStatus nm jst s)) = m_nodes s" "m_services (fst (UpdateJobStatus nm jst s)) = m_services s"
  "m_assignments (fst (UpdateJobStatus nm jst s)) = m_assignments s"
  "m_nodes (fst (DeleteJob nm s)) = m_nodes s" "m_services (fst (DeleteJob nm s)) = m_services s"
  "m_nodes (SaveAssignment a s) = m_nodes s" "m_services (SaveAssignment a s) = m_services s"
  "m_jobs (SaveAssignment a s) = m_jobs s"
  "m_nodes (fst (DeleteAssignment i s)) = m_nodes s" "m_services (fst (DeleteAssignment i s)) = m_services s"
  "m_jobs (fst (DeleteAssignment i s)) = m_jobs s"
  "m_nodes (fst (UpdateAssignmentStatus i p m now s)) = m_nodes s"
  "m_services (fst (UpdateAssignmentStatus i p m now s)) = m_services s"
  "m_jobs (fst (UpdateAssignmentStatus i p m now s)) = m_jobs s"
  by (auto simp: UpsertNode_def TouchNode_def UpsertService_def UpdateServiceStatus_def DeleteService_def
      UpsertJob_def UpdateJobStatus_def DeleteJob_def SaveAssignment_def DeleteAssignment_def
      UpdateAssignmentStatus_fst split: option.splits)

section \<open>Every operation keeps the store well formed\<close>

lemma wf_NewMemoryStore [wf_intros]: "wf_store NewMemoryStore"
  by (simp add: wf_store_def NewMemoryStore_def)

lemma wf_UpsertNode [wf_intros]: "wf_store s \<Longrightarrow> wf_store (UpsertNode n s)"
  by (auto simp: wf_store_def UpsertNode_def)

lemma wf_TouchNode [wf_intros]: "wf_store s \<Longrightarrow> wf_store (fst (TouchNode i now s))"
  by (auto simp: wf_store_def TouchNode_def split: option.splits)

lemma wf_UpsertService [wf_intros]: "wf_store s \<Longrightarrow> wf_store (UpsertService v s)"
  by (auto simp: wf_store_def UpsertService_def)

lemma wf_UpdateServiceStatus [wf_intros]:
  assumes "wf_store s" "cloneSlice (assignment_IDs st) = assignment_IDs st"
  shows "wf_store (fst (UpdateServiceStatus nm st s))"
proof (cases "fmlookup (m_services s) nm")
  case None
  with assms show ?thesis by (simp add: UpdateServiceStatus_def)
next
  case (Some v)
  have "Service_Clone (v\<lparr>service_st := st\<rparr>) = v\<lparr>service_st := st\<rparr>"
    using wf_service [OF assms(1) Some] assms(2) by simp
  with assms Some show ?thesis
    by (auto simp: wf_store_def UpdateServiceStatus_def)
qed

lemma wf_DeleteService [wf_intros]: "wf_store s \<Longrightarrow> wf_store (fst (DeleteService nm s))"
  by (auto simp: wf_store_def DeleteService_def fmlookup_fm_delete_where)

lemma wf_UpsertJob [wf_intros]: "wf_store s \<Longrightarrow> wf_store (UpsertJob j s)"
  by (auto simp: wf_store_def UpsertJob_def)

lemma wf_UpdateJobStatus [wf_intros]: "wf_store s \<Longrightarrow> wf_store (fst (UpdateJobStatus nm st s))"
  by (auto simp: wf_store_def UpdateJobStatus_def split: option.splits)

lemma wf_DeleteJob [wf_intros]: "wf_store s \<Longrightarrow> wf_store (fst (DeleteJob nm s))"
  by (auto simp: wf_store_def DeleteJob_def fmlookup_fm_delete_where)

lemma wf_SaveAssignment [wf_intros]: "wf_store s \<Longrightarrow> wf_store (SaveAssignment a s)"
  by (auto simp: wf_store_def SaveAssignment_def)

lemma wf_DeleteAssignment [wf_intros]: "wf_store s \<Longrightarrow> wf_store (fst (DeleteAssignment i s))"
  by (auto simp: wf_store_def DeleteAssignment_def)

lemma wf_UpdateAssignmentStatus [wf_intros]:
  "wf_store s \<Longrightarrow> wf_store (fst (UpdateAssignmentStatus i p m now s))"
  by (auto simp: wf_store_def UpdateAssignmentStatus_fst applyStatus_Clone split: option.splits)

section \<open>Listings\<close>

text \<open>The four sort orders satisfy the contract of \<open>sort.Slice\<close>.\<close>

interpretation node_order: slice_order "\<lambda>_. True" "\<lambda>a b. node_ID a < node_ID b" node_ID
  by unfold_locales auto

interpretation service_order: slice_order "\<lambda>_. True" "\<lambda>a b. service_name a < service_name b" service_name
  by unfold_locales auto

interpretation job_order: slice_order "\<lambda>_. True" "\<lambda>a b. job_name a < job_name b" job_name
  by unfold_locales auto

interpretation assignment_order: slice_order "\<lambda>_. True" created_before asg_ID
  by unfold_locales (auto simp: created_before_def split: if_splits)

lemma fm_values_normal:
  assumes "\<And>i v. fmlookup m i = Some v \<Longrightarrow> clone v = v"
  shows "map clone (fm_values m) = fm_values m"
  using assms by (auto simp: mem_fm_values intro!: map_idI)

lemma Clone_values:
  assumes "wf_store s"
  shows "map Node_Clone (fm_values (m_nodes s)) = fm_values (m_nodes s)"
    and "map Service_Clone (fm_values (m_services s)) = fm_values (m_services s)"
    and "map Job_Clone (fm_values (m_jobs s)) = fm_values (m_jobs s)"
    and "map Assignment_Clone (fm_values (m_assignments s)) = fm_values (m_assignments s)"
  using assms by (auto intro!: fm_values_normal dest: wf_node wf_service wf_job wf_assignment)

lemma distinct_values:
  assumes "wf_store s"
  shows "distinct (map node_ID (fm_values (m_nodes s)))"
    and "distinct (map service_name (fm_values (m_services s)))"
    and "distinct (map job_name (fm_values (m_jobs s)))"
    and "distinct (map asg_ID (fm_values (m_assignments s)))"
  using assms by (auto intro!: distinct_fm_values_keys dest: wf_node wf_service wf_job wf_assignment)

lemma mem_keyed_values:
  assumes "\<And>k v. fmlookup m k = Some v \<Longrightarrow> f v = k"
  shows "v \<in> set (fm_values m) \<longleftrightarrow> fmlookup m (f v) = Some v"
  using assms by (auto simp: mem_fm_values)

lemma mem_ListNodes: "wf_store s \<Longrightarrow> n \<in> set (ListNodes s) \<longleftrightarrow> fmlookup (m_nodes s) (node_ID n) = Some n"
  by (simp add: ListNodes_def Clone_values del: set_map) (auto intro!: mem_keyed_values dest: wf_node)

lemma mem_ListServices:
  "wf_store s \<Longrightarrow> v \<in> set (ListServices s) \<longleftrightarrow> fmlookup (m_services s) (service_name v) = Some v"
  by (simp add: ListServices_def Clone_values del: set_map) (auto intro!: mem_keyed_values dest: wf_service)

lemma mem_ListJobs: "wf_store s \<Longrightarrow> j \<in> set (ListJobs s) \<longleftrightarrow> fmlookup (m_jobs s) (job_name j) = Some j"
  by (simp add: ListJobs_def Clone_values del: set_map) (auto intro!: mem_keyed_values dest: wf_job)

lemma mem_ListAssignments:
  "wf_store s \<Longrightarrow> a \<in> set (ListAssignments s) \<longleftrightarrow> fmlookup (m_assignments s) (asg_ID a) = Some a"
  by (simp add: ListAssignments_def Clone_values del: set_map)
    (auto intro!: mem_keyed_values dest: wf_assignment)

lemma mem_ListAssignmentsForOwner:
  "wf_store s \<Longrightarrow> a \<in> set (ListAssignmentsForOwner kind name s) \<longleftrightarrow>
     fmlookup (m_assignments s) (asg_ID a) = Some a \<and> owner_kind a = kind \<and> owner_name a = name"
  by (auto simp: ListAssignmentsForOwner_def mem_ListAssignments)

lemma mem_ListNodeAssignments:
  "wf_store s \<Longrightarrow> a \<in> set (ListNodeAssignments i s) \<longleftrightarrow>
     fmlookup (m_assignments s) (asg_ID a) = Some a \<and> asg_node a = i"
  by (auto simp: ListNodeAssignments_def mem_ListAssignments)

lemmas mem_listings = mem_ListNodes mem_ListServices mem_ListJobs mem_ListAssignments
  mem_ListAssignmentsForOwner mem_ListNodeAssignments

lemma distinct_ListNodes: "wf_store s \<Longrightarrow> distinct (map node_ID (ListNodes s))"
  by (simp add: ListNodes_def Clone_values distinct_map_sort_slice distinct_values)

lemma distinct_ListServices: "wf_store s \<Longrightarrow> distinct (map service_name (ListServices s))"
  by (simp add: ListServices_def Clone_values distinct_map_sort_slice distinct_values)

lemma distinct_ListJobs: "wf_store s \<Longrightarrow> distinct (map job_name (ListJobs s))"
  by (simp add: ListJobs_def Clone_values distinct_map_sort_slice distinct_values)

lemma distinct_ListAssignments: "wf_store s \<Longrightarrow> distinct (map asg_ID (ListAssignments s))"
  by (simp add: ListAssignments_def Clone_values distinct_map_sort_slice distinct_values)

lemma sorted_ListAssignments: "wf_store s \<Longrightarrow> sorted_wrt created_before (ListAssignments s)"
  unfolding ListAssignments_def
  by (rule assignment_order.sort_slice_sorted) (simp_all add: Clone_values distinct_values)

lemma sorted_ListNodeAssignments: "wf_store s \<Longrightarrow> sorted_wrt created_before (ListNodeAssignments i s)"
  by (simp add: ListNodeAssignments_def sorted_wrt_filter sorted_ListAssignments)

lemma length_filter_ListAssignments:
  assumes "wf_store s"
  shows "length (filter P (ListAssignments s)) =
         card {k. \<exists>a. fmlookup (m_assignments s) k = Some a \<and> P a}"
  by (simp add: ListAssignments_def Clone_values [OF assms] length_filter_sort_slice
      length_filter_fm_values)

text \<open>A slice of all values, collected in the order \<open>ks\<close> of a \<open>range\<close> loop over the map.\<close>

definition ranged :: "'k list \<Rightarrow> ('v \<Rightarrow> 'w) \<Rightarrow> ('k, 'v) fmap \<Rightarrow> 'w list" where
  "ranged ks f m = map (\<lambda>k. f (the (fmlookup m k))) ks"

lemma ranged_perm:
  assumes "distinct ks" "set ks = fmdom' m"
  shows "mset (ranged ks f m) = mset (map f (fm_values m))"
proof -
  have "mset ks = mset (sorted_list_of_fset (fmdom m))"
    using assms by (intro iffD1 [OF set_eq_iff_mset_eq_distinct])
      (simp_all add: sorted_list_of_fset.rep_eq fmdom'_alt_def)
  moreover have "map f (fm_values m) = map (\<lambda>k. f (the (fmlookup m k))) (sorted_list_of_fset (fmdom m))"
    by (simp add: fm_values_def sorted_list_of_fmap_def comp_def)
  ultimately show ?thesis by (simp add: ranged_def mset_map)
qed

text \<open>
  The listings of \<open>MemoryStore\<close> do not depend on the order in which Go ranges over its
  maps: whatever order \<open>ks\<close> the keys are visited in, sorting the collected clones gives
  the result of the model's listing operation.
\<close>

theorem listings_deterministic:
  assumes "wf_store s"
    and "distinct nks" "set nks = fmdom' (m_nodes s)"
    and "distinct sks" "set sks = fmdom' (m_services s)"
    and "distinct jks" "set jks = fmdom' (m_jobs s)"
    and "distinct aks" "set aks = fmdom' (m_assignments s)"
  shows "sort_slice (\<lambda>a b. node_ID a < node_ID b) (ranged nks Node_Clone (m_nodes s)) = ListNodes s \<and>
    sort_slice (\<lambda>a b. service_name a < service_name b) (ranged sks Service_Clone (m_services s)) =
         ListServices s \<and>
    sort_slice (\<lambda>a b. job_name a < job_name b) (ranged jks Job_Clone (m_jobs s)) = ListJobs s \<and>
    sort_slice created_before (ranged aks Assignment_Clone (m_assignments s)) = ListAssignments s"
proof (intro conjI)
  note clones = Clone_values [OF assms(1)] and uniq = distinct_values [OF assms(1)]
  have "mset (ranged nks Node_Clone (m_nodes s)) = mset (fm_values (m_nodes s))"
    using ranged_perm [OF assms(2,3), of Node_Clone] by (simp only: clones)
  then show "sort_slice (\<lambda>a b. node_ID a < node_ID b) (ranged nks Node_Clone (m_nodes s)) = ListNodes s"
    unfolding ListNodes_def clones using uniq(1) by (rule node_order.sort_slice_perm) simp
  have "mset (ranged sks Service_Clone (m_services s)) = mset (fm_values (m_services s))"
    using ranged_perm [OF assms(4,5), of Service_Clone] by (simp only: clones)
  then show "sort_slice (\<lambda>a b. service_name a < service_name b) (ranged sks Service_Clone (m_services s)) =
      ListServices s"
    unfolding ListServices_def clones using uniq(2) by (rule service_order.sort_slice_perm) simp
  have "mset (ranged jks Job_Clone (m_jobs s)) = mset (fm_values (m_jobs s))"
    using ranged_perm [OF assms(6,7), of Job_Clone] by (simp only: clones)
  then show "sort_slice (\<lambda>a b. job_name a < job_name b) (ranged jks Job_Clone (m_jobs s)) = ListJobs s"
    unfolding ListJobs_def clones using uniq(3) by (rule job_order.sort_slice_perm) simp
  have "mset (ranged aks Assignment_Clone (m_assignments s)) = mset (fm_values (m_assignments s))"
    using ranged_perm [OF assms(8,9), of Assignment_Clone] by (simp only: clones)
  then show "sort_slice created_before (ranged aks Assignment_Clone (m_assignments s)) = ListAssignments s"
    unfolding ListAssignments_def clones using uniq(4) by (rule assignment_order.sort_slice_perm) simp
qed

end
