(* ===== verification/Store_Contract.thy ===== *)
theory Store_Contract
  imports Memory_Store
begin

text \<open>
  The Go interface \<open>store.Store\<close> (\<open>store.go\<close>) as a record of operations on a state
  \<open>'s\<close>, the way an interface value carries its method table, and the contract
  the controller relies on as the locale \<open>store_contract\<close>: through a view of the state as a
  \<open>mem_store\<close>, every operation of an implementation acts as the operation of
  \<open>MemoryStore\<close> does. \<open>MemoryStore\<close> is interpreted here; the SQLite implementation is
  interpreted in its own theory.
\<close>

record 's store_iface =
  op_UpsertNode :: "node \<Rightarrow> 's \<Rightarrow> 's"
  op_TouchNode :: "string \<Rightarrow> time \<Rightarrow> 's \<Rightarrow> 's \<times> bool"
  op_ListNodes :: "'s \<Rightarrow> node list"
  op_UpsertService :: "service \<Rightarrow> 's \<Rightarrow> 's"
  op_UpdateServiceStatus :: "string \<Rightarrow> service_status \<Rightarrow> 's \<Rightarrow> 's \<times> bool"
  op_ListServices :: "'s \<Rightarrow> service list"
  op_DeleteService :: "string \<Rightarrow> 's \<Rightarrow> 's \<times> bool"
  op_UpsertJob :: "job \<Rightarrow> 's \<Rightarrow> 's"
  op_UpdateJobStatus :: "string \<Rightarrow> job_status \<Rightarrow> 's \<Rightarrow> 's \<times> bool"
  op_ListJobs :: "'s \<Rightarrow> job list"
  op_DeleteJob :: "string \<Rightarrow> 's \<Rightarrow> 's \<times> bool"
  op_SaveAssignment :: "assignment \<Rightarrow> 's \<Rightarrow> 's"
  op_DeleteAssignment :: "string \<Rightarrow> 's \<Rightarrow> 's \<times> bool"
  op_UpdateAssignmentStatus ::
    "string \<Rightarrow> assignment_phase \<Rightarrow> string \<Rightarrow> time \<Rightarrow> 's \<Rightarrow> 's \<times> assignment option"
  op_ListAssignments :: "'s \<Rightarrow> assignment list"
  op_ListNodeAssignments :: "string \<Rightarrow> 's \<Rightarrow> assignment list"
  op_ListAssignmentsForOwner :: "workload_kind \<Rightarrow> string \<Rightarrow> 's \<Rightarrow> assignment list"
  op_HasAssignment :: "string \<Rightarrow> 's \<Rightarrow> bool"
  op_Snapshot :: "'s \<Rightarrow> state_snapshot"

definition mem_iface :: "mem_store store_iface" where
  "mem_iface = \<lparr>
     op_UpsertNode = UpsertNode,
     op_TouchNode = TouchNode,
     op_ListNodes = ListNodes,
     op_UpsertService = UpsertService,
     op_UpdateServiceStatus = UpdateServiceStatus,
     op_ListServices = ListServices,
     op_DeleteService = DeleteService,
     op_UpsertJob = UpsertJob,
     op_UpdateJobStatus = UpdateJobStatus,
     op_ListJobs = ListJobs,
     op_DeleteJob = DeleteJob,
     op_SaveAssignment = SaveAssignment,
     op_DeleteAssignment = DeleteAssignment,
     op_UpdateAssignmentStatus = UpdateAssignmentStatus,
     op_ListAssignments = ListAssignments,
     op_ListNodeAssignments = ListNodeAssignments,
     op_ListAssignmentsForOwner = ListAssignmentsForOwner,
     op_HasAssignment = HasAssignment,
     op_Snapshot = Snapshot\<rparr>"

lemma mem_iface_ops [simp]:
  "op_UpsertNode mem_iface = UpsertNode"
  "op_TouchNode mem_iface = TouchNode"
  "op_ListNodes mem_iface = ListNodes"
  "op_UpsertService mem_iface = UpsertService"
  "op_UpdateServiceStatus mem_iface = UpdateServiceStatus"
  "op_ListServices mem_iface = ListServices"
  "op_DeleteService mem_iface = DeleteService"
  "op_UpsertJob mem_iface = UpsertJob"
  "op_UpdateJobStatus mem_iface = UpdateJobStatus"
  "op_ListJobs mem_iface = ListJobs"
  "op_DeleteJob mem_iface = DeleteJob"
  "op_SaveAssignment mem_iface = SaveAssignment"
  "op_DeleteAssignment mem_iface = DeleteAssignment"
  "op_UpdateAssignmentStatus mem_iface = UpdateAssignmentStatus"
  "op_ListAssignments mem_iface = ListAssignments"
  "op_ListNodeAssignments mem_iface = ListNodeAssignments"
  "op_ListAssignmentsForOwner mem_iface = ListAssignmentsForOwner"
  "op_HasAssignment mem_iface = HasAssignment"
  "op_Snapshot mem_iface = Snapshot"
  by (simp_all add: mem_iface_def)

text \<open>A service status as the controller builds it: nil, not an empty slice, for no IDs.\<close>

definition plain_status :: "service_status \<Rightarrow> bool" where
  "plain_status st \<longleftrightarrow> cloneSlice (assignment_IDs st) = assignment_IDs st"

text \<open>
  Arguments an implementation can represent, given the times it can represent: all times are
  among those, and a kind or phase is given by its constant when there is one.
\<close>

definition node_ok :: "(time \<Rightarrow> bool) \<Rightarrow> node \<Rightarrow> bool" where
  "node_ok ok n \<longleftrightarrow> ok (last_heartbeat n)"

definition job_status_ok :: "(time \<Rightarrow> bool) \<Rightarrow> job_status \<Rightarrow> bool" where
  "job_status_ok ok st \<longleftrightarrow> (case completed_at st of None \<Rightarrow> True | Some t \<Rightarrow> ok t)"

definition phase_ok :: "assignment_phase \<Rightarrow> bool" where
  "phase_ok p \<longleftrightarrow> phase_of_string (phase_string p) = p"

definition kind_ok :: "workload_kind \<Rightarrow> bool" where
  "kind_ok k \<longleftrightarrow> kind_of_string (kind_string k) = k"

definition assignment_ok :: "(time \<Rightarrow> bool) \<Rightarrow> assignment \<Rightarrow> bool" where
  "assignment_ok ok a \<longleftrightarrow> ok (created_at a) \<and>
     (case started_at a of None \<Rightarrow> True | Some t \<Rightarrow> ok t) \<and>
     (case finished_at a of None \<Rightarrow> True | Some t \<Rightarrow> ok t) \<and>
     kind_ok (owner_kind a) \<and> phase_ok (asg_phase a)"

lemma constants_ok [simp]:
  "phase_ok Pending" "phase_ok Running" "phase_ok Succeeded" "phase_ok Failed" "phase_ok Stopped" "phase_ok Lost"
  "kind_ok KindService" "kind_ok KindJob"
  by (simp_all add: phase_ok_def kind_ok_def phase_of_string_def kind_of_string_def)

lemma assignment_ok_applyStatus:
  "assignment_ok ok a \<Longrightarrow> ok now \<Longrightarrow> phase_ok p \<Longrightarrow> assignment_ok ok (fst (applyStatus p m now a))"
  by (auto simp: assignment_ok_def applyStatus_def Let_def)

locale store_contract =
  fixes I :: "'s store_iface" and inv :: "'s \<Rightarrow> bool" and view :: "'s \<Rightarrow> mem_store" and ok :: "time \<Rightarrow> bool"
  assumes wf_view: "inv s \<Longrightarrow> wf_store (view s)"
    and UpsertNode: "inv s \<Longrightarrow> node_ok ok n \<Longrightarrow> inv (op_UpsertNode I n s) \<and> view (op_UpsertNode I n s) = UpsertNode n (view s)"
    and TouchNode: "inv s \<Longrightarrow> ok now \<Longrightarrow>
          inv (fst (op_TouchNode I i now s)) \<and>
          view (fst (op_TouchNode I i now s)) = fst (TouchNode i now (view s)) \<and>
          snd (op_TouchNode I i now s) = snd (TouchNode i now (view s))"
    and ListNodes: "inv s \<Longrightarrow> op_ListNodes I s = ListNodes (view s)"
    and UpsertService: "inv s \<Longrightarrow>
          inv (op_UpsertService I v s) \<and> view (op_UpsertService I v s) = UpsertService v (view s)"
    and UpdateServiceStatus: "inv s \<Longrightarrow> plain_status st \<Longrightarrow>
          inv (fst (op_UpdateServiceStatus I nm st s)) \<and>
          view (fst (op_UpdateServiceStatus I nm st s)) = fst (UpdateServiceStatus nm st (view s)) \<and>
          snd (op_UpdateServiceStatus I nm st s) = snd (UpdateServiceStatus nm st (view s))"
    and ListServices: "inv s \<Longrightarrow> op_ListServices I s = ListServices (view s)"
    and DeleteService: "inv s \<Longrightarrow>
          inv (fst (op_DeleteService I nm s)) \<and>
          view (fst (op_DeleteService I nm s)) = fst (DeleteService nm (view s)) \<and>
          snd (op_DeleteService I nm s) = snd (DeleteService nm (view s))"
    and UpsertJob: "inv s \<Longrightarrow> job_status_ok ok (job_st j) \<Longrightarrow> inv (op_UpsertJob I j s) \<and> view (op_UpsertJob I j s) = UpsertJob j (view s)"
    and UpdateJobStatus: "inv s \<Longrightarrow> job_status_ok ok jst \<Longrightarrow>
          inv (fst (op_UpdateJobStatus I nm jst s)) \<and>
          view (fst (op_UpdateJobStatus I nm jst s)) = fst (UpdateJobStatus nm jst (view s)) \<and>
          snd (op_UpdateJobStatus I nm jst s) = snd (UpdateJobStatus nm jst (view s))"
    and ListJobs: "inv s \<Longrightarrow> op_ListJobs I s = ListJobs (view s)"
    and DeleteJob: "inv s \<Longrightarrow>
          inv (fst (op_DeleteJob I nm s)) \<and>
          view (fst (op_DeleteJob I nm s)) = fst (DeleteJob nm (view s)) \<and>
          snd (op_DeleteJob I nm s) = snd (DeleteJob nm (view s))"
    and SaveAssignment: "inv s \<Longrightarrow> assignment_ok ok a \<Longrightarrow>
          inv (op_SaveAssignment I a s) \<and> view (op_SaveAssignment I a s) = SaveAssignment a (view s)"
    and DeleteAssignment: "inv s \<Longrightarrow>
          inv (fst (op_DeleteAssignment I i s)) \<and>
          view (fst (op_DeleteAssignment I i s)) = fst (DeleteAssignment i (view s)) \<and>
          snd (op_DeleteAssignment I i s) = snd (DeleteAssignment i (view s))"
    and UpdateAssignmentStatus: "inv s \<Longrightarrow> ok now \<Longrightarrow> phase_ok p \<Longrightarrow>
          inv (fst (op_UpdateAssignmentStatus I i p m now s)) \<and>
          view (fst (op_UpdateAssignmentStatus I i p m now s)) = fst (UpdateAssignmentStatus i p m now (view s)) \<and>
          snd (op_UpdateAssignmentStatus I i p m now s) = snd (UpdateAssignmentStatus i p m now (view s))"
    and ListAssignments: "inv s \<Longrightarrow> op_ListAssignments I s = ListAssignments (view s)"
    and ListNodeAssignments: "inv s \<Longrightarrow> op_ListNodeAssignments I i s = ListNodeAssignments i (view s)"
    and ListAssignmentsForOwner: "inv s \<Longrightarrow> kind_ok kind \<Longrightarrow>
          op_ListAssignmentsForOwner I kind nm s = ListAssignmentsForOwner kind nm (view s)"
    and HasAssignment: "inv s \<Longrightarrow> op_HasAssignment I i s = HasAssignment i (view s)"
    and Snapshot: "inv s \<Longrightarrow> op_Snapshot I s = Snapshot (view s)"
    and listed_ok: "inv s \<Longrightarrow> fmlookup (m_assignments (view s)) k = Some b \<Longrightarrow> finished_at b = Some t \<Longrightarrow> ok t"
begin

text \<open>The laws as rewrite rules: what an operation does to the view, what it returns, the invariant.\<close>

lemmas view_fst = TouchNode [THEN conjunct2, THEN conjunct1]
  UpdateServiceStatus [THEN conjunct2, THEN conjunct1]
  DeleteService [THEN conjunct2, THEN conjunct1] UpdateJobStatus [THEN conjunct2, THEN conjunct1]
  DeleteJob [THEN conjunct2, THEN conjunct1] DeleteAssignment [THEN conjunct2, THEN conjunct1]
  UpdateAssignmentStatus [THEN conjunct2, THEN conjunct1]

lemmas view_snd = TouchNode [THEN conjunct2, THEN conjunct2]
  UpdateServiceStatus [THEN conjunct2, THEN conjunct2]
  DeleteService [THEN conjunct2, THEN conjunct2] UpdateJobStatus [THEN conjunct2, THEN conjunct2]
  DeleteJob [THEN conjunct2, THEN conjunct2] DeleteAssignment [THEN conjunct2, THEN conjunct2]
  UpdateAssignmentStatus [THEN conjunct2, THEN conjunct2]

lemmas view_upd = UpsertNode [THEN conjunct2] UpsertService [THEN conjunct2] UpsertJob [THEN conjunct2]
  SaveAssignment [THEN conjunct2]

lemmas inv_ops = UpsertNode [THEN conjunct1] UpsertService [THEN conjunct1] UpsertJob [THEN conjunct1]
  SaveAssignment [THEN conjunct1] TouchNode [THEN conjunct1] UpdateServiceStatus [THEN conjunct1]
  DeleteService [THEN conjunct1] UpdateJobStatus [THEN conjunct1] DeleteJob [THEN conjunct1]
  DeleteAssignment [THEN conjunct1] UpdateAssignmentStatus [THEN conjunct1]

lemmas view_queries = ListNodes ListServices ListJobs ListAssignments ListNodeAssignments
  ListAssignmentsForOwner HasAssignment Snapshot

lemmas contract = view_fst view_snd view_upd view_queries inv_ops

end

interpretation mem: store_contract mem_iface wf_store "\<lambda>s. s" "\<lambda>_. True"
  by unfold_locales (simp_all add: plain_status_def wf_intros)

end
