(* ===== verification/Controller.thy ===== *)
theory Controller
  imports Scheduler Store_Contract Go_Strings
begin

text \<open>
  \<open>internal/controller/controller.go\<close>: the controller's state and the helpers of the
  reconcile loop. Operations that call the store take its method table \<open>I\<close> first and pass
  the store's state along. \<open>crypto/rand\<close> is a supply of random bytes: a read of \<open>n\<close> bytes
  takes the next \<open>n\<close>, and fails, which makes \<open>randomSuffix\<close> panic, when fewer are left.
\<close>

section \<open>Model\<close>

record controller =
  ctl_scheduler :: scheduler
  ctl_nodeTimeout :: duration
  ctl_startedAt :: time

type_synonym entropy = "8 word list"

definition New :: "scheduler \<Rightarrow> duration \<Rightarrow> controller" where
  "New s tmo = \<lparr>ctl_scheduler = s, ctl_nodeTimeout = tmo, ctl_startedAt = 0\<rparr>"

definition ctl_nodes :: "'s store_iface \<Rightarrow> controller \<Rightarrow> 's \<Rightarrow> node list" where
  "ctl_nodes I c st =
     map (\<lambda>n. if last_heartbeat n < ctl_startedAt c then n\<lparr>last_heartbeat := ctl_startedAt c\<rparr> else n)
       (op_ListNodes I st)"

definition liveNodeSet :: "time \<Rightarrow> node list \<Rightarrow> duration \<Rightarrow> string set" where
  "liveNodeSet now nodes timeout =
     set (map node_ID (filter (\<lambda>n. time_Sub now (last_heartbeat n) \<le> timeout) nodes))"

definition lost_message :: "string \<Rightarrow> string" where
  "lost_message i = ''node '' @ i @ '' stopped heartbeating''"

definition mark_lost :: "'s store_iface \<Rightarrow> time \<Rightarrow> string set \<Rightarrow> assignment \<Rightarrow> 's \<Rightarrow> 's" where
  "mark_lost I now live a st =
     (if \<not> IsActivePhase (asg_phase a) then st
      else if asg_node a \<in> live then st
      else fst (op_UpdateAssignmentStatus I (asg_ID a) Lost (lost_message (asg_node a)) now st))"

definition markLostAssignments :: "'s store_iface \<Rightarrow> controller \<Rightarrow> time \<Rightarrow> 's \<Rightarrow> 's" where
  "markLostAssignments I c now st =
     (let live = liveNodeSet now (ctl_nodes I c st) (ctl_nodeTimeout c)
      in fold (mark_lost I now live) (op_ListAssignments I st) st)"

text \<open>
  The comparison of \<open>pickAssignmentsToRemove\<close>, and the slice expression \<open>sorted[:count]\<close>,
  which panics for a negative \<open>count\<close>.
\<close>

definition removed_before :: "assignment \<Rightarrow> assignment \<Rightarrow> bool" where
  "removed_before a b =
     (if asg_phase a \<noteq> asg_phase b then asg_phase a = Pending
      else if created_at a = created_at b then asg_ID b < asg_ID a
      else created_at b < created_at a)"

definition pickAssignmentsToRemove :: "assignment list \<Rightarrow> goint \<Rightarrow> fault + assignment list" where
  "pickAssignmentsToRemove assignments cnt =
     (let xs = sort_slice removed_before assignments;
          n = (if int (length xs) < sint cnt then int (length xs) else sint cnt)
      in if n < 0 then Inl SliceBounds else Inr (take (nat n) xs))"

definition suffixAlphabet :: string where
  "suffixAlphabet = ''bcdfghjklmnpqrstvwxz2456789''"

definition suffix_char :: "8 word \<Rightarrow> char" where
  "suffix_char b = suffixAlphabet ! (unat b mod length suffixAlphabet)"

definition randomSuffix :: "nat \<Rightarrow> entropy \<Rightarrow> fault + (string \<times> entropy)" where
  "randomSuffix n ent =
     (if length ent < n then Inl CryptoRand else Inr (map suffix_char (take n ent), drop n ent))"

definition assignment_id :: "string \<Rightarrow> goint \<Rightarrow> string \<Rightarrow> string" where
  "assignment_id owner att suff =
     replace_char (CHR '' '') (CHR ''-'') (ToLower owner) @ ''-'' @ show_int (sint att) @ ''-'' @ suff"

function nextAssignmentID ::
  "'s store_iface \<Rightarrow> 's \<Rightarrow> string \<Rightarrow> goint \<Rightarrow> entropy \<Rightarrow> fault + (string \<times> entropy)" where
  "nextAssignmentID I st owner att ent =
     and_then (randomSuffix 5 ent) (\<lambda>(suff, ent').
       let i = assignment_id owner att suff
       in if op_HasAssignment I i st then nextAssignmentID I st owner att ent' else Inr (i, ent'))"
  by pat_completeness auto
termination
  by (relation "measure (\<lambda>(I, st, owner, att, ent). length ent)")
    (auto simp: randomSuffix_def split: if_splits)

declare nextAssignmentID.simps [simp del]

definition go_max :: "goint \<Rightarrow> goint \<Rightarrow> goint" where
  "go_max a b = (if b <s a then a else b)"

section \<open>Liveness of nodes\<close>

text \<open>The effective heartbeat of a stored node: the stored one, or the controller's start.\<close>

definition graced :: "controller \<Rightarrow> node \<Rightarrow> node" where
  "graced c n = n\<lparr>last_heartbeat := max (last_heartbeat n) (ctl_startedAt c)\<rparr>"

lemma ctl_nodes_graced: "ctl_nodes I c st = map (graced c) (op_ListNodes I st)"
  by (auto simp: ctl_nodes_def graced_def max_def intro!: map_cong)

lemma graced_fields [simp]:
  "node_ID (graced c n) = node_ID n" "node_labels (graced c n) = node_labels n"
  "node_capacity (graced c n) = node_capacity n"
  "last_heartbeat (graced c n) = max (last_heartbeat n) (ctl_startedAt c)"
  by (simp_all add: graced_def)

definition live_ids :: "controller \<Rightarrow> time \<Rightarrow> mem_store \<Rightarrow> string set" where
  "live_ids c now s = liveNodeSet now (ctl_nodes mem_iface c s) (ctl_nodeTimeout c)"

lemma mem_liveNodeSet:
  "i \<in> liveNodeSet now nodes tmo \<longleftrightarrow> (\<exists>n \<in> set nodes. node_ID n = i \<and> node_live tmo now n)"
  by (auto simp: liveNodeSet_def node_live_def)

lemma mem_live_ids:
  assumes "wf_store s"
  shows "i \<in> live_ids c now s \<longleftrightarrow>
     (\<exists>n. fmlookup (m_nodes s) i = Some n \<and> node_live (ctl_nodeTimeout c) now (graced c n))"
proof -
  have "i \<in> live_ids c now s \<longleftrightarrow>
    (\<exists>n \<in> set (ListNodes s). node_ID n = i \<and> node_live (ctl_nodeTimeout c) now (graced c n))"
    by (auto simp: live_ids_def mem_liveNodeSet ctl_nodes_graced)
  then show ?thesis
    using assms by (metis mem_ListNodes wf_node)
qed

lemma live_ids_cong: "m_nodes s = m_nodes s' \<Longrightarrow> live_ids c now s = live_ids c now s'"
  by (simp add: live_ids_def ctl_nodes_def ListNodes_def)

lemma ctl_nodes_cong: "m_nodes s = m_nodes s' \<Longrightarrow> ctl_nodes mem_iface c s = ctl_nodes mem_iface c s'"
  by (simp add: ctl_nodes_def ListNodes_def)

text \<open>\<open>main\<close> gives the scheduler and the controller the same timeout; then a chosen node is live.\<close>

definition same_timeout :: "controller \<Rightarrow> bool" where
  "same_timeout c \<longleftrightarrow> NodeTimeout (ctl_scheduler c) = ctl_nodeTimeout c"

lemma ChooseNode_live:
  assumes "ChooseNode (ctl_scheduler c) now (ctl_nodes mem_iface c s) as req pl ports = Inr nid"
    and "same_timeout c"
  shows "nid \<in> live_ids c now s"
proof -
  obtain n where "n \<in> set (ctl_nodes mem_iface c s)" "node_ID n = nid"
      "eligible (NodeTimeout (ctl_scheduler c)) now as req pl ports n"
    using assms(1) by (rule ChooseNode_Inr)
  with assms(2) show ?thesis
    by (auto simp: live_ids_def mem_liveNodeSet eligible_def same_timeout_def)
qed

section \<open>Fresh assignment IDs\<close>

lemma suffix_char_mem: "suffix_char b \<in> set suffixAlphabet"
  unfolding suffix_char_def by (rule nth_mem) (simp add: suffixAlphabet_def)

lemma randomSuffix_Inr:
  "randomSuffix n ent = Inr (suff, ent') \<longleftrightarrow>
     n \<le> length ent \<and> suff = map suffix_char (take n ent) \<and> ent' = drop n ent"
  by (auto simp: randomSuffix_def not_less)

lemma nextAssignmentID_step:
  assumes "5 \<le> length ent" and "i = assignment_id owner att (map suffix_char (take 5 ent))"
  shows "nextAssignmentID I st owner att ent =
     (if op_HasAssignment I i st then nextAssignmentID I st owner att (drop 5 ent) else Inr (i, drop 5 ent))"
  using assms by (subst nextAssignmentID.simps) (simp add: randomSuffix_def Let_def)

lemma nextAssignmentID_dry: "length ent < 5 \<Longrightarrow> nextAssignmentID I st owner att ent = Inl CryptoRand"
  by (subst nextAssignmentID.simps) (simp add: randomSuffix_def)

lemma nextAssignmentID_Inr:
  assumes "nextAssignmentID I st owner att ent = Inr (i, ent')"
  shows "\<not> op_HasAssignment I i st \<and> length ent' < length ent \<and>
    (\<exists>suff. length suff = 5 \<and> set suff \<subseteq> set suffixAlphabet \<and> i = assignment_id owner att suff)"
  using assms
proof (induction "length ent" arbitrary: ent rule: less_induct)
  case less
  let ?suff = "map suffix_char (take 5 ent)"
  have len: "5 \<le> length ent"
    using less.prems nextAssignmentID_dry [of ent I st owner att] by (cases "length ent < 5") auto
  note step = nextAssignmentID_step [OF len refl, of I st owner att]
  show ?case
  proof (cases "op_HasAssignment I (assignment_id owner att ?suff) st")
    case True
    then have "nextAssignmentID I st owner att (drop 5 ent) = Inr (i, ent')"
      using less.prems step by simp
    moreover have "length (drop 5 ent) < length ent" using len by simp
    ultimately show ?thesis using less.hyps by fastforce
  next
    case False
    then have "i = assignment_id owner att ?suff" "ent' = drop 5 ent"
      using less.prems step by auto
    moreover have "length ?suff = 5" "set ?suff \<subseteq> set suffixAlphabet"
      using len by (auto simp: suffix_char_mem)
    ultimately show ?thesis using False len by (intro conjI exI [of _ ?suff]) auto
  qed
qed

definition nth_suffix :: "entropy \<Rightarrow> nat \<Rightarrow> string" where
  "nth_suffix ent k = map suffix_char (take 5 (drop (5 * k) ent))"

lemma nextAssignmentID_returns:
  assumes "5 * Suc k \<le> length ent" and "\<not> op_HasAssignment I (assignment_id owner att (nth_suffix ent k)) st"
  shows "\<exists>r. nextAssignmentID I st owner att ent = Inr r"
  using assms
proof (induction k arbitrary: ent)
  case 0
  then show ?case by (simp add: nextAssignmentID_step [OF _ refl] nth_suffix_def)
next
  case (Suc k)
  have "nth_suffix (drop 5 ent) k = nth_suffix ent (Suc k)"
    by (simp add: nth_suffix_def add.commute)
  with Suc have "\<exists>r. nextAssignmentID I st owner att (drop 5 ent) = Inr r" by simp
  moreover have "5 \<le> length ent" using Suc.prems by simp
  ultimately show ?case by (simp add: nextAssignmentID_step [OF _ refl])
qed

lemma assignment_id_inj: "assignment_id owner att s = assignment_id owner att t \<longleftrightarrow> s = t"
  by (simp add: assignment_id_def)

text \<open>
  C18: An assignment ID handed out by \<open>nextAssignmentID\<close> names no stored assignment, so saving
  under it never overwrites one; it is the owner's name and the attempt number followed by
  five characters of the suffix alphabet. And the search returns as soon as the
  random bytes hold more distinct suffixes than there are stored assignments.
\<close>

theorem nextAssignmentID_fresh:
  fixes s :: mem_store
  shows "(\<forall>i ent'. nextAssignmentID mem_iface s owner att ent = Inr (i, ent') \<longrightarrow>
      fmlookup (m_assignments s) i = None \<and>
      (\<exists>suff. length suff = 5 \<and> set suff \<subseteq> set suffixAlphabet \<and> i = assignment_id owner att suff)) \<and>
    (card (fmdom' (m_assignments s)) < card (nth_suffix ent ` {k. 5 * Suc k \<le> length ent}) \<longrightarrow>
      (\<exists>i ent'. nextAssignmentID mem_iface s owner att ent = Inr (i, ent')))"
proof (intro conjI allI impI)
  show "fmlookup (m_assignments s) i = None"
    and "\<exists>suff. length suff = 5 \<and> set suff \<subseteq> set suffixAlphabet \<and> i = assignment_id owner att suff"
    if "nextAssignmentID mem_iface s owner att ent = Inr (i, ent')" for i ent'
    using nextAssignmentID_Inr [OF that] by (simp_all add: HasAssignment_def)
  let ?S = "nth_suffix ent ` {k. 5 * Suc k \<le> length ent}"
  assume more: "card (fmdom' (m_assignments s)) < card ?S"
  have "\<not> assignment_id owner att ` ?S \<subseteq> fmdom' (m_assignments s)"
  proof
    assume "assignment_id owner att ` ?S \<subseteq> fmdom' (m_assignments s)"
    then have "card (assignment_id owner att ` ?S) \<le> card (fmdom' (m_assignments s))"
      by (intro card_mono) simp_all
    moreover have "inj_on (assignment_id owner att) ?S"
      by (auto simp: inj_on_def assignment_id_inj)
    ultimately show False using more by (simp add: card_image)
  qed
  then obtain k where "5 * Suc k \<le> length ent"
      "assignment_id owner att (nth_suffix ent k) \<notin> fmdom' (m_assignments s)"
    by auto
  then have "\<exists>r. nextAssignmentID mem_iface s owner att ent = Inr r"
    by (intro nextAssignmentID_returns [of k]) (auto simp: HasAssignment_def fmlookup_dom'_iff)
  then show "\<exists>i ent'. nextAssignmentID mem_iface s owner att ent = Inr (i, ent')" by auto
qed

end
