(* ===== verification/Services.thy ===== *)
theory Services
  imports Controller
begin

text \<open>
  \<open>internal/controller/services.go\<close>: \<open>reconcileService\<close>, its two loops as folds and a
  recursion, and what one call of it achieves: the count of replicas, which replicas a
  scale-down removes, and that the store is otherwise left alone.
\<close>

section \<open>Model\<close>

definition active_on :: "string set \<Rightarrow> assignment list \<Rightarrow> assignment list" where
  "active_on live as = filter (\<lambda>a. IsActivePhase (asg_phase a) \<and> asg_node a \<in> live) as"

definition service_assignment :: "service \<Rightarrow> string \<Rightarrow> string \<Rightarrow> time \<Rightarrow> assignment" where
  "service_assignment v i nid now = \<lparr>
     asg_ID = i,
     owner_kind = KindService,
     owner_name = service_name v,
     asg_node = nid,
     asg_image = service_image v,
     asg_command = service_command v,
     asg_env = service_env v,
     asg_resources = service_resources v,
     asg_volumes = service_volumes v,
     asg_ports = service_ports v,
     attempt = 1,
     asg_phase = Pending,
     status_message = [],
     created_at = now,
     started_at = None,
     finished_at = None\<rparr>"

text \<open>\<open>for len(active) < service.Replicas\<close>: the loop adds one assignment per round.\<close>

function scale_up ::
  "'s store_iface \<Rightarrow> controller \<Rightarrow> time \<Rightarrow> service \<Rightarrow> assignment list \<Rightarrow> entropy \<Rightarrow> 's \<Rightarrow>
   fault + ('s \<times> entropy)" where
  "scale_up I c now v act ent st =
     (if int (length act) < sint (service_replicas v) then
        case ChooseNode (ctl_scheduler c) now (ctl_nodes I c st) (op_ListAssignments I st)
               (service_resources v) (service_placement v) (service_ports v) of
          Inl err \<Rightarrow> Inr (st, ent)
        | Inr nid \<Rightarrow> and_then (nextAssignmentID I st (service_name v) 1 ent) (\<lambda>(i, ent').
            let a = service_assignment v i nid now
            in scale_up I c now v (act @ [a]) ent' (op_SaveAssignment I a st))
      else Inr (st, ent))"
  by pat_completeness auto
termination
  by (relation "measure (\<lambda>(I, c, now, v, act, ent, st). nat (sint (service_replicas v) - int (length act)))")
    auto

declare scale_up.simps [simp del]

definition delete_all :: "'s store_iface \<Rightarrow> assignment list \<Rightarrow> 's \<Rightarrow> 's" where
  "delete_all I excess st = fold (\<lambda>a s. fst (op_DeleteAssignment I (asg_ID a) s)) excess st"

definition scale_down ::
  "'s store_iface \<Rightarrow> string set \<Rightarrow> service \<Rightarrow> 's \<Rightarrow> fault + ('s \<times> assignment list)" where
  "scale_down I live v st =
     (let act = active_on live (op_ListAssignmentsForOwner I KindService (service_name v) st)
      in if sint (service_replicas v) < int (length act)
         then and_then (pickAssignmentsToRemove act (of_nat (length act) - service_replicas v)) (\<lambda>excess.
           let st' = delete_all I excess st
           in Inr (st', active_on live (op_ListAssignmentsForOwner I KindService (service_name v) st')))
         else Inr (st, act))"

definition note_replica :: "string set \<Rightarrow> assignment \<Rightarrow> service_status \<Rightarrow> service_status" where
  "note_replica live a st =
     (if \<not> IsActivePhase (asg_phase a) then st
      else if asg_node a \<notin> live then st
      else
        let st1 = st\<lparr>assignment_IDs := Some (elems (assignment_IDs st) @ [asg_ID a])\<rparr>
        in if asg_phase a = Pending then st1\<lparr>pending_replicas := pending_replicas st1 + 1\<rparr>
           else if asg_phase a = Running then st1\<lparr>running_replicas := running_replicas st1 + 1\<rparr>
           else st1)"

definition replica_status :: "string set \<Rightarrow> service \<Rightarrow> time \<Rightarrow> assignment list \<Rightarrow> service_status" where
  "replica_status live v now as =
     (let st = fold (note_replica live) as
            (zero_service_status\<lparr>desired_replicas := service_replicas v, last_reconciled_unix := time_Unix now\<rparr>)
      in st\<lparr>assignment_IDs := map_option (sort_slice (<)) (assignment_IDs st)\<rparr>)"

definition reconcileService ::
  "'s store_iface \<Rightarrow> controller \<Rightarrow> time \<Rightarrow> service \<Rightarrow> entropy \<Rightarrow> 's \<Rightarrow> fault + ('s \<times> entropy)" where
  "reconcileService I c now v ent st =
     (let live = liveNodeSet now (ctl_nodes I c st) (ctl_nodeTimeout c)
      in and_then (scale_down I live v st) (\<lambda>(st1, act).
         and_then (scale_up I c now v act ent st1) (\<lambda>(st2, ent2).
           let final = op_ListAssignmentsForOwner I KindService (service_name v) st2;
               status = replica_status live v now final
           in Inr (fst (op_UpdateServiceStatus I (service_name v) status st2), ent2))))"

section \<open>Lemmas on the parts\<close>

lemma service_assignment_fields [simp]:
  "asg_ID (service_assignment v i nid now) = i"
  "owner_kind (service_assignment v i nid now) = KindService"
  "owner_name (service_assignment v i nid now) = service_name v"
  "asg_node (service_assignment v i nid now) = nid"
  "asg_resources (service_assignment v i nid now) = service_resources v"
  "asg_ports (service_assignment v i nid now) = service_ports v"
  "attempt (service_assignment v i nid now) = 1"
  "asg_phase (service_assignment v i nid now) = Pending"
  "created_at (service_assignment v i nid now) = now"
  "started_at (service_assignment v i nid now) = None"
  "finished_at (service_assignment v i nid now) = None"
  by (simp_all add: service_assignment_def)

lemma assignment_IDs_note_replicas:
  "elems (assignment_IDs (fold (note_replica live) as st)) =
     elems (assignment_IDs st) @ map asg_ID (active_on live as)"
  by (induction as arbitrary: st) (auto simp: note_replica_def active_on_def Let_def)

lemma note_replica_nil:
  "assignment_IDs st \<noteq> Some [] \<Longrightarrow> assignment_IDs (fold (note_replica live) as st) \<noteq> Some []"
  by (induction as arbitrary: st) (auto simp: note_replica_def Let_def)

lemma plain_replica_status: "plain_status (replica_status live v now as)"
proof -
  let ?st = "fold (note_replica live) as
    (zero_service_status\<lparr>desired_replicas := service_replicas v, last_reconciled_unix := time_Unix now\<rparr>)"
  have "assignment_IDs ?st \<noteq> Some []"
    by (rule note_replica_nil) (simp add: zero_service_status_def)
  then have "map_option (sort_slice (<)) (assignment_IDs ?st) \<noteq> Some []"
    by (cases "assignment_IDs ?st") auto
  then have "cloneSlice (map_option (sort_slice (<)) (assignment_IDs ?st)) =
      map_option (sort_slice (<)) (assignment_IDs ?st)"
    by (cases "assignment_IDs ?st") (auto simp: cloneSlice_def)
  then show ?thesis
    by (simp add: plain_status_def replica_status_def Let_def)
qed

lemma removed_before_iff:
  assumes "active a" "active b"
  shows "removed_before a b \<longleftrightarrow>
    asg_phase a = Pending \<and> asg_phase b = Running \<or>
    asg_phase a = asg_phase b \<and>
      (created_at b < created_at a \<or> created_at a = created_at b \<and> asg_ID b < asg_ID a)"
  using assms by (auto simp: removed_before_def IsActivePhase_def)

interpretation removal_order: slice_order active removed_before asg_ID
proof unfold_locales
  fix a b c
  show "\<not> removed_before a a" by (simp add: removed_before_def)
  assume act: "active a" "active b" "active c" and "removed_before a b" "removed_before b c"
  then show "removed_before a c"
    unfolding removed_before_iff [OF act(1,2)] removed_before_iff [OF act(2,3)]
      removed_before_iff [OF act(1,3)]
    by (elim disjE conjE) (simp_all, (metis order.strict_trans)+)
next
  fix a b
  assume act: "active a" "active b" and "asg_ID a \<noteq> asg_ID b"
  then show "removed_before a b \<or> removed_before b a"
    unfolding removed_before_iff [OF act] removed_before_iff [OF act(2,1)]
    by (auto simp: IsActivePhase_def)
qed

text \<open>With a non-negative replica count the slice expression is in range.\<close>

lemma sint_goint_of_nat:
  assumes "n < 2 ^ 63"
  shows "sint (of_nat n :: goint) = int n"
proof -
  have "sint (word_of_int (int n) :: goint) = signed_take_bit 63 (int n)"
    by (subst sint_sbintrunc') simp
  also have "\<dots> = int n"
    using assms by (intro signed_take_bit_int_eq_self) auto
  finally show ?thesis by simp
qed

lemma excess_count:
  assumes "sint r < int n" "0 \<le> sint (r :: goint)" "n < 2 ^ 63"
  shows "sint (of_nat n - r) = int n - sint r"
  using assms by (subst sint_diff_small) (simp_all add: sint_goint_of_nat)

lemma pickAssignmentsToRemove_take:
  assumes "0 \<le> sint r" "sint r < int (length as)" "length as < 2 ^ 63"
  shows "pickAssignmentsToRemove as (of_nat (length as) - r) =
    Inr (take (length as - nat (sint r)) (sort_slice removed_before as))"
  using assms excess_count [of r "length as"]
  by (auto simp: pickAssignmentsToRemove_def Let_def nat_diff_distrib)

section \<open>Counting replicas\<close>

text \<open>The keys of a service's active assignments on live nodes.\<close>

definition replica_keys :: "string set \<Rightarrow> string \<Rightarrow> mem_store \<Rightarrow> string set" where
  "replica_keys live name s = {k. \<exists>a. fmlookup (m_assignments s) k = Some a \<and>
     (owner_kind a = KindService \<and> owner_name a = name \<and> active a \<and> asg_node a \<in> live)}"

lemma finite_replica_keys [simp]: "finite (replica_keys live name s)"
  unfolding replica_keys_def by simp

lemma length_active_on:
  assumes "wf_store s"
  shows "length (active_on live (ListAssignmentsForOwner KindService name s)) = card (replica_keys live name s)"
  using length_filter_ListAssignments [OF assms,
      of "\<lambda>a. owner_kind a = KindService \<and> owner_name a = name \<and> active a \<and> asg_node a \<in> live"]
  by (simp add: active_on_def ListAssignmentsForOwner_def replica_keys_def conj_ac)

lemma mem_active_on:
  assumes "wf_store s"
  shows "a \<in> set (active_on live (ListAssignmentsForOwner KindService name s)) \<longleftrightarrow>
    fmlookup (m_assignments s) (asg_ID a) = Some a \<and> asg_ID a \<in> replica_keys live name s"
  using assms by (auto simp: active_on_def mem_listings replica_keys_def)

lemma distinct_active_on:
  "wf_store s \<Longrightarrow> distinct (map asg_ID (active_on live (ListAssignmentsForOwner kind name s)))"
  unfolding active_on_def ListAssignmentsForOwner_def
  by (intro distinct_map_filter distinct_ListAssignments)

lemma delete_all_lookup:
  "fmlookup (m_assignments (delete_all mem_iface xs s)) k =
     (if k \<in> asg_ID ` set xs then None else fmlookup (m_assignments s) k)"
  unfolding delete_all_def by (induction xs arbitrary: s) (auto simp: store_simps)

lemma delete_all_frame [simp]:
  "m_nodes (delete_all mem_iface xs s) = m_nodes s" "m_services (delete_all mem_iface xs s) = m_services s"
  "m_jobs (delete_all mem_iface xs s) = m_jobs s"
  unfolding delete_all_def by (induction xs arbitrary: s) auto

lemma wf_delete_all [wf_intros]: "wf_store s \<Longrightarrow> wf_store (delete_all mem_iface xs s)"
  unfolding delete_all_def by (induction xs arbitrary: s) (auto simp: wf_intros)

lemma replica_keys_delete_all:
  "replica_keys live name (delete_all mem_iface xs s) = replica_keys live name s - asg_ID ` set xs"
  by (auto simp: replica_keys_def delete_all_lookup split: if_splits)

lemma replica_keys_SaveAssignment:
  assumes "fmlookup (m_assignments s) i = None"
  shows "replica_keys live (service_name v) (SaveAssignment (service_assignment v i nid now) s) =
    (if nid \<in> live then insert i (replica_keys live (service_name v) s)
     else replica_keys live (service_name v) s)"
  using assms by (auto simp: replica_keys_def store_simps split: if_splits)

section \<open>Scaling down\<close>

text \<open>
  The assumption that a store holds fewer than \<open>2 ^ 63\<close> assignments is what makes \<open>len\<close>
  fit Go's \<open>int\<close>; memory runs out long before.
\<close>

definition small_store :: "mem_store \<Rightarrow> bool" where
  "small_store s \<longleftrightarrow> card (fmdom' (m_assignments s)) < 2 ^ 63"

lemma card_replica_keys_small:
  assumes "small_store s"
  shows "card (replica_keys live name s) < 2 ^ 63"
proof -
  have "card (replica_keys live name s) \<le> card (fmdom' (m_assignments s))"
    by (rule card_mono) (auto simp: replica_keys_def fmlookup_dom'_iff)
  with assms show ?thesis by (simp add: small_store_def)
qed

text \<open>The assignments a scale-down deletes.\<close>

definition excess_replicas :: "string set \<Rightarrow> service \<Rightarrow> mem_store \<Rightarrow> assignment list" where
  "excess_replicas live v s =
     (let act = active_on live (ListAssignmentsForOwner KindService (service_name v) s)
      in take (length act - nat (sint (service_replicas v))) (sort_slice removed_before act))"

lemma set_excess_replicas:
  "set (excess_replicas live v s) \<subseteq>
     set (active_on live (ListAssignmentsForOwner KindService (service_name v) s))"
  unfolding excess_replicas_def Let_def using set_take_subset set_sort_slice by metis

lemma scale_down_eq:
  assumes "wf_store s" "small_store s" "0 \<le> sint (service_replicas v)"
  shows "scale_down mem_iface live v s = Inr (delete_all mem_iface (excess_replicas live v s) s,
    active_on live (ListAssignmentsForOwner KindService (service_name v)
      (delete_all mem_iface (excess_replicas live v s) s)))"
proof -
  let ?act = "active_on live (ListAssignmentsForOwner KindService (service_name v) s)"
  have "length ?act < 2 ^ 63"
    using card_replica_keys_small [OF assms(2)] by (simp only: length_active_on [OF assms(1)])
  then show ?thesis
    using pickAssignmentsToRemove_take [OF assms(3), of ?act]
    by (auto simp: scale_down_def Let_def excess_replicas_def delete_all_def)
qed

lemma card_after_scale_down:
  assumes "wf_store s" "0 \<le> sint (service_replicas v)"
  shows "card (replica_keys live (service_name v) (delete_all mem_iface (excess_replicas live v s) s)) =
    min (card (replica_keys live (service_name v) s)) (nat (sint (service_replicas v)))"
proof -
  let ?K = "replica_keys live (service_name v) s" and ?E = "asg_ID ` set (excess_replicas live v s)"
  let ?act = "active_on live (ListAssignmentsForOwner KindService (service_name v) s)"
  have sub: "?E \<subseteq> ?K"
    using set_excess_replicas [of live v s] mem_active_on [OF assms(1)] by auto
  have "distinct (map asg_ID (excess_replicas live v s))"
    unfolding excess_replicas_def Let_def take_map [symmetric]
    by (intro distinct_take) (simp add: distinct_map_sort_slice distinct_active_on [OF assms(1)])
  then have "card ?E = length (excess_replicas live v s)"
    using distinct_card by fastforce
  also have "\<dots> = card ?K - nat (sint (service_replicas v))"
    by (simp add: excess_replicas_def Let_def length_active_on [OF assms(1)])
  finally show ?thesis
    by (simp add: replica_keys_delete_all card_Diff_subset [OF finite_subset [OF sub] sub] min_def)
qed

section \<open>Scaling up\<close>

lemma scale_up_cases:
  assumes "scale_up I c now v act ent st = Inr (st', ent')"
  obtains (stop) "\<not> int (length act) < sint (service_replicas v)" "st' = st" "ent' = ent"
  | (full) e where "ChooseNode (ctl_scheduler c) now (ctl_nodes I c st) (op_ListAssignments I st)
        (service_resources v) (service_placement v) (service_ports v) = Inl e" "st' = st" "ent' = ent"
  | (place) nid i ent1 where "int (length act) < sint (service_replicas v)"
      "ChooseNode (ctl_scheduler c) now (ctl_nodes I c st) (op_ListAssignments I st)
        (service_resources v) (service_placement v) (service_ports v) = Inr nid"
      "nextAssignmentID I st (service_name v) 1 ent = Inr (i, ent1)"
      "scale_up I c now v (act @ [service_assignment v i nid now]) ent1
        (op_SaveAssignment I (service_assignment v i nid now) st) = Inr (st', ent')"
  using assms
  by (subst (asm) scale_up.simps) (auto simp: and_then_Inr Let_def split: if_splits sum.splits)

text \<open>The loop rule: an invariant of one round holds at the exit, with the reason for the exit.\<close>

lemma scale_up_invariant:
  assumes "scale_up I c now v act ent st = Inr (st', ent')" and "Q act ent st"
    and step: "\<And>act ent st nid i ent1. Q act ent st \<Longrightarrow> int (length act) < sint (service_replicas v) \<Longrightarrow>
      ChooseNode (ctl_scheduler c) now (ctl_nodes I c st) (op_ListAssignments I st)
        (service_resources v) (service_placement v) (service_ports v) = Inr nid \<Longrightarrow>
      nextAssignmentID I st (service_name v) 1 ent = Inr (i, ent1) \<Longrightarrow>
      Q (act @ [service_assignment v i nid now]) ent1
        (op_SaveAssignment I (service_assignment v i nid now) st)"
  shows "\<exists>act'. Q act' ent' st' \<and> (sint (service_replicas v) \<le> int (length act') \<or>
    (\<exists>e. ChooseNode (ctl_scheduler c) now (ctl_nodes I c st') (op_ListAssignments I st')
        (service_resources v) (service_placement v) (service_ports v) = Inl e))"
  using assms(1,2)
proof (induction "nat (sint (service_replicas v) - int (length act))" arbitrary: act ent st rule: less_induct)
  case less
  from less.prems(1) show ?case
  proof (cases rule: scale_up_cases)
    case stop
    then show ?thesis using less.prems(2) by auto
  next
    case (full e)
    then show ?thesis using less.prems(2) by auto
  next
    case (place nid i ent1)
    have "nat (sint (service_replicas v) - int (length (act @ [service_assignment v i nid now]))) <
        nat (sint (service_replicas v) - int (length act))"
      using place(1) by simp
    then show ?thesis
      using less.hyps place(4) step [OF less.prems(2) place(1,2,3)] by blast
  qed
qed

definition unplaceable :: "controller \<Rightarrow> time \<Rightarrow> service \<Rightarrow> mem_store \<Rightarrow> bool" where
  "unplaceable c now v s \<longleftrightarrow> (\<forall>n \<in> set (ctl_nodes mem_iface c s).
     \<not> eligible (NodeTimeout (ctl_scheduler c)) now (ListAssignments s)
       (service_resources v) (service_placement v) (service_ports v) n)"

lemma scale_up_count:
  assumes "scale_up mem_iface c now v act ent s = Inr (s', ent')"
    and "wf_store s" "same_timeout c" and live: "live = live_ids c now s"
    and "length act = card (replica_keys live (service_name v) s)"
    and "length act \<le> nat (sint (service_replicas v))"
  shows "wf_store s' \<and> m_nodes s' = m_nodes s \<and>
    card (replica_keys live (service_name v) s') \<le> nat (sint (service_replicas v)) \<and>
    (card (replica_keys live (service_name v) s') < nat (sint (service_replicas v)) \<longrightarrow> unplaceable c now v s')"
proof -
  let ?Q = "\<lambda>(act :: assignment list) (ent :: entropy) t. wf_store t \<and> m_nodes t = m_nodes s \<and>
    length act = card (replica_keys live (service_name v) t) \<and> length act \<le> nat (sint (service_replicas v))"
  have "\<exists>act'. ?Q act' ent' s' \<and> (sint (service_replicas v) \<le> int (length act') \<or>
    (\<exists>e. ChooseNode (ctl_scheduler c) now (ctl_nodes mem_iface c s') (op_ListAssignments mem_iface s')
        (service_resources v) (service_placement v) (service_ports v) = Inl e))"
  proof (rule scale_up_invariant [OF assms(1), where Q = ?Q])
    show "?Q act ent s" using assms by simp
  next
    fix act ent t nid i ent1
    assume Q: "?Q act ent t" and more: "int (length act) < sint (service_replicas v)"
      and ch: "ChooseNode (ctl_scheduler c) now (ctl_nodes mem_iface c t) (op_ListAssignments mem_iface t)
        (service_resources v) (service_placement v) (service_ports v) = Inr nid"
      and "nextAssignmentID mem_iface t (service_name v) 1 ent = Inr (i, ent1)"
    then have fresh: "fmlookup (m_assignments t) i = None"
      by (auto dest: nextAssignmentID_Inr simp: HasAssignment_def)
    have "live_ids c now t = live" using Q live by (metis live_ids_cong)
    with ch assms(3) have "nid \<in> live" by (auto dest: ChooseNode_live)
    moreover have "i \<notin> replica_keys live (service_name v) t"
      using fresh by (simp add: replica_keys_def)
    ultimately show "?Q (act @ [service_assignment v i nid now]) ent1
        (op_SaveAssignment mem_iface (service_assignment v i nid now) t)"
      using Q more fresh by (auto simp: replica_keys_SaveAssignment wf_SaveAssignment)
  qed
  then show ?thesis by (auto simp: unplaceable_def ChooseNode_Inl)
qed

lemma unplaceable_status: "unplaceable c now v (fst (UpdateServiceStatus nm st s)) = unplaceable c now v s"
  by (simp add: unplaceable_def ListAssignments_def
      ctl_nodes_cong [of "fst (UpdateServiceStatus nm st s)" s])

lemma replica_keys_status: "replica_keys live nm' (fst (UpdateServiceStatus nm st s)) = replica_keys live nm' s"
  by (simp add: replica_keys_def)

text \<open>
  C6: One \<open>reconcileService\<close> converges the service: afterwards its active replicas on live
  nodes are never more than asked for, and fewer only if no node is eligible for one more.
\<close>

theorem reconcileService_replicas:
  assumes "wf_store s" "small_store s" "same_timeout c" "0 \<le> sint (service_replicas v)"
    and run: "reconcileService mem_iface c now v ent s = Inr (s', ent')"
  shows "card (replica_keys (live_ids c now s) (service_name v) s') = nat (sint (service_replicas v)) \<or>
    card (replica_keys (live_ids c now s) (service_name v) s') < nat (sint (service_replicas v)) \<and>
      unplaceable c now v s'"
proof -
  let ?live = "live_ids c now s" and ?nm = "service_name v"
  let ?s1 = "delete_all mem_iface (excess_replicas ?live v s) s"
  obtain s2 st where up: "scale_up mem_iface c now v
      (active_on ?live (ListAssignmentsForOwner KindService ?nm ?s1)) ent ?s1 = Inr (s2, ent')"
    and s': "s' = fst (UpdateServiceStatus ?nm st s2)"
    using run scale_down_eq [OF assms(1,2,4), of ?live]
    by (auto simp: reconcileService_def Let_def and_then_Inr live_ids_def)
  have "wf_store ?s1" using assms(1) by (rule wf_delete_all)
  moreover have "?live = live_ids c now ?s1" by (rule live_ids_cong) simp
  moreover have "card (replica_keys ?live ?nm ?s1) \<le> nat (sint (service_replicas v))"
    using card_after_scale_down [OF assms(1,4), of ?live] by simp
  ultimately show ?thesis
    using scale_up_count [OF up _ assms(3)]
    by (auto simp: s' length_active_on replica_keys_status unplaceable_status)
qed

text \<open>
  A scale-down deletes, of the active replicas on live nodes, exactly the surplus, and
  prefers Pending replicas to Running ones and newer ones to older ones: no deleted
  replica comes after a kept one in that order. Everything else stays.
\<close>

theorem scale_down_order:
  assumes "wf_store s" "small_store s" "0 \<le> sint (service_replicas v)"
  shows "\<exists>s1 act1. scale_down mem_iface live v s = Inr (s1, act1) \<and>
    card (replica_keys live (service_name v) s1) =
      min (card (replica_keys live (service_name v) s)) (nat (sint (service_replicas v))) \<and>
    (\<forall>k a. fmlookup (m_assignments s) k = Some a \<longrightarrow>
      fmlookup (m_assignments s1) k = Some a \<or>
      fmlookup (m_assignments s1) k = None \<and> k \<in> replica_keys live (service_name v) s \<and>
        (\<forall>b \<in> set act1. removed_before a b))"
proof -
  let ?act = "active_on live (ListAssignmentsForOwner KindService (service_name v) s)"
  let ?xs = "sort_slice removed_before ?act"
  let ?n = "length ?act - nat (sint (service_replicas v))"
  let ?s1 = "delete_all mem_iface (excess_replicas live v s) s"
  let ?act1 = "active_on live (ListAssignmentsForOwner KindService (service_name v) ?s1)"
  have ex: "excess_replicas live v s = take ?n ?xs" by (simp add: excess_replicas_def Let_def)
  have mem: "\<And>a. a \<in> set ?act \<longleftrightarrow> fmlookup (m_assignments s) (asg_ID a) = Some a \<and>
      asg_ID a \<in> replica_keys live (service_name v) s"
    by (rule mem_active_on [OF assms(1)])
  have "sorted_wrt removed_before (take ?n ?xs @ drop ?n ?xs)"
    using removal_order.sort_slice_sorted [OF distinct_active_on [OF assms(1)]]
    by (simp add: active_on_def)
  then have order: "\<forall>a \<in> set (take ?n ?xs). \<forall>b \<in> set (drop ?n ?xs). removed_before a b"
    unfolding sorted_wrt_append by blast
  have kept: "set ?act1 \<subseteq> set (drop ?n ?xs)"
  proof
    fix b
    assume "b \<in> set ?act1"
    then have b: "b \<in> set ?act" "asg_ID b \<notin> asg_ID ` set (take ?n ?xs)"
      using mem_active_on [OF wf_delete_all [OF assms(1)]]
      by (auto simp: mem ex delete_all_lookup replica_keys_delete_all split: if_splits)
    then have "b \<in> set (take ?n ?xs @ drop ?n ?xs)" by simp
    with b(2) show "b \<in> set (drop ?n ?xs)" unfolding set_append by blast
  qed
  have "fmlookup (m_assignments ?s1) k = Some a \<or> fmlookup (m_assignments ?s1) k = None \<and>
      k \<in> replica_keys live (service_name v) s \<and> (\<forall>b \<in> set ?act1. removed_before a b)"
    if a: "fmlookup (m_assignments s) k = Some a" for k a
  proof (cases "k \<in> asg_ID ` set (take ?n ?xs)")
    case True
    then obtain a' where a': "a' \<in> set (take ?n ?xs)" "k = asg_ID a'" by auto
    then have "a' \<in> set ?act" using set_take_subset set_sort_slice by (metis subsetD)
    then have "a' = a" "k \<in> replica_keys live (service_name v) s" using mem a a'(2) by auto
    then show ?thesis using True a' order kept by (auto simp: delete_all_lookup ex)
  qed (simp add: a delete_all_lookup ex)
  then show ?thesis
    using scale_down_eq [OF assms] card_after_scale_down [OF assms(1,3)] by blast
qed

end
