(* ===== verification/Jobs.thy ===== *)
theory Jobs
  imports Controller
begin

text \<open>
  \<open>internal/controller/jobs.go\<close>: \<open>reconcileJob\<close>. Its loop over the job's assignments, with
  the early return on a success, is \<open>scan_job\<close>; the rest follows the code's order of
  guards. The theorems say when a call starts a new attempt and that a finished job stays
  finished.
\<close>

section \<open>Model\<close>

record job_scan =
  scan_status :: job_status
  latest_terminal :: "assignment option"
  scan_active :: "assignment option"

definition scan_start :: job_scan where
  "scan_start = \<lparr>scan_status = zero_job_status, latest_terminal = None, scan_active = None\<rparr>"

text \<open>The last two \<open>if\<close>s of the loop body, for an assignment that is neither a success nor active.\<close>

definition note_terminal :: "assignment \<Rightarrow> job_scan \<Rightarrow> job_scan" where
  "note_terminal a w =
     (let newer = (case latest_terminal w of None \<Rightarrow> True | Some b \<Rightarrow> created_at b < created_at a);
          w1 = (if newer then w\<lparr>latest_terminal := Some a\<rparr> else w);
          st = scan_status w1
      in if asg_phase a = Failed
         then w1\<lparr>scan_status := st\<lparr>failed_attempts := failed_attempts st + 1,
                                    last_failure := status_message a\<rparr>\<rparr>
         else w1)"

text \<open>\<open>Inl\<close> is the early return, with the status it stores.\<close>

fun scan_job :: "string set \<Rightarrow> assignment list \<Rightarrow> job_scan \<Rightarrow> job_status + job_scan" where
  "scan_job live [] w = Inr w"
| "scan_job live (a # as) w =
     (if asg_phase a = Succeeded then
        Inl ((scan_status w)\<lparr>job_succeeded := True, completed_at := finished_at a,
               last_assignment_ID := asg_ID a\<rparr>)
      else if IsActivePhase (asg_phase a) then
        scan_job live as (if asg_node a \<in> live then w\<lparr>scan_active := Some a\<rparr> else w)
      else scan_job live as (note_terminal a w))"

definition job_assignment :: "job \<Rightarrow> string \<Rightarrow> string \<Rightarrow> goint \<Rightarrow> time \<Rightarrow> assignment" where
  "job_assignment j i nid att now = \<lparr>
     asg_ID = i,
     owner_kind = KindJob,
     owner_name = job_name j,
     asg_node = nid,
     asg_image = job_image j,
     asg_command = job_command j,
     asg_env = job_env j,
     asg_resources = job_resources j,
     asg_volumes = job_volumes j,
     asg_ports = None,
     attempt = att,
     asg_phase = Pending,
     status_message = [],
     created_at = now,
     started_at = None,
     finished_at = None\<rparr>"

definition reconcileJob ::
  "'s store_iface \<Rightarrow> controller \<Rightarrow> time \<Rightarrow> job \<Rightarrow> entropy \<Rightarrow> 's \<Rightarrow> fault + ('s \<times> entropy)" where
  "reconcileJob I c now j ent st =
     (let assignments = op_ListAssignmentsForOwner I KindJob (job_name j) st;
          live = liveNodeSet now (ctl_nodes I c st) (ctl_nodeTimeout c);
          put = (\<lambda>status s. fst (op_UpdateJobStatus I (job_name j) status s))
      in case scan_job live assignments scan_start of
        Inl status \<Rightarrow> Inr (put status st, ent)
      | Inr w \<Rightarrow>
        (case scan_active w of
          Some a \<Rightarrow>
            let status = (scan_status w)\<lparr>active_assignment_ID := asg_ID a, last_assignment_ID := asg_ID a,
                  failed_attempts := go_max (failed_attempts (scan_status w)) (attempt a - 1)\<rparr>
            in Inr (put status st, ent)
        | None \<Rightarrow>
            let status = (case latest_terminal w of
                  None \<Rightarrow> scan_status w
                | Some b \<Rightarrow> (scan_status w)\<lparr>last_assignment_ID := asg_ID b\<rparr>)
            in if job_retries j <s failed_attempts status then Inr (put status st, ent)
               else case ChooseNode (ctl_scheduler c) now (ctl_nodes I c st) (op_ListAssignments I st)
                      (job_resources j) (job_placement j) None of
                 Inl err \<Rightarrow> Inr (put status st, ent)
               | Inr nid \<Rightarrow>
                 and_then (nextAssignmentID I st (job_name j) (failed_attempts status + 1) ent) (\<lambda>(i, ent').
                   let a = job_assignment j i nid (failed_attempts status + 1) now;
                       st1 = op_SaveAssignment I a st;
                       status1 = status\<lparr>active_assignment_ID := asg_ID a, last_assignment_ID := asg_ID a\<rparr>
                   in Inr (put status1 st1, ent'))))"

section \<open>Lemmas\<close>

lemma job_assignment_fields [simp]:
  "asg_ID (job_assignment j i nid att now) = i"
  "owner_kind (job_assignment j i nid att now) = KindJob"
  "owner_name (job_assignment j i nid att now) = job_name j"
  "asg_node (job_assignment j i nid att now) = nid"
  "asg_resources (job_assignment j i nid att now) = job_resources j"
  "asg_ports (job_assignment j i nid att now) = None"
  "attempt (job_assignment j i nid att now) = att"
  "asg_phase (job_assignment j i nid att now) = Pending"
  "created_at (job_assignment j i nid att now) = now"
  "started_at (job_assignment j i nid att now) = None"
  "finished_at (job_assignment j i nid att now) = None"
  by (simp_all add: job_assignment_def)

definition failures :: "assignment list \<Rightarrow> nat" where
  "failures as = length (filter (\<lambda>a. asg_phase a = Failed) as)"

lemma note_terminal_fields:
  "scan_active (note_terminal a w) = scan_active w"
  "failed_attempts (scan_status (note_terminal a w)) =
     failed_attempts (scan_status w) + (if asg_phase a = Failed then 1 else 0)"
  by (simp_all add: note_terminal_def Let_def)

lemma failures_Cons: "failures (a # as) = (if asg_phase a = Failed then Suc (failures as) else failures as)"
  by (simp add: failures_def)

lemma scan_start_fields:
  "failed_attempts (scan_status scan_start) = 0" "scan_active scan_start = None"
  by (simp_all add: scan_start_def zero_job_status_def)

lemma scan_job_Inl:
  assumes "\<exists>a \<in> set as. asg_phase a = Succeeded"
  shows "\<exists>st. scan_job live as w = Inl st \<and> job_succeeded st \<and>
    (\<exists>a \<in> set as. asg_phase a = Succeeded \<and> last_assignment_ID st = asg_ID a \<and> completed_at st = finished_at a)"
  using assms
proof (induction as arbitrary: w)
  case Nil
  then show ?case by simp
next
  case (Cons a as)
  show ?case
  proof (cases "asg_phase a = Succeeded")
    case True
    then show ?thesis by auto
  next
    case False
    with Cons.prems have "\<exists>a \<in> set as. asg_phase a = Succeeded" by auto
    note IH = Cons.IH [OF this]
    have "\<exists>w'. scan_job live (a # as) w = scan_job live as w'"
      using False by auto
    then show ?thesis using IH by (metis list.set_intros(2))
  qed
qed

lemma scan_job_Inr:
  assumes "\<forall>a \<in> set as. asg_phase a \<noteq> Succeeded"
  shows "\<exists>w'. scan_job live as w = Inr w' \<and>
    failed_attempts (scan_status w') = failed_attempts (scan_status w) + of_nat (failures as) \<and>
    (scan_active w' = None \<longleftrightarrow> scan_active w = None \<and> (\<forall>a \<in> set as. \<not> (active a \<and> asg_node a \<in> live)))"
  using assms
proof (induction as arbitrary: w)
  case Nil
  then show ?case by (simp add: failures_def)
next
  case (Cons a as)
  then have rest: "\<forall>a \<in> set as. asg_phase a \<noteq> Succeeded" and a: "asg_phase a \<noteq> Succeeded" by auto
  show ?case
  proof (cases "active a")
    case True
    then have "asg_phase a \<noteq> Failed" by auto
    with True a show ?thesis
      using Cons.IH [OF rest, of "if asg_node a \<in> live then w\<lparr>scan_active := Some a\<rparr> else w"]
      by (auto simp: failures_Cons split: if_splits)
  next
    case False
    with a show ?thesis
      using Cons.IH [OF rest, of "note_terminal a w"]
      by (auto simp: failures_Cons note_terminal_fields add.assoc)
  qed
qed

text \<open>When one call of \<open>reconcileJob\<close> starts an attempt.\<close>

definition job_due :: "controller \<Rightarrow> time \<Rightarrow> job \<Rightarrow> mem_store \<Rightarrow> bool" where
  "job_due c now j s =
     (let as = ListAssignmentsForOwner KindJob (job_name j) s
      in (\<forall>a \<in> set as. asg_phase a \<noteq> Succeeded) \<and>
         (\<forall>a \<in> set as. \<not> (active a \<and> asg_node a \<in> live_ids c now s)) \<and>
         \<not> job_retries j <s of_nat (failures as))"

lemma reconcileJob_effect:
  assumes run: "reconcileJob mem_iface c now j ent s = Inr (s', ent')"
  shows "\<exists>st. s' = fst (UpdateJobStatus (job_name j) st s) \<and>
      (\<not> job_due c now j s \<or> (\<forall>n \<in> set (ctl_nodes mem_iface c s).
         \<not> eligible (NodeTimeout (ctl_scheduler c)) now (ListAssignments s)
             (job_resources j) (job_placement j) None n)) \<or>
    (\<exists>st i nid ent1. job_due c now j s \<and>
       ChooseNode (ctl_scheduler c) now (ctl_nodes mem_iface c s) (ListAssignments s)
         (job_resources j) (job_placement j) None = Inr nid \<and>
       nextAssignmentID mem_iface s (job_name j)
         (of_nat (failures (ListAssignmentsForOwner KindJob (job_name j) s)) + 1) ent = Inr (i, ent1) \<and>
       s' = fst (UpdateJobStatus (job_name j) st
         (SaveAssignment (job_assignment j i nid
            (of_nat (failures (ListAssignmentsForOwner KindJob (job_name j) s)) + 1) now) s)))"
proof (cases "\<exists>a \<in> set (ListAssignmentsForOwner KindJob (job_name j) s). asg_phase a = Succeeded")
  case True
  then have "\<not> job_due c now j s" by (auto simp: job_due_def Let_def)
  moreover obtain st where "scan_job (live_ids c now s)
      (ListAssignmentsForOwner KindJob (job_name j) s) scan_start = Inl st"
    using scan_job_Inl [OF True] by blast
  ultimately show ?thesis
    using run by (auto simp: reconcileJob_def Let_def live_ids_def)
next
  case False
  then have no: "\<forall>a \<in> set (ListAssignmentsForOwner KindJob (job_name j) s). asg_phase a \<noteq> Succeeded"
    by blast
  note scan = scan_job_Inr [OF no, of "live_ids c now s" scan_start,
      unfolded scan_start_fields add_0 simp_thms]
  then obtain w where w: "scan_job (live_ids c now s)
      (ListAssignmentsForOwner KindJob (job_name j) s) scan_start = Inr w"
      "failed_attempts (scan_status w) = of_nat (failures (ListAssignmentsForOwner KindJob (job_name j) s))"
      "scan_active w = None \<longleftrightarrow> (\<forall>a \<in> set (ListAssignmentsForOwner KindJob (job_name j) s).
          \<not> (active a \<and> asg_node a \<in> live_ids c now s))"
    by (elim exE conjE) (rule that)
  have due: "job_due c now j s \<longleftrightarrow> scan_active w = None \<and>
      \<not> job_retries j <s failed_attempts (scan_status w)"
    using False w by (auto simp: job_due_def Let_def)
  have status: "failed_attempts (case latest_terminal w of None \<Rightarrow> scan_status w
      | Some b \<Rightarrow> (scan_status w)\<lparr>last_assignment_ID := asg_ID b\<rparr>) = failed_attempts (scan_status w)"
    by (simp split: option.splits)
  show ?thesis
  proof (cases "job_due c now j s")
    case False
    then show ?thesis
      using run w(1) due status
      by (auto simp: reconcileJob_def Let_def live_ids_def split: option.splits if_splits)
  next
    case True
    then have "scan_active w = None" "\<not> job_retries j <s failed_attempts (scan_status w)"
      using due by auto
    then show ?thesis
      using run w(1,2) True status
      by (auto simp: reconcileJob_def Let_def live_ids_def and_then_Inr ChooseNode_Inl split: sum.splits)
  qed
qed

definition job_placeable :: "controller \<Rightarrow> time \<Rightarrow> job \<Rightarrow> mem_store \<Rightarrow> bool" where
  "job_placeable c now j s \<longleftrightarrow> (\<exists>n \<in> set (ctl_nodes mem_iface c s).
     eligible (NodeTimeout (ctl_scheduler c)) now (ListAssignments s) (job_resources j) (job_placement j) None n)"

text \<open>
  C12: A call of \<open>reconcileJob\<close> starts at most one attempt, and starts one exactly when it is
  due: no attempt has succeeded, none is active on a live node, at most \<open>Retries\<close>
  attempts have failed (a lost or stopped attempt does not count), and some node is
  eligible. The attempt is saved under a fresh ID, Pending, on an eligible node, and
  numbered one above the failures. In every other case no assignment changes.
\<close>

theorem reconcileJob_starts_when_due:
  assumes run: "reconcileJob mem_iface c now j ent s = Inr (s', ent')"
  shows "if job_due c now j s \<and> job_placeable c now j s
    then \<exists>i nid n. fmlookup (m_assignments s) i = None \<and>
      m_assignments s' = fmupd i (Assignment_Clone (job_assignment j i nid
        (of_nat (failures (ListAssignmentsForOwner KindJob (job_name j) s)) + 1) now)) (m_assignments s) \<and>
      n \<in> set (ctl_nodes mem_iface c s) \<and> node_ID n = nid \<and>
      eligible (NodeTimeout (ctl_scheduler c)) now (ListAssignments s) (job_resources j) (job_placement j) None n
    else m_assignments s' = m_assignments s"
proof (cases "job_due c now j s \<and> job_placeable c now j s")
  case True
  then obtain st i nid ent1 where
    ch: "ChooseNode (ctl_scheduler c) now (ctl_nodes mem_iface c s) (ListAssignments s)
         (job_resources j) (job_placement j) None = Inr nid"
    and nx: "nextAssignmentID mem_iface s (job_name j)
         (of_nat (failures (ListAssignmentsForOwner KindJob (job_name j) s)) + 1) ent = Inr (i, ent1)"
    and s': "s' = fst (UpdateJobStatus (job_name j) st
         (SaveAssignment (job_assignment j i nid
            (of_nat (failures (ListAssignmentsForOwner KindJob (job_name j) s)) + 1) now) s))"
    using reconcileJob_effect [OF run] by (auto simp: job_placeable_def)
  from nx have "fmlookup (m_assignments s) i = None"
    by (auto dest: nextAssignmentID_Inr simp: HasAssignment_def)
  moreover obtain n where "n \<in> set (ctl_nodes mem_iface c s)" "node_ID n = nid"
      "eligible (NodeTimeout (ctl_scheduler c)) now (ListAssignments s) (job_resources j) (job_placement j) None n"
    using ch by (rule ChooseNode_Inr)
  moreover have "m_assignments s' = fmupd i (Assignment_Clone (job_assignment j i nid
        (of_nat (failures (ListAssignmentsForOwner KindJob (job_name j) s)) + 1) now)) (m_assignments s)"
    by (simp add: s' SaveAssignment_def)
  ultimately show ?thesis using True by auto
next
  case False
  have "job_placeable c now j s"
    if "ChooseNode (ctl_scheduler c) now (ctl_nodes mem_iface c s) (ListAssignments s)
      (job_resources j) (job_placement j) None = Inr nid" for nid
    using that by (rule ChooseNode_Inr) (auto simp: job_placeable_def)
  with False have "\<exists>st. s' = fst (UpdateJobStatus (job_name j) st s)"
    using reconcileJob_effect [OF run] by blast
  then show ?thesis using False by auto
qed

text \<open>
  Once an attempt of a job has succeeded, \<open>reconcileJob\<close> leaves all assignments alone,
  spends no random bytes, and records the success: the stored job is marked succeeded,
  with the ID and the finish time of an attempt that did succeed.
\<close>

theorem reconcileJob_success:
  assumes "wf_store s"
    and "fmlookup (m_assignments s) i = Some a" "owner_kind a = KindJob" "owner_name a = job_name j"
    and "asg_phase a = Succeeded"
  shows "\<exists>st b. reconcileJob mem_iface c now j ent s = Inr (fst (UpdateJobStatus (job_name j) st s), ent) \<and>
    job_succeeded st \<and> fmlookup (m_assignments s) (last_assignment_ID st) = Some b \<and>
    asg_phase b = Succeeded \<and> owner_name b = job_name j \<and> completed_at st = finished_at b"
proof -
  let ?as = "ListAssignmentsForOwner KindJob (job_name j) s"
  have "a \<in> set ?as"
    using assms wf_assignment [OF assms(1,2)] by (simp add: mem_listings)
  with assms(5) have "\<exists>a \<in> set ?as. asg_phase a = Succeeded" by blast
  from scan_job_Inl [OF this, of "live_ids c now s" scan_start]
  obtain st b where "scan_job (live_ids c now s) ?as scan_start = Inl st" "job_succeeded st"
      "b \<in> set ?as" "asg_phase b = Succeeded" "last_assignment_ID st = asg_ID b" "completed_at st = finished_at b"
    by blast
  then show ?thesis
    using assms(1) by (auto simp: reconcileJob_def Let_def live_ids_def mem_listings)
qed

end
