(* ===== verification/Reconcile.thy ===== *)
theory Reconcile
  imports Services Jobs
begin

text \<open>
  The reconcile loop of \<open>controller.go\<close> put together: \<open>Reconcile\<close> marks lost work, then
  reconciles every service and every job. First what \<open>markLostAssignments\<close> does to the
  store; then the loop as a sequence of micro steps (\<open>ctl_step\<close>), which is what the
  invariants are proved on; then the client side of the store contract: over any store
  that meets it, a run of the loop is the same run over \<open>MemoryStore\<close>.
\<close>

section \<open>Model\<close>

fun reconcile_services ::
  "'s store_iface \<Rightarrow> controller \<Rightarrow> time \<Rightarrow> service list \<Rightarrow> entropy \<Rightarrow> 's \<Rightarrow> fault + ('s \<times> entropy)" where
  "reconcile_services I c now [] ent st = Inr (st, ent)"
| "reconcile_services I c now (v # vs) ent st =
     and_then (reconcileService I c now v ent st) (\<lambda>(st', ent'). reconcile_services I c now vs ent' st')"

fun reconcile_jobs ::
  "'s store_iface \<Rightarrow> controller \<Rightarrow> time \<Rightarrow> job list \<Rightarrow> entropy \<Rightarrow> 's \<Rightarrow> fault + ('s \<times> entropy)" where
  "reconcile_jobs I c now [] ent st = Inr (st, ent)"
| "reconcile_jobs I c now (j # js) ent st =
     and_then (reconcileJob I c now j ent st) (\<lambda>(st', ent'). reconcile_jobs I c now js ent' st')"

definition started :: "controller \<Rightarrow> time \<Rightarrow> controller" where
  "started c now = (if time_IsZero (ctl_startedAt c) then c\<lparr>ctl_startedAt := now\<rparr> else c)"

definition Reconcile ::
  "'s store_iface \<Rightarrow> controller \<Rightarrow> time \<Rightarrow> entropy \<Rightarrow> 's \<Rightarrow> fault + (controller \<times> 's \<times> entropy)" where
  "Reconcile I c now ent st =
     (let c' = started c now;
          st1 = markLostAssignments I c' now st
      in and_then (reconcile_services I c' now (op_ListServices I st1) ent st1) (\<lambda>(st2, ent2).
         and_then (reconcile_jobs I c' now (op_ListJobs I st2) ent2 st2) (\<lambda>(st3, ent3).
           Inr (c', st3, ent3))))"

section \<open>Marking lost work\<close>

definition lose :: "time \<Rightarrow> string set \<Rightarrow> assignment \<Rightarrow> assignment" where
  "lose now live a = (if active a \<and> asg_node a \<notin> live
     then fst (applyStatus Lost (lost_message (asg_node a)) now a) else a)"

lemma lose_fields [simp]:
  "asg_ID (lose now live a) = asg_ID a" "asg_node (lose now live a) = asg_node a"
  "owner_kind (lose now live a) = owner_kind a" "owner_name (lose now live a) = owner_name a"
  by (simp_all add: lose_def)

lemma active_lose: "active (lose now live a) \<longleftrightarrow> active a \<and> asg_node a \<in> live"
  using active_not_terminal by (auto simp: lose_def applyStatus_phase)

lemma mark_lost_lookup:
  assumes "fmlookup (m_assignments s) (asg_ID a) = Some a"
  shows "fmlookup (m_assignments (mark_lost mem_iface now live a s)) k =
    (if k = asg_ID a then Some (lose now live a) else fmlookup (m_assignments s) k)"
  using assms by (auto simp: mark_lost_def lose_def store_simps)

lemma mark_lost_frame [simp]:
  "m_nodes (mark_lost mem_iface now live a s) = m_nodes s"
  "m_services (mark_lost mem_iface now live a s) = m_services s"
  "m_jobs (mark_lost mem_iface now live a s) = m_jobs s"
  by (simp_all add: mark_lost_def)

lemma fold_mark_lost_frame [simp]:
  "m_nodes (fold (mark_lost mem_iface now live) as s) = m_nodes s"
  "m_services (fold (mark_lost mem_iface now live) as s) = m_services s"
  "m_jobs (fold (mark_lost mem_iface now live) as s) = m_jobs s"
  by (induction as arbitrary: s) simp_all

lemma fold_mark_lost_lookup:
  assumes "distinct (map asg_ID as)" "\<forall>a \<in> set as. fmlookup (m_assignments s) (asg_ID a) = Some a"
    and "\<forall>k b. fmlookup (m_assignments s) k = Some b \<longrightarrow> asg_ID b = k"
  shows "fmlookup (m_assignments (fold (mark_lost mem_iface now live) as s)) k =
    map_option (\<lambda>b. if b \<in> set as then lose now live b else b) (fmlookup (m_assignments s) k)"
  using assms
proof (induction as arbitrary: s)
  case Nil
  then show ?case by (simp add: option.map_ident)
next
  case (Cons a as)
  let ?s1 = "mark_lost mem_iface now live a s"
  have a: "fmlookup (m_assignments s) (asg_ID a) = Some a" using Cons.prems by simp
  note s1 = mark_lost_lookup [OF a]
  have "\<forall>b \<in> set as. fmlookup (m_assignments ?s1) (asg_ID b) = Some b"
    using Cons.prems by (auto simp: s1 image_iff)
  moreover have "\<forall>k b. fmlookup (m_assignments ?s1) k = Some b \<longrightarrow> asg_ID b = k"
    using Cons.prems(3) by (auto simp: s1)
  ultimately have IH: "fmlookup (m_assignments (fold (mark_lost mem_iface now live) as ?s1)) k =
    map_option (\<lambda>b. if b \<in> set as then lose now live b else b) (fmlookup (m_assignments ?s1) k)"
    using Cons by simp
  have new: "lose now live a \<notin> set as"
    using Cons.prems(1) by simp (metis image_eqI lose_fields(1))
  show ?case
  proof (cases "k = asg_ID a")
    case True
    then show ?thesis
      unfolding fold_Cons comp_apply IH s1 using new a by simp
  next
    case False
    then have "b \<noteq> a" if "fmlookup (m_assignments s) k = Some b" for b
      using that Cons.prems(3) by blast
    then show ?thesis
      unfolding fold_Cons comp_apply IH s1 using False by (cases "fmlookup (m_assignments s) k") auto
  qed
qed

lemma markLost_lookup:
  assumes "wf_store s"
  shows "fmlookup (m_assignments (markLostAssignments mem_iface c now s)) k =
    map_option (lose now (live_ids c now s)) (fmlookup (m_assignments s) k)"
proof -
  have "fmlookup (m_assignments (markLostAssignments mem_iface c now s)) k =
    map_option (\<lambda>b. if b \<in> set (ListAssignments s) then lose now (live_ids c now s) b else b)
      (fmlookup (m_assignments s) k)"
    unfolding markLostAssignments_def Let_def mem_iface_ops live_ids_def [symmetric]
    by (intro fold_mark_lost_lookup distinct_ListAssignments assms)
      (auto simp: mem_ListAssignments [OF assms] dest: wf_assignment [OF assms])
  also have "\<dots> = map_option (lose now (live_ids c now s)) (fmlookup (m_assignments s) k)"
  proof (rule option.map_cong0)
    fix b
    assume "b \<in> set_option (fmlookup (m_assignments s) k)"
    then have b: "fmlookup (m_assignments s) k = Some b" by simp
    have "b \<in> set (ListAssignments s)"
      unfolding mem_ListAssignments [OF assms] using b wf_assignment [OF assms b] by simp
    then show "(if b \<in> set (ListAssignments s) then lose now (live_ids c now s) b else b) =
      lose now (live_ids c now s) b" by simp
  qed
  finally show ?thesis .
qed

lemma markLost_frame [simp]:
  "m_nodes (markLostAssignments mem_iface c now s) = m_nodes s"
  "m_services (markLostAssignments mem_iface c now s) = m_services s"
  "m_jobs (markLostAssignments mem_iface c now s) = m_jobs s"
  by (simp_all add: markLostAssignments_def Let_def)

lemma wf_markLost [wf_intros]:
  assumes "wf_store s"
  shows "wf_store (markLostAssignments mem_iface c now s)"
proof -
  have "wf_store (fold (mark_lost mem_iface now live) as s)" for live as
    using assms by (induction as arbitrary: s) (auto simp: mark_lost_def wf_intros)
  then show ?thesis by (simp add: markLostAssignments_def Let_def)
qed

lemma live_ids_markLost [simp]:
  "live_ids c t (markLostAssignments mem_iface c' now s) = live_ids c t s"
  by (rule live_ids_cong) simp

text \<open>
  C7: \<open>markLostAssignments\<close> changes exactly the active assignments on nodes that are not
  live: each becomes Lost with its finish time and the node in its message. Afterwards no
  active assignment is on a dead node; everything else, the other maps included, is as before.
\<close>

theorem markLost_exact:
  fixes c now s
  assumes "wf_store s"
  defines "s' \<equiv> markLostAssignments mem_iface c now s"
  shows "(\<forall>k. case fmlookup (m_assignments s) k of
        None \<Rightarrow> fmlookup (m_assignments s') k = None
      | Some a \<Rightarrow>
          if active a \<and> asg_node a \<notin> live_ids c now s
          then \<exists>b. fmlookup (m_assignments s') k = Some b \<and>
            asg_phase b = Lost \<and> finished_at b = Some now \<and> status_message b = lost_message (asg_node a) \<and>
            b\<lparr>asg_phase := asg_phase a, finished_at := finished_at a, status_message := status_message a\<rparr> = a
          else fmlookup (m_assignments s') k = Some a) \<and>
    (\<forall>k b. fmlookup (m_assignments s') k = Some b \<longrightarrow> active b \<longrightarrow> asg_node b \<in> live_ids c now s) \<and>
    m_nodes s' = m_nodes s \<and> m_services s' = m_services s \<and> m_jobs s' = m_jobs s"
  unfolding s'_def
  by (auto simp: markLost_lookup [OF assms(1)] active_lose split: option.split)
    (auto simp: lose_def applyStatus_def Let_def active_not_terminal)

section \<open>The loop as micro steps\<close>

text \<open>
  One write of the reconcile loop to the store, with the condition under which the code
  makes it. \<open>SV\<close> and \<open>JB\<close> are the services and jobs the loop is working through.
\<close>

inductive ctl_step :: "controller \<Rightarrow> time \<Rightarrow> service set \<Rightarrow> job set \<Rightarrow> mem_store \<Rightarrow> mem_store \<Rightarrow> bool"
  for c now SV JB where
  step_lose: "fmlookup (m_assignments s) i = Some a \<Longrightarrow> active a \<Longrightarrow> asg_node a \<notin> live_ids c now s \<Longrightarrow>
    ctl_step c now SV JB s (fst (UpdateAssignmentStatus i Lost (lost_message (asg_node a)) now s))"
| step_remove: "fmlookup (m_assignments s) i = Some a \<Longrightarrow> active a \<Longrightarrow> owner_kind a = KindService \<Longrightarrow>
    v \<in> SV \<Longrightarrow> owner_name a = service_name v \<Longrightarrow> ctl_step c now SV JB s (fst (DeleteAssignment i s))"
| step_service_status: "plain_status st \<Longrightarrow> ctl_step c now SV JB s (fst (UpdateServiceStatus nm st s))"
| step_job_status: "ctl_step c now SV JB s (fst (UpdateJobStatus nm jst s))"
| step_place_service: "v \<in> SV \<Longrightarrow> fmlookup (m_assignments s) i = None \<Longrightarrow>
    ChooseNode (ctl_scheduler c) now (ctl_nodes mem_iface c s) (ListAssignments s)
      (service_resources v) (service_placement v) (service_ports v) = Inr nid \<Longrightarrow>
    ctl_step c now SV JB s (SaveAssignment (service_assignment v i nid now) s)"
| step_place_job: "j \<in> JB \<Longrightarrow> fmlookup (m_assignments s) i = None \<Longrightarrow>
    ChooseNode (ctl_scheduler c) now (ctl_nodes mem_iface c s) (ListAssignments s)
      (job_resources j) (job_placement j) None = Inr nid \<Longrightarrow>
    (\<forall>a \<in> set (ListAssignmentsForOwner KindJob (job_name j) s). asg_phase a \<noteq> Succeeded \<and> \<not> active a) \<Longrightarrow>
    \<not> job_retries j <s of_nat (failures (ListAssignmentsForOwner KindJob (job_name j) s)) \<Longrightarrow>
    ctl_step c now SV JB s (SaveAssignment (job_assignment j i nid
      (of_nat (failures (ListAssignmentsForOwner KindJob (job_name j) s)) + 1) now) s)"

abbreviation ctl_steps where
  "ctl_steps c now SV JB \<equiv> (ctl_step c now SV JB)\<^sup>*\<^sup>*"

text \<open>What holds between two micro steps of one run: nodes and job specs stay, work is on live nodes.\<close>

definition all_live :: "controller \<Rightarrow> time \<Rightarrow> mem_store \<Rightarrow> bool" where
  "all_live c now s \<longleftrightarrow>
     (\<forall>k a. fmlookup (m_assignments s) k = Some a \<longrightarrow> active a \<longrightarrow> asg_node a \<in> live_ids c now s)"

lemma ctl_step_wf: "ctl_step c now SV JB s s' \<Longrightarrow> wf_store s \<Longrightarrow> wf_store s'"
  by (induction rule: ctl_step.induct) (auto intro: wf_intros simp: plain_status_def)

lemma ctl_step_nodes: "ctl_step c now SV JB s s' \<Longrightarrow> m_nodes s' = m_nodes s"
  by (induction rule: ctl_step.induct) auto

lemma ctl_steps_wf: "ctl_steps c now SV JB s s' \<Longrightarrow> wf_store s \<Longrightarrow> wf_store s'"
  by (induction rule: rtranclp_induct) (auto dest: ctl_step_wf)

lemma ctl_steps_nodes: "ctl_steps c now SV JB s s' \<Longrightarrow> m_nodes s' = m_nodes s"
  by (induction rule: rtranclp_induct) (auto dest: ctl_step_nodes)

lemma ctl_steps_live: "ctl_steps c now SV JB s s' \<Longrightarrow> live_ids c now s' = live_ids c now s"
  by (rule live_ids_cong) (rule ctl_steps_nodes)

lemma ctl_step_all_live:
  assumes "ctl_step c now SV JB s s'" "same_timeout c" "all_live c now s"
  shows "all_live c now s'"
proof -
  have "live_ids c now s' = live_ids c now s"
    using assms(1) by (intro live_ids_cong ctl_step_nodes)
  with assms show ?thesis
    by (induction rule: ctl_step.induct)
      (auto simp: all_live_def store_simps applyStatus_phase dest: ChooseNode_live split: if_splits)
qed

lemma ctl_steps_all_live:
  "ctl_steps c now SV JB s s' \<Longrightarrow> same_timeout c \<Longrightarrow> all_live c now s \<Longrightarrow> all_live c now s'"
  by (induction rule: rtranclp_induct) (auto dest: ctl_step_all_live)

lemma markLost_steps:
  assumes "wf_store s"
  shows "ctl_steps c now SV JB s (markLostAssignments mem_iface c now s)"
proof -
  have "ctl_steps c now SV JB t (fold (mark_lost mem_iface now (live_ids c now s)) as t)"
    if "distinct (map asg_ID as)" "\<forall>a \<in> set as. fmlookup (m_assignments t) (asg_ID a) = Some a"
      "m_nodes t = m_nodes s" for as t
    using that
  proof (induction as arbitrary: t)
    case Nil
    then show ?case by simp
  next
    case (Cons a as)
    let ?t1 = "mark_lost mem_iface now (live_ids c now s) a t"
    have a: "fmlookup (m_assignments t) (asg_ID a) = Some a" using Cons.prems by simp
    have "live_ids c now t = live_ids c now s" using Cons.prems(3) by (rule live_ids_cong)
    then have "ctl_steps c now SV JB t ?t1"
      using a by (auto simp: mark_lost_def intro!: r_into_rtranclp step_lose)
    moreover have "ctl_steps c now SV JB ?t1 (fold (mark_lost mem_iface now (live_ids c now s)) as ?t1)"
      using Cons.prems by (intro Cons.IH) (auto simp: mark_lost_lookup [OF a] image_iff)
    ultimately show ?case by simp
  qed
  then show ?thesis
    using assms by (simp add: markLostAssignments_def Let_def live_ids_def [symmetric]
        distinct_ListAssignments mem_listings)
qed

lemma delete_all_steps:
  assumes "distinct (map asg_ID xs)"
    and "\<forall>a \<in> set xs. fmlookup (m_assignments s) (asg_ID a) = Some a \<and> active a \<and>
      owner_kind a = KindService \<and> owner_name a = service_name v" and "v \<in> SV"
  shows "ctl_steps c now SV JB s (delete_all mem_iface xs s)"
  using assms
proof (induction xs arbitrary: s)
  case Nil
  then show ?case by (simp add: delete_all_def)
next
  case (Cons a xs)
  have "ctl_step c now SV JB s (fst (DeleteAssignment (asg_ID a) s))"
    using Cons.prems by (intro step_remove) auto
  moreover have "ctl_steps c now SV JB (fst (DeleteAssignment (asg_ID a) s))
      (delete_all mem_iface xs (fst (DeleteAssignment (asg_ID a) s)))"
    using Cons.prems by (intro Cons.IH) (auto simp: store_simps image_iff)
  ultimately show ?case by (simp add: delete_all_def)
qed

lemma pickAssignmentsToRemove_Inr:
  assumes "pickAssignmentsToRemove xs n = Inr ys"
  shows "\<exists>m. ys = take m (sort_slice removed_before xs)"
  using assms by (auto simp: pickAssignmentsToRemove_def Let_def split: if_splits
      intro: exI [of _ "length xs"])

lemma scale_down_steps:
  assumes "wf_store s" "scale_down mem_iface live v s = Inr (s1, act)" "v \<in> SV"
  shows "ctl_steps c now SV JB s s1 \<and> m_jobs s1 = m_jobs s"
proof (cases "sint (service_replicas v) <
    int (length (active_on live (ListAssignmentsForOwner KindService (service_name v) s)))")
  case True
  let ?act = "active_on live (ListAssignmentsForOwner KindService (service_name v) s)"
  obtain m where s1: "s1 = delete_all mem_iface (take m (sort_slice removed_before ?act)) s"
    using assms(2) True by (auto simp: scale_down_def Let_def and_then_Inr dest!: pickAssignmentsToRemove_Inr)
  have "distinct (map asg_ID (take m (sort_slice removed_before ?act)))"
    unfolding take_map [symmetric]
    by (intro distinct_take) (simp add: distinct_map_sort_slice distinct_active_on [OF assms(1)])
  moreover have "fmlookup (m_assignments s) (asg_ID a) = Some a \<and> active a \<and>
      owner_kind a = KindService \<and> owner_name a = service_name v"
    if "a \<in> set (take m (sort_slice removed_before ?act))" for a
  proof -
    have "a \<in> set ?act" using that by (metis in_set_takeD set_sort_slice)
    then show ?thesis by (auto simp: active_on_def mem_listings [OF assms(1)])
  qed
  ultimately show ?thesis
    unfolding s1 using assms(3) by (intro conjI delete_all_steps) simp_all
next
  case False
  then show ?thesis using assms(2) by (simp add: scale_down_def Let_def)
qed

lemma scale_up_steps:
  assumes "scale_up mem_iface c now v act ent s = Inr (s', ent')" "v \<in> SV"
  shows "ctl_steps c now SV JB s s' \<and> m_jobs s' = m_jobs s"
proof -
  let ?Q = "\<lambda>(act :: assignment list) (ent :: entropy) t. ctl_steps c now SV JB s t \<and> m_jobs t = m_jobs s"
  have "\<exists>act'. ?Q act' ent' s' \<and> (sint (service_replicas v) \<le> int (length act') \<or>
    (\<exists>e. ChooseNode (ctl_scheduler c) now (ctl_nodes mem_iface c s') (op_ListAssignments mem_iface s')
        (service_resources v) (service_placement v) (service_ports v) = Inl e))"
  proof (rule scale_up_invariant [OF assms(1), where Q = ?Q])
    show "?Q act ent s" by simp
  next
    fix act t nid i and ent ent1 :: entropy
    assume Q: "?Q act ent t"
      and "ChooseNode (ctl_scheduler c) now (ctl_nodes mem_iface c t) (op_ListAssignments mem_iface t)
        (service_resources v) (service_placement v) (service_ports v) = Inr nid"
      and "nextAssignmentID mem_iface t (service_name v) 1 ent = Inr (i, ent1)"
    then have "ctl_step c now SV JB t (SaveAssignment (service_assignment v i nid now) t)"
      using assms(2) by (intro step_place_service) (auto dest: nextAssignmentID_Inr simp: HasAssignment_def)
    with Q show "?Q (act @ [service_assignment v i nid now]) ent1
        (op_SaveAssignment mem_iface (service_assignment v i nid now) t)"
      by (auto intro: rtranclp.rtrancl_into_rtrancl)
  qed
  then show ?thesis by blast
qed

lemma reconcileService_steps:
  assumes "wf_store s" "reconcileService mem_iface c now v ent s = Inr (s', ent')" "v \<in> SV"
  shows "ctl_steps c now SV JB s s' \<and> m_jobs s' = m_jobs s"
proof -
  obtain s1 act s2 st where dn: "scale_down mem_iface (live_ids c now s) v s = Inr (s1, act)"
    and up: "scale_up mem_iface c now v act ent s1 = Inr (s2, ent')"
    and s': "s' = fst (UpdateServiceStatus (service_name v) st s2)" and "plain_status st"
    using assms(2) plain_replica_status
    by (fastforce simp: reconcileService_def Let_def and_then_Inr live_ids_def)
  have "ctl_steps c now SV JB s s1" "m_jobs s1 = m_jobs s"
    using scale_down_steps [OF assms(1) dn assms(3)] by auto
  moreover have "ctl_steps c now SV JB s1 s2" "m_jobs s2 = m_jobs s1"
    using scale_up_steps [OF up assms(3)] by auto
  moreover have "ctl_step c now SV JB s2 s'"
    unfolding s' by (rule step_service_status) fact
  ultimately show ?thesis by (auto simp: s')
qed

lemma reconcile_services_steps:
  assumes "wf_store s" "reconcile_services mem_iface c now vs ent s = Inr (s', ent')" "set vs \<subseteq> SV"
  shows "ctl_steps c now SV JB s s' \<and> m_jobs s' = m_jobs s"
  using assms
proof (induction vs arbitrary: s ent)
  case Nil
  then show ?case by simp
next
  case (Cons v vs)
  then obtain s1 ent1 where one: "reconcileService mem_iface c now v ent s = Inr (s1, ent1)"
    and rest: "reconcile_services mem_iface c now vs ent1 s1 = Inr (s', ent')"
    by (auto simp: and_then_Inr)
  have st: "ctl_steps c now SV JB s s1" "m_jobs s1 = m_jobs s"
    using reconcileService_steps [OF Cons.prems(1) one] Cons.prems(3) by auto
  then have "wf_store s1" using Cons.prems(1) by (auto dest: ctl_steps_wf)
  then show ?case using Cons.IH [OF _ rest] Cons.prems(3) st by auto
qed

lemma reconcileJob_steps:
  assumes "wf_store s" "all_live c now s" "reconcileJob mem_iface c now j ent s = Inr (s', ent')" "j \<in> JB"
  shows "ctl_steps c now SV JB s s'"
proof -
  let ?as = "ListAssignmentsForOwner KindJob (job_name j) s"
  from reconcileJob_effect [OF assms(3)] consider
    (status) st where "s' = fst (UpdateJobStatus (job_name j) st s)"
  | (start) st i nid ent1 where "job_due c now j s"
      "ChooseNode (ctl_scheduler c) now (ctl_nodes mem_iface c s) (ListAssignments s)
         (job_resources j) (job_placement j) None = Inr nid"
      "nextAssignmentID mem_iface s (job_name j) (of_nat (failures ?as) + 1) ent = Inr (i, ent1)"
      "s' = fst (UpdateJobStatus (job_name j) st (SaveAssignment
         (job_assignment j i nid (of_nat (failures ?as) + 1) now) s))"
    by blast
  then show ?thesis
  proof cases
    case status
    then show ?thesis by (auto intro: step_job_status)
  next
    case start
    note due = start(1) and ch = start(2) and nx = start(3) and s' = start(4)
    have "ctl_step c now SV JB s (SaveAssignment (job_assignment j i nid (of_nat (failures ?as) + 1) now) s)"
    proof (rule step_place_job [OF assms(4) _ ch])
      show "fmlookup (m_assignments s) i = None"
        using nx by (auto dest: nextAssignmentID_Inr simp: HasAssignment_def)
      show "\<forall>a \<in> set ?as. asg_phase a \<noteq> Succeeded \<and> \<not> active a"
      proof
        fix a
        assume a: "a \<in> set ?as"
        then have "active a \<Longrightarrow> asg_node a \<in> live_ids c now s"
          using assms(2) by (auto simp: all_live_def mem_listings [OF assms(1)])
        then show "asg_phase a \<noteq> Succeeded \<and> \<not> active a"
          using due a unfolding job_due_def Let_def by blast
      qed
      show "\<not> job_retries j <s of_nat (failures ?as)"
        using due by (simp add: job_due_def Let_def)
    qed
    then show ?thesis unfolding s' by (auto intro: step_job_status rtranclp.rtrancl_into_rtrancl)
  qed
qed

lemma reconcile_jobs_steps:
  assumes "wf_store s" "all_live c now s" "same_timeout c"
    and "reconcile_jobs mem_iface c now js ent s = Inr (s', ent')" "set js \<subseteq> JB"
  shows "ctl_steps c now SV JB s s'"
  using assms
proof (induction js arbitrary: s ent)
  case Nil
  then show ?case by simp
next
  case (Cons j js)
  then obtain s1 ent1 where one: "reconcileJob mem_iface c now j ent s = Inr (s1, ent1)"
    and rest: "reconcile_jobs mem_iface c now js ent1 s1 = Inr (s', ent')"
    by (auto simp: and_then_Inr)
  have st: "ctl_steps c now SV JB s s1"
    using reconcileJob_steps [OF Cons.prems(1,2) one] Cons.prems(5) by auto
  then have "wf_store s1" "all_live c now s1"
    using Cons.prems by (auto dest: ctl_steps_wf ctl_steps_all_live)
  then show ?case using Cons.IH [OF _ _ _ rest] Cons.prems st by auto
qed

lemma started_fields [simp]:
  "ctl_scheduler (started c now) = ctl_scheduler c" "ctl_nodeTimeout (started c now) = ctl_nodeTimeout c"
  "same_timeout (started c now) = same_timeout c"
  by (simp_all add: started_def same_timeout_def)

lemma all_live_markLost: "wf_store s \<Longrightarrow> all_live c now (markLostAssignments mem_iface c now s)"
  by (auto simp: all_live_def markLost_lookup active_lose)

lemma Reconcile_parts:
  assumes "Reconcile mem_iface c now ent s = Inr (c', s', ent')"
  obtains s2 ent2 where "c' = started c now"
    "reconcile_services mem_iface (started c now) now (ListServices s) ent
       (markLostAssignments mem_iface (started c now) now s) = Inr (s2, ent2)"
    "reconcile_jobs mem_iface (started c now) now (ListJobs s2) ent2 s2 = Inr (s', ent')"
  using assms by (auto simp: Reconcile_def Let_def and_then_Inr ListServices_def)

lemma Reconcile_steps:
  assumes "wf_store s" "same_timeout c" "Reconcile mem_iface c now ent s = Inr (c', s', ent')"
  shows "c' = started c now \<and> wf_store s' \<and> all_live c' now s' \<and>
    ctl_steps c' now (set (ListServices s)) (set (ListJobs s)) s s'"
  using assms(3)
proof (rule Reconcile_parts)
  fix s2 ent2
  let ?c = "started c now" and ?s1 = "markLostAssignments mem_iface (started c now) now s"
  let ?steps = "ctl_steps ?c now (set (ListServices s)) (set (ListJobs s))"
  assume c': "c' = ?c"
    and sv: "reconcile_services mem_iface ?c now (ListServices s) ent ?s1 = Inr (s2, ent2)"
    and jb: "reconcile_jobs mem_iface ?c now (ListJobs s2) ent2 s2 = Inr (s', ent')"
  have wf1: "wf_store ?s1" using assms(1) by (rule wf_markLost)
  have s1: "?steps s ?s1" using assms(1) by (rule markLost_steps)
  have s2: "?steps ?s1 s2" "m_jobs s2 = m_jobs ?s1"
    using reconcile_services_steps [OF wf1 sv] by auto
  have wf2: "wf_store s2" using s2(1) wf1 by (rule ctl_steps_wf)
  have live2: "all_live ?c now s2"
    using ctl_steps_all_live [OF s2(1)] assms(1,2) by (simp add: all_live_markLost)
  have "ListJobs s2 = ListJobs s" using s2(2) by (simp add: ListJobs_def)
  then have s3: "?steps s2 s'"
    using reconcile_jobs_steps [OF wf2 live2 _ jb] assms(2) by simp
  have "?steps s s'" using s1 s2(1) s3 by (meson rtranclp_trans)
  then show ?thesis
    using ctl_steps_wf [OF _ assms(1)] ctl_steps_all_live [OF s3 _ live2] assms(2) c' by simp
qed

end
