(* ===== verification/Rfc3339.thy ===== *)
theory Rfc3339
  imports Go_Strings
begin

text \<open>
  How \<open>encoding/json\<close> writes and reads a \<open>time.Time\<close>: RFC 3339 with up to nine digits of
  fraction, the zone \<open>Z\<close> on output, \<open>Z\<close> or an offset on input. The location of a time is not
  part of the model, so output is always in UTC, as the program's own times are. The theorem
  is the round trip for every instant of the years 0 to 9999, the range \<open>MarshalJSON\<close>
  accepts.
\<close>

section \<open>Decimal fields\<close>

definition digit :: "nat \<Rightarrow> char" where
  "digit n = char_of (48 + n)"

definition is_digit :: "char \<Rightarrow> bool" where
  "is_digit c \<longleftrightarrow> (let n = of_char c :: nat in 48 \<le> n \<and> n \<le> 57)"

definition digit_val :: "char \<Rightarrow> nat" where
  "digit_val c = of_char c - 48"

fun pad :: "nat \<Rightarrow> nat \<Rightarrow> string" where
  "pad 0 n = []"
| "pad (Suc w) n = pad w (n div 10) @ [digit (n mod 10)]"

definition digits_val :: "string \<Rightarrow> nat" where
  "digits_val s = foldl (\<lambda>acc c. acc * 10 + digit_val c) 0 s"

definition num :: "string \<Rightarrow> nat option" where
  "num s = (if s \<noteq> [] \<and> list_all is_digit s then Some (digits_val s) else None)"

section \<open>Dates\<close>

definition leap :: "int \<Rightarrow> bool" where
  "leap y \<longleftrightarrow> y mod 4 = 0 \<and> (y mod 100 \<noteq> 0 \<or> y mod 400 = 0)"

text \<open>Days from January 1 of year 1 to January 1 of year \<open>y\<close>, and days in the year before a month.\<close>

definition year_start :: "int \<Rightarrow> int" where
  "year_start y = 365 * (y - 1) + (y - 1) div 4 - (y - 1) div 100 + (y - 1) div 400"

definition month_start :: "bool \<Rightarrow> nat \<Rightarrow> int" where
  "month_start lp m = [0, 31, 59, 90, 120, 151, 181, 212, 243, 273, 304, 334, 365] ! (m - 1) +
     (if lp \<and> 2 < m then 1 else 0)"

lemma div_succ:
  fixes z n :: int
  assumes "0 < n"
  shows "(z + 1) div n = z div n + (if (z + 1) mod n = 0 then 1 else 0)"
proof -
  let ?k = "(z + 1) div n" and ?r = "(z + 1) mod n"
  have eq: "z + 1 = n * ?k + ?r" by simp
  have r: "0 \<le> ?r" "?r < n" using assms by simp_all
  show ?thesis
  proof (cases "?r = 0")
    case True
    then have "z = n * (?k - 1) + (n - 1)" using eq by (simp add: right_diff_distrib)
    then have "z div n = ?k - 1" using assms by (intro int_div_pos_eq [where r = "n - 1"]) auto
    with True show ?thesis by simp
  next
    case False
    then have "z = n * ?k + (?r - 1)" "0 \<le> ?r - 1" "?r - 1 < n" using eq r by linarith+
    then have "z div n = ?k" by (rule int_div_pos_eq)
    with False show ?thesis by simp
  qed
qed

lemma year_start_Suc: "year_start (y + 1) = year_start y + (if leap y then 366 else 365)"
proof -
  have "y mod 400 = 0 \<Longrightarrow> y mod 100 = 0" "y mod 100 = 0 \<Longrightarrow> y mod 4 = 0"
    using mod_mod_cancel [of 100 400 y] mod_mod_cancel [of 4 100 y] by auto
  then have count: "(if y mod 4 = 0 then 1 else 0) - (if y mod 100 = 0 then 1 else 0) +
      (if y mod 400 = 0 then 1 else 0) = (if leap y then 1 else (0 :: int))"
    unfolding leap_def by (cases "y mod 4 = 0"; cases "y mod 100 = 0"; cases "y mod 400 = 0"; simp only: simp_thms if_True if_False)
  have year: "year_start y = 365 * (y - 1) + a - b + c"
    if "a = (y - 1) div 4" "b = (y - 1) div 100" "c = (y - 1) div 400" for a b c
    using that by (simp only: year_start_def)
  have "year_start (y + 1) = 365 * y + y div 4 - y div 100 + y div 400"
    by (simp only: year_start_def add_diff_cancel_right')
  also have "y div 4 = (y - 1) div 4 + (if y mod 4 = 0 then 1 else 0)"
    using div_succ [of 4 "y - 1"] by (simp only: diff_add_cancel zero_less_numeral)
  also have "y div 100 = (y - 1) div 100 + (if y mod 100 = 0 then 1 else 0)"
    using div_succ [of 100 "y - 1"] by (simp only: diff_add_cancel zero_less_numeral)
  also have "y div 400 = (y - 1) div 400 + (if y mod 400 = 0 then 1 else 0)"
    using div_succ [of 400 "y - 1"] by (simp only: diff_add_cancel zero_less_numeral)
  finally have nxt: "year_start (y + 1) = 365 * y + ((y - 1) div 4 + (if y mod 4 = 0 then 1 else 0)) -
      ((y - 1) div 100 + (if y mod 100 = 0 then 1 else 0)) +
      ((y - 1) div 400 + (if y mod 400 = 0 then 1 else 0))" .
  have arith: "u = v + (e + 365)"
    if "u = 365 * y + (a + p) - (b + q) + (c + r)" "v = 365 * (y - 1) + a - b + c" "p - q + r = e"
    for u v a b c p q r e :: int
  proof -
    have "v = 365 * y - 365 + a - b + c" using that(2) by (simp only: right_diff_distrib mult_1_right)
    then show ?thesis using that(1,3) by linarith
  qed
  show ?thesis
    using arith [OF nxt year [OF refl refl refl] count] by simp
qed

function year_from :: "int \<Rightarrow> int \<Rightarrow> int" where
  "year_from y d = (if year_start (y + 1) \<le> d then year_from (y + 1) d else y)"
  by pat_completeness auto

termination
  by (relation "measure (\<lambda>(y, d). nat (d - year_start y))") (auto simp: year_start_Suc split: if_splits)

declare year_from.simps [simp del]

definition year_of :: "int \<Rightarrow> int" where
  "year_of d = year_from (d div 366 + 1) d"

definition month_of :: "bool \<Rightarrow> int \<Rightarrow> nat" where
  "month_of lp doy = length (filter (\<lambda>m. month_start lp m \<le> doy) [1..<13])"

section \<open>Instants\<close>

definition rfc3339_ok :: "time \<Rightarrow> bool" where
  "rfc3339_ok t \<longleftrightarrow> (let y = year_of (t div 86400000000000) in 0 \<le> y \<and> y \<le> 9999)"

definition strip_zeros :: "string \<Rightarrow> string" where
  "strip_zeros s = rev (dropWhile (\<lambda>c. c = CHR ''0'') (rev s))"

definition show_frac :: "nat \<Rightarrow> string" where
  "show_frac ns = (if ns = 0 then [] else CHR ''.'' # strip_zeros (pad 9 ns))"

definition show_rfc3339 :: "time \<Rightarrow> string" where
  "show_rfc3339 t =
     (let day = t div 86400000000000;
          rest = nat (t mod 86400000000000);
          y = year_of day;
          doy = day - year_start y;
          m = month_of (leap y) doy;
          sec = rest div 1000000000
      in pad 4 (nat y) @ ''-'' @ pad 2 m @ ''-'' @ pad 2 (nat (doy - month_start (leap y) m + 1)) @ ''T'' @
         pad 2 (sec div 3600) @ '':'' @ pad 2 (sec div 60 mod 60) @ '':'' @ pad 2 (sec mod 60) @
         show_frac (rest mod 1000000000) @ ''Z'')"

text \<open>A fraction is optional; digits after the ninth are dropped.\<close>

definition parse_frac :: "string \<Rightarrow> nat \<times> string" where
  "parse_frac s =
     (if 2 \<le> length s \<and> s ! 0 = CHR ''.'' \<and> is_digit (s ! 1)
      then
        let ds = take 9 (takeWhile is_digit (tl s))
        in (digits_val (ds @ replicate (9 - length ds) (CHR ''0'')), dropWhile is_digit (tl s))
      else (0, s))"

text \<open>The offset of the zone in seconds.\<close>

definition parse_zone :: "string \<Rightarrow> int option" where
  "parse_zone s =
     (if s = ''Z'' then Some 0
      else if length s = 6 \<and> (s ! 0 = CHR ''+'' \<or> s ! 0 = CHR ''-'') \<and> s ! 3 = CHR '':''
      then case (num (take 2 (drop 1 s)), num (take 2 (drop 4 s))) of
             (Some h, Some m) \<Rightarrow>
               if h \<le> 23 \<and> m \<le> 59 then Some ((if s ! 0 = CHR ''-'' then - 1 else 1) * (int h * 3600 + int m * 60))
               else None
           | _ \<Rightarrow> None
      else None)"

definition parse_rfc3339 :: "string \<Rightarrow> time option" where
  "parse_rfc3339 s =
     (if 19 \<le> length s \<and> s ! 4 = CHR ''-'' \<and> s ! 7 = CHR ''-'' \<and> s ! 10 = CHR ''T'' \<and>
         s ! 13 = CHR '':'' \<and> s ! 16 = CHR '':'' then
        case (num (take 4 s), num (take 2 (drop 5 s)), num (take 2 (drop 8 s)),
              num (take 2 (drop 11 s)), num (take 2 (drop 14 s)), num (take 2 (drop 17 s))) of
          (Some y, Some m, Some d, Some hh, Some mm, Some ss) \<Rightarrow>
            let lp = leap (int y); (ns, rest) = parse_frac (drop 19 s) in
            if 1 \<le> m \<and> m \<le> 12 \<and> 1 \<le> d \<and> int d \<le> month_start lp (m + 1) - month_start lp m \<and>
               hh \<le> 23 \<and> mm \<le> 59 \<and> ss \<le> 59
            then map_option (\<lambda>off.
              ((year_start (int y) + month_start lp m + int d - 1) * 86400 +
                int hh * 3600 + int mm * 60 + int ss - off) * 1000000000 + int ns) (parse_zone rest)
            else None
        | _ \<Rightarrow> None
      else None)"

section \<open>Lemmas\<close>

lemma length_pad [simp]: "length (pad w n) = w"
  by (induction w arbitrary: n) simp_all

lemma digit_val_digit [simp]: "n < 10 \<Longrightarrow> digit_val (digit n) = n"
  by (simp add: digit_val_def digit_def)

lemma is_digit_digit [simp]: "n < 10 \<Longrightarrow> is_digit (digit n)"
  by (simp add: is_digit_def digit_def)

lemma all_digits_pad [simp]: "list_all is_digit (pad w n)"
  by (induction w arbitrary: n) simp_all

lemma digits_val_pad: "n < 10 ^ w \<Longrightarrow> digits_val (pad w n) = n"
  by (induction w arbitrary: n) (simp_all add: digits_val_def)

lemma num_pad: "n < 10 ^ w \<Longrightarrow> 0 < w \<Longrightarrow> num (pad w n) = Some n"
  by (cases w) (simp_all add: num_def digits_val_pad del: pad.simps,
      metis length_pad list.size(3) nat.distinct(1))

lemma year_from_bounds:
  "year_start y \<le> d \<Longrightarrow> year_start (year_from y d) \<le> d \<and> d < year_start (year_from y d + 1)"
proof (induction y d rule: year_from.induct)
  case (1 y d)
  then show ?case by (subst (1 2) year_from.simps) auto
qed

lemma year_of_bounds:
  assumes "- 366 \<le> d"
  shows "year_start (year_of d) \<le> d \<and> d < year_start (year_of d + 1)"
proof -
  let ?q = "d div 366"
  have "year_start (?q + 1) \<le> 366 * ?q"
  proof (cases "0 \<le> ?q")
    case True
    then have "?q div 4 \<le> ?q" "?q div 400 \<le> ?q div 100" by (auto intro: zdiv_mono2)
    then show ?thesis by (simp add: year_start_def)
  next
    case False
    then have "?q = - 1" using assms by linarith
    then show ?thesis by (simp add: year_start_def)
  qed
  also have "\<dots> \<le> d" by simp
  finally have "year_start (?q + 1) \<le> d" .
  then show ?thesis unfolding year_of_def by (rule year_from_bounds)
qed

lemma year_from_neg: "y < 0 \<Longrightarrow> d < - 366 \<Longrightarrow> year_from y d < 0"
proof (induction y d rule: year_from.induct)
  case (1 y d)
  have "y + 1 \<noteq> 0" if "year_start (y + 1) \<le> d"
    using that 1(3) by (auto simp: year_start_def)
  with 1 show ?case by (subst year_from.simps) auto
qed

lemma year_of_lower: "0 \<le> year_of d \<Longrightarrow> - 366 \<le> d"
proof (rule ccontr)
  assume "0 \<le> year_of d" "\<not> - 366 \<le> d"
  moreover have "d div 366 + 1 < 0" using calculation(2) by linarith
  ultimately show False using year_from_neg [of "d div 366 + 1" d] by (simp add: year_of_def)
qed

lemma month_table:
  "month_start lp 1 = 0" "month_start lp 2 = 31" "month_start lp 3 = 59 + (if lp then 1 else 0)"
  "month_start lp 4 = 90 + (if lp then 1 else 0)" "month_start lp 5 = 120 + (if lp then 1 else 0)"
  "month_start lp 6 = 151 + (if lp then 1 else 0)" "month_start lp 7 = 181 + (if lp then 1 else 0)"
  "month_start lp 8 = 212 + (if lp then 1 else 0)" "month_start lp 9 = 243 + (if lp then 1 else 0)"
  "month_start lp 10 = 273 + (if lp then 1 else 0)" "month_start lp 11 = 304 + (if lp then 1 else 0)"
  "month_start lp 12 = 334 + (if lp then 1 else 0)" "month_start lp 13 = 365 + (if lp then 1 else 0)"
  by (simp_all add: month_start_def)

lemma month_of_eq:
  assumes "1 \<le> m" "m \<le> 12" "month_start lp m \<le> doy" "doy < month_start lp (m + 1)"
  shows "month_of lp doy = m"
proof -
  have mono: "month_start lp i \<le> month_start lp j" if "1 \<le> i" "i \<le> j" "j \<le> 13" for i j
    using that(2,1,3)
  proof (induction j rule: dec_induct)
    case base
    then show ?case by simp
  next
    case (step k)
    have "\<forall>lp \<in> set [True, False]. \<forall>k \<in> set [1..<13]. month_start lp k \<le> month_start lp (Suc k)"
      by code_simp
    moreover have "k \<in> set [1..<13]" "lp \<in> set [True, False]" using step by auto
    ultimately have "month_start lp k \<le> month_start lp (Suc k)" by blast
    with step show ?case by simp
  qed
  have "filter (\<lambda>k. month_start lp k \<le> doy) [1..<13] = filter (\<lambda>k. k \<le> m) [1..<13]"
  proof (rule filter_cong [OF refl])
    fix k :: nat
    assume "k \<in> set [1..<13]"
    then show "month_start lp k \<le> doy \<longleftrightarrow> k \<le> m"
      using mono [of k m] mono [of "m + 1" k] assms by (cases "k \<le> m") auto
  qed
  also have "\<dots> = filter (\<lambda>k. k \<le> m) ([1..<Suc m] @ [Suc m..<13])"
    using assms upt_add_eq_append [of 1 "Suc m" "12 - m"] by simp
  also have "\<dots> = [1..<Suc m]"
    by (simp add: filter_empty_conv filter_id_conv del: upt_Suc)
  finally have "filter (\<lambda>k. month_start lp k \<le> doy) [1..<13] = [1..<Suc m]" .
  then show ?thesis unfolding month_of_def by (simp only: length_upt diff_Suc_1 One_nat_def)
qed

lemma month_of_bounds:
  assumes "0 \<le> doy" "doy < (if lp then 366 else 365)"
  shows "1 \<le> month_of lp doy \<and> month_of lp doy \<le> 12 \<and> month_start lp (month_of lp doy) \<le> doy \<and>
    doy < month_start lp (month_of lp doy + 1)"
proof -
  have "\<exists>m. 1 \<le> m \<and> m \<le> 12 \<and> month_start lp m \<le> doy \<and> doy < month_start lp (m + 1)"
  proof (rule ccontr)
    assume none: "\<nexists>m. 1 \<le> m \<and> m \<le> 12 \<and> month_start lp m \<le> doy \<and> doy < month_start lp (m + 1)"
    have "1 \<le> m \<Longrightarrow> m \<le> 13 \<Longrightarrow> month_start lp m \<le> doy" for m
    proof (induction m rule: dec_induct [of 1, consumes 1])
      case base
      then show ?case using assms(1) by (simp add: month_table [unfolded One_nat_def])
    next
      case (step m)
      then show ?case using none by (metis Suc_eq_plus1 Suc_le_mono eval_nat_numeral(3) le_SucI not_le)
    qed
    from this [of 13] show False using assms(2) by (simp add: month_table split: if_splits)
  qed
  then show ?thesis using month_of_eq by metis
qed

lemma month_length: "1 \<le> m \<Longrightarrow> m \<le> 12 \<Longrightarrow> month_start lp (m + 1) - month_start lp m \<le> 31"
proof -
  assume "1 \<le> m" "m \<le> 12"
  moreover have "\<forall>lp \<in> set [True, False]. \<forall>k \<in> set [1..<13]. month_start lp (k + 1) - month_start lp k \<le> 31"
    by code_simp
  moreover have "m \<in> set [1..<13]" "lp \<in> set [True, False]" using calculation by auto
  ultimately show ?thesis by blast
qed

lemma strip_zeros_pad: "strip_zeros s @ replicate (length s - length (strip_zeros s)) (CHR ''0'') = s"
proof -
  let ?z = "takeWhile (\<lambda>c. c = CHR ''0'') (rev s)" and ?d = "dropWhile (\<lambda>c. c = CHR ''0'') (rev s)"
  have split: "rev s = ?z @ ?d" by simp
  then have "s = rev ?d @ rev ?z" by (metis rev_append rev_rev_ident)
  moreover have "rev ?z = replicate (length ?z) (CHR ''0'')"
    by (rule replicate_eqI) (auto dest: set_takeWhileD)
  moreover have "length ?z = length s - length ?d"
    using arg_cong [OF split, of length] unfolding length_append length_rev by linarith
  ultimately show ?thesis unfolding strip_zeros_def length_rev by metis
qed

lemma parse_show_frac:
  assumes "ns < 1000000000"
  shows "parse_frac (show_frac ns @ ''Z'') = (ns, ''Z'')"
proof (cases "ns = 0")
  case True
  then show ?thesis by (simp add: show_frac_def parse_frac_def)
next
  case False
  let ?p = "pad 9 ns"
  let ?s = "strip_zeros ?p"
  have val: "digits_val ?p = ns" using assms by (intro digits_val_pad) simp
  note sp = strip_zeros_pad [of ?p, unfolded length_pad]
  have dg: "list_all is_digit ?s"
    using all_digits_pad [of 9 ns] sp by (metis list_all_append)
  have len: "length ?s \<le> 9"
    using sp by (metis length_append length_pad le_add1)
  have "?s \<noteq> []"
  proof
    assume "?s = []"
    then have "ns = digits_val (replicate 9 (CHR ''0''))" using sp val by simp
    then show False using False by (simp add: digits_val_def digit_val_def numeral_eq_Suc)
  qed
  then obtain c cs where s: "?s = c # cs" by (cases ?s) auto
  have "takeWhile is_digit (?s @ ''Z'') = ?s" "dropWhile is_digit (?s @ ''Z'') = ''Z''"
    using dg by (simp_all add: list_all_iff takeWhile_append2 dropWhile_append2 is_digit_def)
  moreover have "is_digit c" using dg s by simp
  ultimately show ?thesis
    using False len sp val s by (simp add: show_frac_def parse_frac_def)
qed

lemma parse_fields:
  assumes "Y < 10000" "1 \<le> m" "m \<le> 12" "1 \<le> d" "d < 100" "hh \<le> 23" "mm \<le> 59" "ss \<le> 59"
    and "int d \<le> month_start (leap (int Y)) (m + 1) - month_start (leap (int Y)) m"
    and "ns < 1000000000"
  shows "parse_rfc3339 (pad 4 Y @ ''-'' @ pad 2 m @ ''-'' @ pad 2 d @ ''T'' @ pad 2 hh @ '':'' @
      pad 2 mm @ '':'' @ pad 2 ss @ show_frac ns @ ''Z'') =
    Some (((year_start (int Y) + month_start (leap (int Y)) m + int d - 1) * 86400 +
      int hh * 3600 + int mm * 60 + int ss) * 1000000000 + int ns)"
proof -
  have n: "num (pad 4 Y) = Some Y" "num (pad 2 m) = Some m" "num (pad 2 d) = Some d"
    "num (pad 2 hh) = Some hh" "num (pad 2 mm) = Some mm" "num (pad 2 ss) = Some ss"
    using assms by (simp_all add: num_pad)
  let ?s = "pad 4 Y @ ''-'' @ pad 2 m @ ''-'' @ pad 2 d @ ''T'' @ pad 2 hh @ '':'' @
      pad 2 mm @ '':'' @ pad 2 ss @ show_frac ns @ ''Z''"
  have f: "take 4 ?s = pad 4 Y" "take 2 (drop 5 ?s) = pad 2 m" "take 2 (drop 8 ?s) = pad 2 d"
    "take 2 (drop 11 ?s) = pad 2 hh" "take 2 (drop 14 ?s) = pad 2 mm" "take 2 (drop 17 ?s) = pad 2 ss"
    "drop 19 ?s = show_frac ns @ ''Z''" "19 \<le> length ?s"
    "?s ! 4 = CHR ''-''" "?s ! 7 = CHR ''-''" "?s ! 10 = CHR ''T''" "?s ! 13 = CHR '':''" "?s ! 16 = CHR '':''"
    by (simp_all add: nth_append)
  show ?thesis
    unfolding parse_rfc3339_def f n parse_show_frac [OF assms(10)] Let_def
    using assms by (simp add: parse_zone_def)
qed

lemma clock:
  fixes s :: nat and D :: int
  shows "D + int (s div 3600) * 3600 + int (s div 60 mod 60) * 60 + int (s mod 60) = D + int s"
proof -
  have "s div 3600 = s div 60 div 60" by (simp add: div_mult2_eq [symmetric])
  moreover have "s div 60 = s div 60 div 60 * 60 + s div 60 mod 60" "s = s div 60 * 60 + s mod 60"
    by simp_all
  ultimately have "int s = int (s div 3600) * 3600 + int (s div 60 mod 60) * 60 + int (s mod 60)"
    by linarith
  then show ?thesis by simp
qed

text \<open>
  Times survive JSON: the text \<open>MarshalJSON\<close> writes for an instant of the years 0 to 9999,
  leap years, month ends and nanoseconds included, is read back as the same instant.
\<close>

lemma rfc3339_roundtrip:
  assumes "rfc3339_ok t"
  shows "parse_rfc3339 (show_rfc3339 t) = Some t"
proof -
  let ?day = "t div 86400000000000" and ?rest = "nat (t mod 86400000000000)"
  let ?y = "year_of ?day"
  let ?doy = "?day - year_start ?y" and ?lp = "leap ?y"
  let ?m = "month_of ?lp ?doy" and ?sec = "?rest div 1000000000"
  let ?d = "nat (?doy - month_start ?lp ?m + 1)"
  have y: "0 \<le> ?y" "?y \<le> 9999" using assms by (simp_all add: rfc3339_ok_def Let_def)
  have day: "year_start ?y \<le> ?day" "?day < year_start (?y + 1)"
    using year_of_bounds [OF year_of_lower [OF y(1)]] by auto
  then have "0 \<le> ?doy" "?doy < (if ?lp then 366 else 365)" by (auto simp: year_start_Suc split: if_splits)
  note m = month_of_bounds [OF this]
  have len: "month_start ?lp (?m + 1) - month_start ?lp ?m \<le> 31"
    using month_length m by blast
  have rest: "?rest < 86400000000000" by (simp add: nat_less_iff)
  have "parse_rfc3339 (show_rfc3339 t) =
    Some (((year_start (int (nat ?y)) + month_start (leap (int (nat ?y))) ?m + int ?d - 1) * 86400 +
      int (?sec div 3600) * 3600 + int (?sec div 60 mod 60) * 60 + int (?sec mod 60)) * 1000000000 +
      int (?rest mod 1000000000))"
    unfolding show_rfc3339_def Let_def
  proof (rule parse_fields)
    show "?sec div 3600 \<le> 23" using rest by linarith
    show "?sec div 60 mod 60 \<le> 59" "?sec mod 60 \<le> 59" "?rest mod 1000000000 < 1000000000" by simp_all
    show "nat ?y < 10000" using y by simp
    show "1 \<le> ?m" "?m \<le> 12" using m by simp_all
    have "1 \<le> ?doy - month_start ?lp ?m + 1" "?doy - month_start ?lp ?m + 1 \<le> 31"
      using m len by linarith+
    then show "1 \<le> ?d" "?d < 100" by linarith+
    show "int ?d \<le> month_start (leap (int (nat ?y))) (?m + 1) - month_start (leap (int (nat ?y))) ?m"
      using m y by simp
  qed
  also have "year_start (int (nat ?y)) + month_start (leap (int (nat ?y))) ?m + int ?d - 1 = ?day"
    using y m by simp
  also note clock
  also have "(?day * 86400 + int ?sec) * 1000000000 + int (?rest mod 1000000000) =
      ?day * 86400000000000 + (int ?sec * 1000000000 + int (?rest mod 1000000000))"
    by (simp add: algebra_simps)
  also have "\<dots> = t"
  proof -
    have "?sec * 1000000000 + ?rest mod 1000000000 = ?rest" by (rule div_mult_mod_eq)
    then have "int ?sec * 1000000000 + int (?rest mod 1000000000) = int ?rest" by linarith
    also have "int ?rest = t mod 86400000000000" by simp
    finally show ?thesis by (simp only: div_mult_mod_eq)
  qed
  finally show ?thesis .
qed

end
