(* ===== verification/Json.thy ===== *)
theory Json
  imports Api Rfc3339
begin

text \<open>
  The JSON form of the API's records, as \<open>encoding/json\<close> derives it from the struct tags of
  \<open>internal/api/types.go\<close>: field names and order, \<open>omitempty\<close>, nil slices and maps, and what
  decoding does with \<open>null\<close>, unknown and repeated keys. A JSON value is a syntax tree; its text
  (quoting, white space) is not modelled, and strings are taken to be valid UTF-8. Decoding goes
  into an existing value, as \<open>Unmarshal\<close> does, and any error makes the whole result \<open>None\<close>.
  The theorem: encoding and decoding a record gives exactly its \<open>Clone\<close>.
\<close>

section \<open>Values\<close>

datatype json =
    JNull | JBool bool | JNum string | JStr string | JArr "json list" | JObj "(string \<times> json) list"

text \<open>A number is its literal; an \<open>int\<close> accepts only plain integers in range.\<close>

definition parse_int :: "string \<Rightarrow> goint option" where
  "parse_int s =
     (let (neg, ds) = (case s of c # cs \<Rightarrow> if c = CHR ''-'' then (True, cs) else (False, s) | [] \<Rightarrow> (False, s))
      in case num ds of
           None \<Rightarrow> None
         | Some n \<Rightarrow>
             let i = (if neg then - int n else int n)
             in if - (2 ^ 63) \<le> i \<and> i < 2 ^ 63 then Some (word_of_int i) else None)"

section \<open>Encoding\<close>

definition enc_int :: "goint \<Rightarrow> json" where
  "enc_int w = JNum (show_int (sint w))"

definition enc_time :: "time \<Rightarrow> json" where
  "enc_time t = JStr (show_rfc3339 t)"

definition enc_map :: "strmap \<Rightarrow> json" where
  "enc_map m = (case m of
     None \<Rightarrow> JNull | Some f \<Rightarrow> JObj (map (\<lambda>(k, v). (k, JStr v)) (sorted_list_of_fmap f)))"

definition enc_slice :: "('a \<Rightarrow> json) \<Rightarrow> 'a slice \<Rightarrow> json" where
  "enc_slice f xs = (case xs of None \<Rightarrow> JNull | Some ys \<Rightarrow> JArr (map f ys))"

definition enc_ptr :: "('a \<Rightarrow> json) \<Rightarrow> 'a option \<Rightarrow> json" where
  "enc_ptr f x = (case x of None \<Rightarrow> JNull | Some y \<Rightarrow> f y)"

text \<open>A field with \<open>omitempty\<close> is left out when its value is empty.\<close>

definition unless_empty :: "bool \<Rightarrow> string \<Rightarrow> json \<Rightarrow> (string \<times> json) list" where
  "unless_empty emp k j = (if emp then [] else [(k, j)])"

definition enc_resources :: "resource_requirements \<Rightarrow> json" where
  "enc_resources r = JObj [(''cpu'', enc_int (res_CPU r)), (''memory'', enc_int (res_Memory r))]"

definition enc_placement :: "placement \<Rightarrow> json" where
  "enc_placement p = JObj (unless_empty (entries (required_labels p) = fmempty) ''requiredLabels''
     (enc_map (required_labels p)))"

definition enc_volume :: "volume \<Rightarrow> json" where
  "enc_volume v = JObj [(''name'', JStr (vol_name v)), (''hostPath'', JStr (host_path v)),
     (''mountPath'', JStr (mount_path v))]"

definition enc_node :: "node \<Rightarrow> json" where
  "enc_node n = JObj ([(''id'', JStr (node_ID n))] @
     unless_empty (entries (node_labels n) = fmempty) ''labels'' (enc_map (node_labels n)) @
     [(''capacity'', enc_resources (node_capacity n)), (''lastHeartbeat'', enc_time (last_heartbeat n))])"

definition enc_service_status :: "service_status \<Rightarrow> json" where
  "enc_service_status st = JObj ([
     (''desiredReplicas'', enc_int (desired_replicas st)),
     (''pendingReplicas'', enc_int (pending_replicas st)),
     (''runningReplicas'', enc_int (running_replicas st))] @
     unless_empty (elems (assignment_IDs st) = []) ''assignmentIds'' (enc_slice JStr (assignment_IDs st)) @
     [(''lastReconciledUnix'', enc_int (last_reconciled_unix st))])"

definition enc_service :: "service \<Rightarrow> json" where
  "enc_service v = JObj ([
     (''name'', JStr (service_name v)),
     (''image'', JStr (service_image v))] @
     unless_empty (elems (service_command v) = []) ''command'' (enc_slice JStr (service_command v)) @
     unless_empty (entries (service_env v) = fmempty) ''env'' (enc_map (service_env v)) @ [
     (''replicas'', enc_int (service_replicas v)),
     (''resources'', enc_resources (service_resources v)),
     (''placement'', enc_placement (service_placement v))] @
     unless_empty (elems (service_volumes v) = []) ''volumes'' (enc_slice enc_volume (service_volumes v)) @
     unless_empty (elems (service_ports v) = []) ''ports'' (enc_slice enc_int (service_ports v)) @ [
     (''status'', enc_service_status (service_st v))])"

definition enc_job_status :: "job_status \<Rightarrow> json" where
  "enc_job_status st = JObj (
     unless_empty (active_assignment_ID st = []) ''activeAssignmentId'' (JStr (active_assignment_ID st)) @
     unless_empty (last_assignment_ID st = []) ''lastAssignmentId'' (JStr (last_assignment_ID st)) @ [
     (''succeeded'', JBool (job_succeeded st)),
     (''failedAttempts'', enc_int (failed_attempts st))] @
     unless_empty (last_failure st = []) ''lastFailure'' (JStr (last_failure st)) @
     unless_empty (completed_at st = None) ''completedAt'' (enc_ptr enc_time (completed_at st)))"

definition enc_job :: "job \<Rightarrow> json" where
  "enc_job j = JObj ([
     (''name'', JStr (job_name j)),
     (''image'', JStr (job_image j))] @
     unless_empty (elems (job_command j) = []) ''command'' (enc_slice JStr (job_command j)) @
     unless_empty (entries (job_env j) = fmempty) ''env'' (enc_map (job_env j)) @ [
     (''resources'', enc_resources (job_resources j)),
     (''placement'', enc_placement (job_placement j))] @
     unless_empty (elems (job_volumes j) = []) ''volumes'' (enc_slice enc_volume (job_volumes j)) @ [
     (''retries'', enc_int (job_retries j)),
     (''status'', enc_job_status (job_st j))])"

definition enc_assignment :: "assignment \<Rightarrow> json" where
  "enc_assignment a = JObj ([
     (''id'', JStr (asg_ID a)),
     (''ownerKind'', JStr (kind_string (owner_kind a))),
     (''ownerName'', JStr (owner_name a)),
     (''nodeId'', JStr (asg_node a)),
     (''image'', JStr (asg_image a))] @
     unless_empty (elems (asg_command a) = []) ''command'' (enc_slice JStr (asg_command a)) @
     unless_empty (entries (asg_env a) = fmempty) ''env'' (enc_map (asg_env a)) @ [
     (''resources'', enc_resources (asg_resources a))] @
     unless_empty (elems (asg_volumes a) = []) ''volumes'' (enc_slice enc_volume (asg_volumes a)) @
     unless_empty (elems (asg_ports a) = []) ''ports'' (enc_slice enc_int (asg_ports a)) @ [
     (''attempt'', enc_int (attempt a)),
     (''phase'', JStr (phase_string (asg_phase a)))] @
     unless_empty (status_message a = []) ''statusMessage'' (JStr (status_message a)) @ [
     (''createdAt'', enc_time (created_at a))] @
     unless_empty (started_at a = None) ''startedAt'' (enc_ptr enc_time (started_at a)) @
     unless_empty (finished_at a = None) ''finishedAt'' (enc_ptr enc_time (finished_at a)))"

definition enc_snapshot :: "state_snapshot \<Rightarrow> json" where
  "enc_snapshot s = JObj [
     (''nodes'', JArr (map enc_node (snap_nodes s))),
     (''services'', JArr (map enc_service (snap_services s))),
     (''jobs'', JArr (map enc_job (snap_jobs s))),
     (''assignments'', JArr (map enc_assignment (snap_assignments s)))]"

section \<open>Decoding\<close>

type_synonym 'a decoder = "json \<Rightarrow> 'a \<Rightarrow> 'a option"

fun dec_str :: "string decoder" where
  "dec_str JNull old = Some old"
| "dec_str (JStr s) old = Some s"
| "dec_str _ old = None"

fun dec_bool :: "bool decoder" where
  "dec_bool JNull old = Some old"
| "dec_bool (JBool b) old = Some b"
| "dec_bool _ old = None"

fun dec_int :: "goint decoder" where
  "dec_int JNull old = Some old"
| "dec_int (JNum lit) old = parse_int lit"
| "dec_int _ old = None"

fun dec_time :: "time decoder" where
  "dec_time JNull old = Some old"
| "dec_time (JStr s) old = parse_rfc3339 s"
| "dec_time _ old = None"

definition dec_time_ptr :: "time option decoder" where
  "dec_time_ptr j old = (if j = JNull then Some None
     else map_option Some (dec_time j (case old of None \<Rightarrow> 0 | Some t \<Rightarrow> t)))"

definition dec_kind :: "workload_kind decoder" where
  "dec_kind j old = map_option kind_of_string (dec_str j (kind_string old))"

definition dec_phase :: "assignment_phase decoder" where
  "dec_phase j old = map_option phase_of_string (dec_str j (phase_string old))"

text \<open>The elements of an array overwrite the first elements of the old slice one by one.\<close>

fun dec_elems :: "'a decoder \<Rightarrow> 'a \<Rightarrow> json list \<Rightarrow> 'a list \<Rightarrow> 'a list option" where
  "dec_elems d z [] olds = Some []"
| "dec_elems d z (j # js) olds =
     (case d j (case olds of [] \<Rightarrow> z | x # _ \<Rightarrow> x) of
        None \<Rightarrow> None
      | Some y \<Rightarrow> map_option (Cons y) (dec_elems d z js (tl olds)))"

definition dec_slice :: "'a decoder \<Rightarrow> 'a \<Rightarrow> 'a slice decoder" where
  "dec_slice d z j old = (case j of
     JNull \<Rightarrow> Some None
   | JArr js \<Rightarrow> map_option Some (dec_elems d z js (elems old))
   | _ \<Rightarrow> None)"

fun dec_entries :: "(string \<times> json) list \<Rightarrow> (string, string) fmap \<Rightarrow> (string, string) fmap option" where
  "dec_entries [] m = Some m"
| "dec_entries ((k, j) # kvs) m = (case dec_str j [] of
     None \<Rightarrow> None | Some v \<Rightarrow> dec_entries kvs (fmupd k v m))"

definition dec_map :: "strmap decoder" where
  "dec_map j old = (case j of
     JNull \<Rightarrow> Some None
   | JObj kvs \<Rightarrow> map_option Some (dec_entries kvs (entries old))
   | _ \<Rightarrow> None)"

text \<open>
  A struct: each key is looked up among the fields, exactly first and then ignoring case. An
  unknown key is skipped, or an error under \<open>DisallowUnknownFields\<close> (\<open>strict\<close>).
\<close>

type_synonym 'a fields = "(string \<times> 'a decoder) list"

definition find_field :: "'a fields \<Rightarrow> string \<Rightarrow> 'a decoder option" where
  "find_field fs k = (case map_of fs k of
     Some d \<Rightarrow> Some d
   | None \<Rightarrow> map_option snd (find (\<lambda>f. ToLower (fst f) = ToLower k) fs))"

fun dec_fields :: "bool \<Rightarrow> 'a fields \<Rightarrow> (string \<times> json) list \<Rightarrow> 'a \<Rightarrow> 'a option" where
  "dec_fields strict fs [] x = Some x"
| "dec_fields strict fs ((k, j) # kvs) x = (case find_field fs k of
     None \<Rightarrow> if strict then None else dec_fields strict fs kvs x
   | Some d \<Rightarrow> (case d j x of None \<Rightarrow> None | Some y \<Rightarrow> dec_fields strict fs kvs y))"

definition dec_struct :: "bool \<Rightarrow> 'a fields \<Rightarrow> 'a decoder" where
  "dec_struct strict fs j x = (case j of
     JNull \<Rightarrow> Some x | JObj kvs \<Rightarrow> dec_fields strict fs kvs x | _ \<Rightarrow> None)"

text \<open>A field decoder from the decoder of its type and the record's selector and update.\<close>

definition at_field :: "('r \<Rightarrow> 'a) \<Rightarrow> (('a \<Rightarrow> 'a) \<Rightarrow> 'r \<Rightarrow> 'r) \<Rightarrow> 'a decoder \<Rightarrow> 'r decoder" where
  "at_field sel upd d j r = map_option (\<lambda>v. upd (\<lambda>_. v) r) (d j (sel r))"

definition dec_resources :: "bool \<Rightarrow> resource_requirements decoder" where
  "dec_resources strict = dec_struct strict
     [(''cpu'', at_field res_CPU res_CPU_update dec_int), (''memory'', at_field res_Memory res_Memory_update dec_int)]"

definition dec_placement :: "bool \<Rightarrow> placement decoder" where
  "dec_placement strict = dec_struct strict
     [(''requiredLabels'', at_field required_labels required_labels_update dec_map)]"

definition dec_volume :: "bool \<Rightarrow> volume decoder" where
  "dec_volume strict = dec_struct strict
     [(''name'', at_field vol_name vol_name_update dec_str),
      (''hostPath'', at_field host_path host_path_update dec_str),
      (''mountPath'', at_field mount_path mount_path_update dec_str)]"

definition zero_volume :: volume where
  "zero_volume = \<lparr>vol_name = [], host_path = [], mount_path = []\<rparr>"

definition zero_requirements :: resource_requirements where
  "zero_requirements = \<lparr>res_CPU = 0, res_Memory = 0\<rparr>"

definition zero_node :: node where
  "zero_node = \<lparr>node_ID = [], node_labels = None, node_capacity = zero_requirements, last_heartbeat = 0\<rparr>"

definition dec_node :: "bool \<Rightarrow> node decoder" where
  "dec_node strict = dec_struct strict
     [(''id'', at_field node_ID node_ID_update dec_str),
      (''labels'', at_field node_labels node_labels_update dec_map),
      (''capacity'', at_field node_capacity node_capacity_update (dec_resources strict)),
      (''lastHeartbeat'', at_field last_heartbeat last_heartbeat_update dec_time)]"

definition dec_service_status :: "bool \<Rightarrow> service_status decoder" where
  "dec_service_status strict = dec_struct strict
     [(''desiredReplicas'', at_field desired_replicas desired_replicas_update dec_int),
      (''pendingReplicas'', at_field pending_replicas pending_replicas_update dec_int),
      (''runningReplicas'', at_field running_replicas running_replicas_update dec_int),
      (''assignmentIds'', at_field assignment_IDs assignment_IDs_update (dec_slice dec_str [])),
      (''lastReconciledUnix'', at_field last_reconciled_unix last_reconciled_unix_update dec_int)]"

definition zero_service :: service where
  "zero_service = \<lparr>service_name = [], service_image = [], service_command = None, service_env = None,
     service_replicas = 0, service_resources = zero_requirements,
     service_placement = \<lparr>required_labels = None\<rparr>, service_volumes = None, service_ports = None,
     service_st = zero_service_status\<rparr>"

definition dec_service :: "bool \<Rightarrow> service decoder" where
  "dec_service strict = dec_struct strict
     [(''name'', at_field service_name service_name_update dec_str),
      (''image'', at_field service_image service_image_update dec_str),
      (''command'', at_field service_command service_command_update (dec_slice dec_str [])),
      (''env'', at_field service_env service_env_update dec_map),
      (''replicas'', at_field service_replicas service_replicas_update dec_int),
      (''resources'', at_field service_resources service_resources_update (dec_resources strict)),
      (''placement'', at_field service_placement service_placement_update (dec_placement strict)),
      (''volumes'', at_field service_volumes service_volumes_update (dec_slice (dec_volume strict) zero_volume)),
      (''ports'', at_field service_ports service_ports_update (dec_slice dec_int 0)),
      (''status'', at_field service_st service_st_update (dec_service_status strict))]"

definition dec_job_status :: "bool \<Rightarrow> job_status decoder" where
  "dec_job_status strict = dec_struct strict
     [(''activeAssignmentId'', at_field active_assignment_ID active_assignment_ID_update dec_str),
      (''lastAssignmentId'', at_field last_assignment_ID last_assignment_ID_update dec_str),
      (''succeeded'', at_field job_succeeded job_succeeded_update dec_bool),
      (''failedAttempts'', at_field failed_attempts failed_attempts_update dec_int),
      (''lastFailure'', at_field last_failure last_failure_update dec_str),
      (''completedAt'', at_field completed_at completed_at_update dec_time_ptr)]"

definition zero_job :: job where
  "zero_job = \<lparr>job_name = [], job_image = [], job_command = None, job_env = None,
     job_resources = zero_requirements, job_placement = \<lparr>required_labels = None\<rparr>,
     job_volumes = None, job_retries = 0, job_st = zero_job_status\<rparr>"

definition dec_job :: "bool \<Rightarrow> job decoder" where
  "dec_job strict = dec_struct strict
     [(''name'', at_field job_name job_name_update dec_str),
      (''image'', at_field job_image job_image_update dec_str),
      (''command'', at_field job_command job_command_update (dec_slice dec_str [])),
      (''env'', at_field job_env job_env_update dec_map),
      (''resources'', at_field job_resources job_resources_update (dec_resources strict)),
      (''placement'', at_field job_placement job_placement_update (dec_placement strict)),
      (''volumes'', at_field job_volumes job_volumes_update (dec_slice (dec_volume strict) zero_volume)),
      (''retries'', at_field job_retries job_retries_update dec_int),
      (''status'', at_field job_st job_st_update (dec_job_status strict))]"

definition zero_assignment :: assignment where
  "zero_assignment = \<lparr>asg_ID = [], owner_kind = OtherKind [], owner_name = [], asg_node = [],
     asg_image = [], asg_command = None, asg_env = None, asg_resources = zero_requirements,
     asg_volumes = None, asg_ports = None, attempt = 0, asg_phase = OtherPhase [], status_message = [],
     created_at = 0, started_at = None, finished_at = None\<rparr>"

definition dec_assignment :: "bool \<Rightarrow> assignment decoder" where
  "dec_assignment strict = dec_struct strict
     [(''id'', at_field asg_ID asg_ID_update dec_str),
      (''ownerKind'', at_field owner_kind owner_kind_update dec_kind),
      (''ownerName'', at_field owner_name owner_name_update dec_str),
      (''nodeId'', at_field asg_node asg_node_update dec_str),
      (''image'', at_field asg_image asg_image_update dec_str),
      (''command'', at_field asg_command asg_command_update (dec_slice dec_str [])),
      (''env'', at_field asg_env asg_env_update dec_map),
      (''resources'', at_field asg_resources asg_resources_update (dec_resources strict)),
      (''volumes'', at_field asg_volumes asg_volumes_update (dec_slice (dec_volume strict) zero_volume)),
      (''ports'', at_field asg_ports asg_ports_update (dec_slice dec_int 0)),
      (''attempt'', at_field attempt attempt_update dec_int),
      (''phase'', at_field asg_phase asg_phase_update dec_phase),
      (''statusMessage'', at_field status_message status_message_update dec_str),
      (''createdAt'', at_field created_at created_at_update dec_time),
      (''startedAt'', at_field started_at started_at_update dec_time_ptr),
      (''finishedAt'', at_field finished_at finished_at_update dec_time_ptr)]"

section \<open>Round trips\<close>

lemma show_nat_pad: "\<exists>w. show_nat n = pad (Suc w) n"
proof (induction n rule: show_nat.induct)
  case (1 n)
  show ?case
  proof (cases "n < 10")
    case True
    then show ?thesis by (subst show_nat.simps) (auto simp: digit_def intro!: exI [of _ 0])
  next
    case False
    with 1 obtain w where "show_nat (n div 10) = pad (Suc w) (n div 10)" by blast
    with False have "show_nat n = pad (Suc (Suc w)) n"
      by (subst show_nat.simps) (simp add: digit_def)
    then show ?thesis by blast
  qed
qed

lemma digits_val_append_digit: "digits_val (s @ [c]) = digits_val s * 10 + digit_val c"
  by (simp add: digits_val_def)

lemma num_show_nat [simp]: "num (show_nat n) = Some n"
proof -
  have "list_all is_digit (show_nat n) \<and> show_nat n \<noteq> []"
    using show_nat_pad [of n] by (metis all_digits_pad length_pad list.size(3) nat.distinct(1))
  moreover have "digits_val (show_nat n) = n"
  proof (induction n rule: show_nat.induct)
    case (1 n)
    then show ?case
      by (subst show_nat.simps)
        (simp add: digits_val_append_digit digits_val_def [of "[_]"] digit_val_def)
  qed
  ultimately show ?thesis by (simp add: num_def)
qed

lemma show_nat_not_minus: "hd (show_nat n) \<noteq> CHR ''-''"
proof -
  have "list_all is_digit (show_nat n)" "show_nat n \<noteq> []"
    using show_nat_pad [of n] by (metis all_digits_pad, metis length_pad list.size(3) nat.distinct(1))
  then have "is_digit (hd (show_nat n))" by (cases "show_nat n") simp_all
  then show ?thesis by (auto simp: is_digit_def)
qed

lemma parse_show_int [simp]: "parse_int (show_int (sint w)) = Some w"
proof (cases "sint w < 0")
  case True
  have "- (2 ^ 63) \<le> sint w" using sint_ge [of w] by simp
  with True show ?thesis by (simp add: parse_int_def show_int_def)
next
  case False
  obtain c cs where c: "show_nat (nat (sint w)) = c # cs" "c \<noteq> CHR ''-''"
    using show_nat_pad [of "nat (sint w)"] show_nat_not_minus [of "nat (sint w)"]
    by (cases "show_nat (nat (sint w))") (auto dest: arg_cong [where f = length])
  have "num (c # cs) = Some (nat (sint w))" using num_show_nat [of "nat (sint w)"] c(1) by simp
  moreover have "sint w < 2 ^ 63" using sint_lt [of w] by simp
  ultimately show ?thesis using False c by (simp add: parse_int_def show_int_def)
qed

lemma dec_enc_int [simp]: "dec_int (enc_int w) old = Some w"
  by (simp add: enc_int_def)

lemma dec_enc_time [simp]: "rfc3339_ok t \<Longrightarrow> dec_time (enc_time t) old = Some t"
  by (simp add: enc_time_def rfc3339_roundtrip)

lemma dec_enc_kind [simp]: "kind_of_string (kind_string k) = k \<Longrightarrow> dec_kind (JStr (kind_string k)) old = Some k"
  by (simp add: dec_kind_def)

lemma dec_enc_phase [simp]: "phase_of_string (phase_string p) = p \<Longrightarrow> dec_phase (JStr (phase_string p)) old = Some p"
  by (simp add: dec_phase_def)

lemma dec_elems_map:
  "(\<And>x. x \<in> set xs \<Longrightarrow> d (e x) z = Some x) \<Longrightarrow> dec_elems d z (map e xs) [] = Some xs"
  by (induction xs) simp_all

lemma dec_entries_map:
  "distinct (map fst kvs) \<Longrightarrow>
   \<exists>m'. dec_entries (map (\<lambda>(k, v). (k, JStr v)) kvs) m = Some m' \<and>
     (\<forall>k. fmlookup m' k = (case map_of kvs k of None \<Rightarrow> fmlookup m k | Some v \<Rightarrow> Some v))"
proof (induction kvs arbitrary: m)
  case Nil
  then show ?case by simp
next
  case (Cons kv kvs)
  obtain k v where kv: "kv = (k, v)" by (cases kv)
  obtain m' where "dec_entries (map (\<lambda>(k, v). (k, JStr v)) kvs) (fmupd k v m) = Some m'"
    "\<forall>k'. fmlookup m' k' = (case map_of kvs k' of None \<Rightarrow> fmlookup (fmupd k v m) k' | Some v \<Rightarrow> Some v)"
    using Cons.IH [of "fmupd k v m"] Cons.prems(1) by (auto simp: kv)
  moreover have "map_of kvs k = None" using Cons.prems(1) by (simp add: kv map_of_eq_None_iff)
  ultimately show ?case by (auto simp: kv split: option.splits)
qed

lemma dec_enc_map: "dec_map (enc_map (Some m)) None = Some (Some m)"
proof -
  let ?kvs = "sorted_list_of_fmap m"
  have d: "distinct (map fst ?kvs)"
    by (simp add: map_fst_sorted_list_of_fmap sorted_list_of_fset.rep_eq)
  obtain m' where m': "dec_entries (map (\<lambda>(k, v). (k, JStr v)) ?kvs) fmempty = Some m'"
    "\<forall>k. fmlookup m' k = (case map_of ?kvs k of None \<Rightarrow> fmlookup fmempty k | Some v \<Rightarrow> Some v)"
    using dec_entries_map [OF d, of fmempty] by (elim exE conjE) (rule that)
  then have "fmlookup m' k = fmlookup m k" for k by (simp split: option.splits)
  then have "m' = m" by (intro fmap_ext)
  with m'(1) show ?thesis by (simp add: dec_map_def enc_map_def)
qed

text \<open>How decoding consumes one field, present or omitted.\<close>

named_theorems json_fields \<open>decoding an encoded field\<close>

lemma dec_map_field [json_fields]:
  assumes "find_field fs k = Some (at_field sel upd dec_map)" "sel x = None" "upd (\<lambda>_. None) x = x"
  shows "dec_fields strict fs (unless_empty (entries m = fmempty) k (enc_map m) @ kvs) x =
    dec_fields strict fs kvs (upd (\<lambda>_. cloneStringMap m) x)"
  using assms dec_enc_map [of "entries m"]
  by (cases m) (auto simp: unless_empty_def at_field_def cloneStringMap_def)

lemma dec_slice_field [json_fields]:
  assumes "find_field fs k = Some (at_field sel upd (dec_slice d z))" "sel x = None" "upd (\<lambda>_. None) x = x"
    and "\<And>y. y \<in> set (elems ys) \<Longrightarrow> d (e y) z = Some y"
  shows "dec_fields strict fs (unless_empty (elems ys = []) k (enc_slice e ys) @ kvs) x =
    dec_fields strict fs kvs (upd (\<lambda>_. cloneSlice ys) x)"
proof -
  have "dec_slice d z (enc_slice e ys) None = Some ys" if "elems ys \<noteq> []"
    using that assms(4) by (cases ys) (auto simp: dec_slice_def enc_slice_def dec_elems_map)
  then show ?thesis
    using assms(1-3) by (cases ys) (auto simp: unless_empty_def at_field_def cloneSlice_def)
qed

lemma dec_str_field [json_fields]:
  assumes "find_field fs k = Some (at_field sel upd dec_str)" "upd (\<lambda>_. []) x = x"
  shows "dec_fields strict fs (unless_empty (s = []) k (JStr s) @ kvs) x =
    dec_fields strict fs kvs (upd (\<lambda>_. s) x)"
  using assms by (simp add: unless_empty_def at_field_def)

lemma dec_ptr_field [json_fields]:
  assumes "find_field fs k = Some (at_field sel upd dec_time_ptr)" "upd (\<lambda>_. None) x = x"
    and "\<forall>s. t = Some s \<longrightarrow> rfc3339_ok s"
  shows "dec_fields strict fs (unless_empty (t = None) k (enc_ptr enc_time t) @ kvs) x =
    dec_fields strict fs kvs (upd (\<lambda>_. t) x)"
  using assms by (cases t) (auto simp: unless_empty_def at_field_def dec_time_ptr_def enc_ptr_def enc_time_def
      rfc3339_roundtrip)

lemmas json_last =
  dec_map_field [where kvs = "[]", unfolded append_Nil2 dec_fields.simps(1)]
  dec_ptr_field [where kvs = "[]", unfolded append_Nil2 dec_fields.simps(1)]

lemma at_field_eq [simp]: "at_field sel upd d j x = map_option (\<lambda>v. upd (\<lambda>_. v) x) (d j (sel x))"
  by (simp add: at_field_def)

lemma dec_enc_resources [simp]: "dec_resources strict (enc_resources r) old = Some r"
  by (cases r) (simp add: dec_resources_def enc_resources_def dec_struct_def find_field_def)

lemma dec_enc_volume [simp]: "dec_volume strict (enc_volume v) old = Some v"
  by (cases v) (simp add: dec_volume_def enc_volume_def dec_struct_def find_field_def)

lemma dec_enc_placement [simp]:
  "dec_placement strict (enc_placement p) \<lparr>required_labels = None\<rparr> =
     Some \<lparr>required_labels = cloneStringMap (required_labels p)\<rparr>"
  by (cases p) (simp add: dec_placement_def enc_placement_def dec_struct_def find_field_def
      json_last json_fields)

lemma dec_enc_node:
  assumes "rfc3339_ok (last_heartbeat n)"
  shows "dec_node strict (enc_node n) zero_node = Some (Node_Clone n)"
  using assms
  by (simp add: dec_node_def enc_node_def dec_struct_def find_field_def json_fields zero_node_def Node_Clone_def)

lemma dec_enc_service_status:
  "dec_service_status strict (enc_service_status st) zero_service_status =
     Some (st\<lparr>assignment_IDs := cloneSlice (assignment_IDs st)\<rparr>)"
  by (cases st) (simp add: dec_service_status_def enc_service_status_def dec_struct_def find_field_def
      json_fields zero_service_status_def)

lemma dec_enc_service: "dec_service strict (enc_service v) zero_service = Some (Service_Clone v)"
  by (cases "service_st v") (simp add: dec_service_def enc_service_def dec_struct_def find_field_def json_fields
      zero_service_def Service_Clone_def dec_enc_service_status)

definition job_encodable :: "job \<Rightarrow> bool" where
  "job_encodable j \<longleftrightarrow> (case completed_at (job_st j) of None \<Rightarrow> True | Some t \<Rightarrow> rfc3339_ok t)"

lemma dec_enc_job_status:
  assumes "\<forall>t. completed_at st = Some t \<longrightarrow> rfc3339_ok t"
  shows "dec_job_status strict (enc_job_status st) zero_job_status = Some st"
  using assms
  by (cases st) (simp add: dec_job_status_def enc_job_status_def dec_struct_def find_field_def
      json_last json_fields zero_job_status_def)

lemma dec_enc_job:
  assumes "job_encodable j"
  shows "dec_job strict (enc_job j) zero_job = Some (Job_Clone j)"
  using assms
  by (cases "job_st j") (simp add: dec_job_def enc_job_def dec_struct_def find_field_def json_fields
      zero_job_def Job_Clone_def dec_enc_job_status job_encodable_def split: option.splits)

text \<open>Times in range, and a kind and a phase that are their constants when their strings are.\<close>

definition assignment_encodable :: "assignment \<Rightarrow> bool" where
  "assignment_encodable a \<longleftrightarrow>
     rfc3339_ok (created_at a) \<and>
     (case started_at a of None \<Rightarrow> True | Some t \<Rightarrow> rfc3339_ok t) \<and>
     (case finished_at a of None \<Rightarrow> True | Some t \<Rightarrow> rfc3339_ok t) \<and>
     kind_of_string (kind_string (owner_kind a)) = owner_kind a \<and>
     phase_of_string (phase_string (asg_phase a)) = asg_phase a"

lemma dec_enc_assignment:
  assumes "assignment_encodable a"
  shows "dec_assignment strict (enc_assignment a) zero_assignment = Some (Assignment_Clone a)"
proof -
  have "\<forall>t. started_at a = Some t \<longrightarrow> rfc3339_ok t" "\<forall>t. finished_at a = Some t \<longrightarrow> rfc3339_ok t"
    using assms by (auto simp: assignment_encodable_def)
  then show ?thesis
    using assms
    by (simp add: dec_assignment_def enc_assignment_def dec_struct_def find_field_def json_fields
        json_last zero_assignment_def Assignment_Clone_def assignment_encodable_def)
qed

text \<open>
  C19: Encoding a record as JSON and decoding it gives its \<open>Clone\<close>: every field survives, the
  order of fields, omitted empty fields and nested structs notwithstanding, and an empty
  slice or map comes back nil, as in \<open>clone.go\<close>. This holds with and without
  \<open>DisallowUnknownFields\<close>, for times of the years 0 to 9999.
\<close>

theorem json_roundtrip:
  "(rfc3339_ok (last_heartbeat n) \<longrightarrow> dec_node strict (enc_node n) zero_node = Some (Node_Clone n)) \<and>
    dec_service strict (enc_service v) zero_service = Some (Service_Clone v) \<and>
    (job_encodable j \<longrightarrow> dec_job strict (enc_job j) zero_job = Some (Job_Clone j)) \<and>
    (assignment_encodable a \<longrightarrow>
      dec_assignment strict (enc_assignment a) zero_assignment = Some (Assignment_Clone a))"
  by (simp add: dec_enc_node dec_enc_service dec_enc_job dec_enc_assignment)

end
