(* ===== verification/Files.thy ===== *)
theory Files
  imports Go_Strings
begin

text \<open>
  The part of the file system the program uses (\<open>os.ReadFile\<close>, \<open>os.Rename\<close>, files that are
  created, written and synced) and \<open>WriteFile\<close> of \<open>internal/pki/pki.go\<close> on it. Each
  system call may fail; which ones fail in a run is the argument \<open>flt\<close>.
\<close>

section \<open>Model\<close>

text \<open>A path is absent, a readable file with its bytes, or something \<open>os.ReadFile\<close> cannot read.\<close>

datatype file_entry = Plain string | Unreadable

type_synonym fs = "(string, file_entry) fmap"

datatype 'a read = Contents 'a | NotExist | ReadError

definition os_ReadFile :: "fs \<Rightarrow> string \<Rightarrow> string read" where
  "os_ReadFile d path = (case fmlookup d path of
     None \<Rightarrow> NotExist | Some Unreadable \<Rightarrow> ReadError | Some (Plain bytes) \<Rightarrow> Contents bytes)"

definition os_Rename :: "string \<Rightarrow> string \<Rightarrow> fs \<Rightarrow> fs" where
  "os_Rename old new d = (case fmlookup d old of
     None \<Rightarrow> d | Some f \<Rightarrow> fmupd new f (fmdrop old d))"

text \<open>
  The calls of \<open>WriteFile\<close> that may fail. A failed write leaves the first \<open>k\<close> bytes, a
  failed call of any kind leaves the file system as the calls before it did.
\<close>

datatype write_fault = NoFault | OpenFails | WriteFails nat | SyncFails | CloseFails | RenameFails

definition tmp_path :: "string \<Rightarrow> string" where
  "tmp_path path = path @ ''.tmp''"

definition WriteFile :: "write_fault \<Rightarrow> string \<Rightarrow> string \<Rightarrow> fs \<Rightarrow> fs \<times> bool" where
  "WriteFile flt path bytes d =
     (let tmp = tmp_path path in
      if flt = OpenFails then (d, False)
      else
        let d1 = fmupd tmp (Plain []) d
        in case flt of
             WriteFails k \<Rightarrow> (fmupd tmp (Plain (take k bytes)) d1, False)
           | _ \<Rightarrow>
             (let d2 = fmupd tmp (Plain bytes) d1
              in if flt = SyncFails then (d2, False)
                 else if flt = CloseFails then (d2, False)
                 else if flt = RenameFails then (d2, False)
                 else (os_Rename tmp path d2, True)))"

section \<open>Lemmas\<close>

lemma tmp_path_neq [simp]: "tmp_path path \<noteq> path" "path \<noteq> tmp_path path"
  by (simp_all add: tmp_path_def)

lemma WriteFile_lookup:
  "snd (WriteFile flt path bytes d) \<Longrightarrow> fmlookup (fst (WriteFile flt path bytes d)) path = Some (Plain bytes)"
  "\<not> snd (WriteFile flt path bytes d) \<Longrightarrow> fmlookup (fst (WriteFile flt path bytes d)) path = fmlookup d path"
  "k \<noteq> path \<Longrightarrow> k \<noteq> tmp_path path \<Longrightarrow> fmlookup (fst (WriteFile flt path bytes d)) k = fmlookup d k"
  by (auto simp: WriteFile_def os_Rename_def Let_def split: write_fault.splits)

lemma WriteFile_ok: "snd (WriteFile flt path bytes d) \<longleftrightarrow> flt = NoFault"
  by (auto simp: WriteFile_def Let_def split: write_fault.splits)

lemma os_ReadFile_cong: "fmlookup d path = fmlookup d' path \<Longrightarrow> os_ReadFile d path = os_ReadFile d' path"
  by (simp add: os_ReadFile_def)

text \<open>
  \<open>WriteFile\<close> is atomic: whichever of its system calls fails, a reader of the path finds
  either what was there before or all the new bytes, never a part of them, and finds the new
  bytes exactly when the call reports success. No other path than the temporary one changes.
\<close>

theorem WriteFile_atomic:
  "os_ReadFile (fst (WriteFile flt path bytes d)) path =
      (if snd (WriteFile flt path bytes d) then Contents bytes else os_ReadFile d path) \<and>
    fmdrop path (fmdrop (tmp_path path) (fst (WriteFile flt path bytes d))) =
      fmdrop path (fmdrop (tmp_path path) d)"
  by (auto simp: os_ReadFile_def WriteFile_lookup intro: fmap_ext)

end
