(* ===== verification/Pki.thy ===== *)
theory Pki
  imports Files
begin

text \<open>
  \<open>internal/pki\<close>: the identities in a CommonName, the join token (\<open>token.go\<close>) and the
  certificate authority (\<open>pki.go\<close>). What the program takes from \<open>crypto/x509\<close>,
  \<open>encoding/pem\<close> and \<open>crypto/sha256\<close> is the argument \<open>L\<close>, a record of the functions it
  calls; \<open>crypto_laws\<close> states the documented facts about them the theorems use.
\<close>

section \<open>Identities\<close>

definition AdminCN :: string where
  "AdminCN = ''k8:admin''"

definition nodePrefix :: string where
  "nodePrefix = ''k8:node:''"

definition NodeCN :: "string \<Rightarrow> string" where
  "NodeCN nodeID = nodePrefix @ nodeID"

definition NodeIDFromCN :: "string \<Rightarrow> string" where
  "NodeIDFromCN cn =
     (if length nodePrefix < length cn \<and> take (length nodePrefix) cn = nodePrefix
      then drop (length nodePrefix) cn else [])"

section \<open>Hexadecimal\<close>

definition hex_digit :: "nat \<Rightarrow> char" where
  "hex_digit n = ''0123456789abcdef'' ! n"

definition hex_EncodeToString :: "8 word list \<Rightarrow> string" where
  "hex_EncodeToString bs = concat (map (\<lambda>b. [hex_digit (unat b div 16), hex_digit (unat b mod 16)]) bs)"

definition is_hex :: "char \<Rightarrow> bool" where
  "is_hex c \<longleftrightarrow> c \<in> set ''0123456789abcdefABCDEF''"

text \<open>Whether \<open>hex.DecodeString\<close> succeeds: an even number of hex digits.\<close>

definition hex_DecodeString_ok :: "string \<Rightarrow> bool" where
  "hex_DecodeString_ok s \<longleftrightarrow> even (length s) \<and> list_all is_hex s"

section \<open>Join tokens\<close>

record token =
  CAHash :: string
  Secret :: string

definition tokenPrefix :: string where
  "tokenPrefix = ''K8''"

definition Token_String :: "token \<Rightarrow> string" where
  "Token_String t = tokenPrefix @ CAHash t @ ''::'' @ Secret t"

datatype token_error = NoTokenPrefix | BadTokenShape | HashNotHex

definition ParseToken :: "string \<Rightarrow> token_error + token" where
  "ParseToken raw =
     (case CutPrefix (TrimSpace raw) tokenPrefix of
        None \<Rightarrow> Inl NoTokenPrefix
      | Some rest \<Rightarrow>
        (case Cut rest ''::'' of
           None \<Rightarrow> Inl BadTokenShape
         | Some (hash, secret) \<Rightarrow>
             if length hash \<noteq> 64 \<or> secret = [] then Inl BadTokenShape
             else if \<not> hex_DecodeString_ok hash then Inl HashNotHex
             else Inr \<lparr>CAHash = hash, Secret = secret\<rparr>))"

section \<open>The certificate authority\<close>

text \<open>The fields of an \<open>x509.Certificate\<close> template that differ between the three kinds of certificate.\<close>

datatype key_usage = CertSign | CRLSign | DigitalSignature
datatype ext_key_usage = ServerAuth | ClientAuth

record cert_template =
  SerialNumber :: int
  SubjectCN :: string
  DNSNames :: "string list"
  IPAddresses :: "string list"
  NotBefore :: time
  NotAfter :: time
  KeyUsage :: "key_usage list"
  ExtKeyUsage :: "ext_key_usage list"
  IsCA :: bool

text \<open>
  \<open>CreateCertificate\<close> takes the template, the issuer, the public key and the signing key. The
  issuer is the template itself, or the certificate a \<open>CA\<close> holds, a pointer that may be nil.
\<close>

datatype 'c issuer = SelfSigned | Issuer "'c option"

record ('c, 'k, 'p, 'r) crypto =
  pem_Decode :: "string \<Rightarrow> (string \<times> string) option"
  pem_Encode :: "string \<Rightarrow> string \<Rightarrow> string"
  x509_ParseCertificate :: "string \<Rightarrow> 'c option"
  x509_ParsePKCS8 :: "string \<Rightarrow> 'k option"
  key_Signs :: "'k \<Rightarrow> bool"
  x509_MarshalPKCS8 :: "'k \<Rightarrow> string option"
  key_Public :: "'k \<Rightarrow> 'p"
  x509_CreateCertificate :: "cert_template \<Rightarrow> 'c issuer \<Rightarrow> 'p \<Rightarrow> 'k \<Rightarrow> string option"
  x509_ParseCSR :: "string \<Rightarrow> 'r option"
  csr_CheckSignature :: "'r \<Rightarrow> bool"
  csr_PublicKey :: "'r \<Rightarrow> 'p"
  sha256_Sum :: "string \<Rightarrow> 8 word list"

record ('c, 'k) ca =
  ca_Cert :: "'c option"
  ca_Key :: 'k
  ca_PEM :: string

definition caValidity :: duration where
  "caValidity = 10 * 365 * 24 * 3600 * 1000000000"

definition leafValidity :: duration where
  "leafValidity = 365 * 24 * 3600 * 1000000000"

definition clockSkewSlack :: duration where
  "clockSkewSlack = 5 * 60 * 1000000000"

definition Fingerprint :: "('c, 'k, 'p, 'r) crypto \<Rightarrow> string \<Rightarrow> string" where
  "Fingerprint L caPEM = hex_EncodeToString (sha256_Sum L caPEM)"

definition EncodeCert :: "('c, 'k, 'p, 'r) crypto \<Rightarrow> string \<Rightarrow> string" where
  "EncodeCert L der = pem_Encode L ''CERTIFICATE'' der"

definition EncodeKey :: "('c, 'k, 'p, 'r) crypto \<Rightarrow> 'k \<Rightarrow> string option" where
  "EncodeKey L key = map_option (pem_Encode L ''PRIVATE KEY'') (x509_MarshalPKCS8 L key)"

definition ParseCert :: "('c, 'k, 'p, 'r) crypto \<Rightarrow> string \<Rightarrow> 'c option" where
  "ParseCert L certPEM = (case pem_Decode L certPEM of
     None \<Rightarrow> None
   | Some (ty, bytes) \<Rightarrow> if ty \<noteq> ''CERTIFICATE'' then None else x509_ParseCertificate L bytes)"

definition ParseKey :: "('c, 'k, 'p, 'r) crypto \<Rightarrow> string \<Rightarrow> 'k option" where
  "ParseKey L keyPEM = (case pem_Decode L keyPEM of
     None \<Rightarrow> None
   | Some (ty, bytes) \<Rightarrow>
       if ty \<noteq> ''PRIVATE KEY'' then None
       else case x509_ParsePKCS8 L bytes of
              None \<Rightarrow> None
            | Some key \<Rightarrow> if key_Signs L key then Some key else None)"

definition ClientCert ::
  "('c, 'k, 'p, 'r) crypto \<Rightarrow> int \<Rightarrow> time \<Rightarrow> ('c, 'k) ca \<Rightarrow> string \<Rightarrow> 'p \<Rightarrow> string option" where
  "ClientCert L sn now ca cn pub =
     map_option (EncodeCert L) (x509_CreateCertificate L
       \<lparr>SerialNumber = sn, SubjectCN = cn, DNSNames = [], IPAddresses = [],
        NotBefore = now - clockSkewSlack, NotAfter = now + leafValidity,
        KeyUsage = [DigitalSignature], ExtKeyUsage = [ClientAuth], IsCA = False\<rparr>
       (Issuer (ca_Cert ca)) pub (ca_Key ca))"

text \<open>The serving certificate for \<open>dnsNames\<close> and \<open>ips\<close>; \<open>key\<close> is the new key \<open>NewKey\<close> made.\<close>

definition ServerCert ::
  "('c, 'k, 'p, 'r) crypto \<Rightarrow> int \<Rightarrow> time \<Rightarrow> 'k option \<Rightarrow> ('c, 'k) ca \<Rightarrow> string list \<Rightarrow> string list \<Rightarrow>
   (string \<times> 'k) option" where
  "ServerCert L sn now newKey ca dnsNames ips = (case newKey of
     None \<Rightarrow> None
   | Some key \<Rightarrow> map_option (\<lambda>der. (der, key)) (x509_CreateCertificate L
       \<lparr>SerialNumber = sn, SubjectCN = ''k8-controller'', DNSNames = dnsNames, IPAddresses = ips,
        NotBefore = now - clockSkewSlack, NotAfter = now + leafValidity,
        KeyUsage = [DigitalSignature], ExtKeyUsage = [ServerAuth], IsCA = False\<rparr>
       (Issuer (ca_Cert ca)) (key_Public L key) (ca_Key ca)))"

definition SignNodeCSR ::
  "('c, 'k, 'p, 'r) crypto \<Rightarrow> int \<Rightarrow> time \<Rightarrow> ('c, 'k) ca \<Rightarrow> string \<Rightarrow> string \<Rightarrow> string option" where
  "SignNodeCSR L sn now ca nodeID csrPEM = (case pem_Decode L csrPEM of
     None \<Rightarrow> None
   | Some (ty, bytes) \<Rightarrow>
       if ty \<noteq> ''CERTIFICATE REQUEST'' then None
       else case x509_ParseCSR L bytes of
              None \<Rightarrow> None
            | Some csr \<Rightarrow>
                if \<not> csr_CheckSignature L csr then None
                else ClientCert L sn now ca (NodeCN nodeID) (csr_PublicKey L csr))"

definition ca_paths :: "string \<Rightarrow> string \<times> string" where
  "ca_paths dir = (dir @ ''/ca.crt'', dir @ ''/ca.key'')"

datatype ca_error = CertUnparsable | KeyUnparsable | HalfPresent | NoKey | SignFailed | CAWriteFailed

text \<open>
  \<open>LoadOrCreateCA\<close>. \<open>newKey\<close> is the result of \<open>NewKey\<close>, \<open>kflt\<close> and \<open>cflt\<close> say how the
  writes of the key and of the certificate go. \<open>os.MkdirAll\<close> is taken to succeed.
\<close>

definition LoadOrCreateCA ::
  "('c, 'k, 'p, 'r) crypto \<Rightarrow> int \<Rightarrow> time \<Rightarrow> 'k option \<Rightarrow> write_fault \<Rightarrow> write_fault \<Rightarrow> string \<Rightarrow> fs \<Rightarrow>
   fs \<times> (ca_error + ('c, 'k) ca)" where
  "LoadOrCreateCA L sn now newKey kflt cflt dir d =
     (let (certPath, keyPath) = ca_paths dir in
      case (os_ReadFile d certPath, os_ReadFile d keyPath) of
        (Contents certPEM, Contents keyPEM) \<Rightarrow>
          (case ParseCert L certPEM of
             None \<Rightarrow> (d, Inl CertUnparsable)
           | Some cert \<Rightarrow>
             (case ParseKey L keyPEM of
                None \<Rightarrow> (d, Inl KeyUnparsable)
              | Some key \<Rightarrow> (d, Inr \<lparr>ca_Cert = Some cert, ca_Key = key, ca_PEM = certPEM\<rparr>)))
      | (certRead, keyRead) \<Rightarrow>
          if certRead \<noteq> NotExist \<or> keyRead \<noteq> NotExist then (d, Inl HalfPresent)
          else case newKey of
            None \<Rightarrow> (d, Inl NoKey)
          | Some key \<Rightarrow>
            (case x509_CreateCertificate L
                \<lparr>SerialNumber = sn, SubjectCN = ''k8-ca@'' @ show_int (sint (time_Unix now)),
                 DNSNames = [], IPAddresses = [],
                 NotBefore = now - clockSkewSlack, NotAfter = now + caValidity,
                 KeyUsage = [CertSign, CRLSign, DigitalSignature], ExtKeyUsage = [], IsCA = True\<rparr>
                SelfSigned (key_Public L key) key of
               None \<Rightarrow> (d, Inl SignFailed)
             | Some der \<Rightarrow>
               (case EncodeKey L key of
                  None \<Rightarrow> (d, Inl NoKey)
                | Some keyPEM \<Rightarrow>
                    let (d1, ok1) = WriteFile kflt keyPath keyPEM d
                    in if \<not> ok1 then (d1, Inl CAWriteFailed)
                       else
                         let (d2, ok2) = WriteFile cflt certPath (EncodeCert L der) d1
                         in if \<not> ok2 then (d2, Inl CAWriteFailed)
                            else (d2, Inr \<lparr>ca_Cert = x509_ParseCertificate L der, ca_Key = key,
                                     ca_PEM = EncodeCert L der\<rparr>))))"

datatype load_error =
  TokenUnparsable token_error | WrongCA | SecretDiffers | TokenReadFailed | NoRandom | TokenWriteFailed

text \<open>\<open>LoadOrCreateToken\<close>; \<open>rand\<close> is what \<open>rand.Read\<close> of 32 bytes returns, \<open>None\<close> for an error.\<close>

definition LoadOrCreateToken ::
  "('c, 'k, 'p, 'r) crypto \<Rightarrow> 8 word list option \<Rightarrow> write_fault \<Rightarrow> string \<Rightarrow> ('c, 'k) ca \<Rightarrow> string \<Rightarrow> fs \<Rightarrow>
   fs \<times> (load_error + token)" where
  "LoadOrCreateToken L rand flt path ca secret d =
     (let want = Fingerprint L (ca_PEM ca) in
      case os_ReadFile d path of
        Contents bytes \<Rightarrow>
          (case ParseToken bytes of
             Inl err \<Rightarrow> (d, Inl (TokenUnparsable err))
           | Inr tok \<Rightarrow>
               if CAHash tok \<noteq> want then (d, Inl WrongCA)
               else if secret \<noteq> [] \<and> secret \<noteq> Secret tok then (d, Inl SecretDiffers)
               else (d, Inr tok))
      | ReadError \<Rightarrow> (d, Inl TokenReadFailed)
      | NotExist \<Rightarrow>
          if secret = [] \<and> rand = None then (d, Inl NoRandom)
          else
            let sec = (if secret = [] then hex_EncodeToString (the rand) else secret);
                tok = \<lparr>CAHash = want, Secret = sec\<rparr>;
                (d1, ok1) = WriteFile flt path (Token_String tok @ [CHR 0x0A]) d
            in if ok1 then (d1, Inr tok) else (d1, Inl TokenWriteFailed))"

text \<open>
  \<open>joinSecret\<close> of \<open>cmd/controller/main.go\<close>: the flag \<open>-token\<close> holds a bare secret or a
  full token.
\<close>

definition joinSecret :: "string \<Rightarrow> string" where
  "joinSecret flagValue = (case ParseToken flagValue of
     Inr tok \<Rightarrow> Secret tok | Inl _ \<Rightarrow> TrimSpace flagValue)"

text \<open>Documented facts about the libraries: PEM and PKCS#8 round trips, the length of a SHA-256 sum.\<close>

definition crypto_laws :: "('c, 'k, 'p, 'r) crypto \<Rightarrow> bool" where
  "crypto_laws L \<longleftrightarrow>
     (\<forall>ty bytes. pem_Decode L (pem_Encode L ty bytes) = Some (ty, bytes)) \<and>
     (\<forall>key der. x509_MarshalPKCS8 L key = Some der \<longrightarrow> x509_ParsePKCS8 L der = Some key \<and> key_Signs L key) \<and>
     (\<forall>tmpl iss pub key der. x509_CreateCertificate L tmpl iss pub key = Some der \<longrightarrow>
        x509_ParseCertificate L der \<noteq> None) \<and>
     (\<forall>bytes. length (sha256_Sum L bytes) = 32)"

section \<open>Identities are unambiguous\<close>

lemma NodeIDFromCN_eq: "NodeIDFromCN cn = i \<and> i \<noteq> [] \<longleftrightarrow> cn = NodeCN i \<and> i \<noteq> []"
proof (intro iffI; elim conjE)
  assume "NodeIDFromCN cn = i" "i \<noteq> []"
  then have "take (length nodePrefix) cn = nodePrefix" "drop (length nodePrefix) cn = i"
    by (auto simp: NodeIDFromCN_def split: if_splits)
  then show "cn = NodeCN i \<and> i \<noteq> []"
    using \<open>i \<noteq> []\<close> by (metis NodeCN_def append_take_drop_id)
next
  assume "cn = NodeCN i" "i \<noteq> []"
  then show "NodeIDFromCN cn = i \<and> i \<noteq> []"
    by (simp add: NodeIDFromCN_def NodeCN_def)
qed

lemma NodeIDFromCN_Admin [simp]: "NodeIDFromCN AdminCN = []"
  by (simp add: NodeIDFromCN_def AdminCN_def nodePrefix_def)

lemma NodeIDFromCN_Nil [simp]: "NodeIDFromCN [] = []"
  by (simp add: NodeIDFromCN_def)

text \<open>
  The identity in a certificate is unambiguous: a CommonName carries node ID \<open>i\<close> exactly
  when it is \<open>NodeCN i\<close>, so different nodes have different names, and the admin's name, like
  the empty one, is no node's.
\<close>

theorem node_identity:
  "(\<forall>i cn. i \<noteq> [] \<longrightarrow> (NodeIDFromCN cn = i \<longleftrightarrow> cn = NodeCN i)) \<and>
    (\<forall>cn. NodeIDFromCN cn = [] \<longleftrightarrow> (\<nexists>i. i \<noteq> [] \<and> cn = NodeCN i)) \<and>
    NodeIDFromCN AdminCN = [] \<and> NodeIDFromCN [] = []"
  using NodeIDFromCN_eq by (intro conjI allI) (metis, metis, simp_all)

section \<open>Tokens\<close>

lemma length_hex [simp]: "length (hex_EncodeToString bs) = 2 * length bs"
  by (induction bs) (simp_all add: hex_EncodeToString_def)

lemma is_hex_digit: "n < 16 \<Longrightarrow> is_hex (hex_digit n)"
proof -
  assume "n < 16"
  then have "hex_digit n \<in> set ''0123456789abcdef''"
    unfolding hex_digit_def by (intro nth_mem) simp
  then show ?thesis by (auto simp: is_hex_def)
qed

lemma hex_ok: "hex_DecodeString_ok (hex_EncodeToString bs)"
proof -
  have "unat (b :: 8 word) div 16 < 16" for b
    using unsigned_less [of b] by (intro less_mult_imp_div_less) simp
  then have "list_all is_hex (hex_EncodeToString bs)"
    by (auto simp: hex_EncodeToString_def list_all_iff is_hex_digit)
  then show ?thesis by (simp add: hex_DecodeString_ok_def)
qed

lemma not_hex [simp]: "\<not> is_hex (CHR '':'')" "\<not> is_hex (CHR '' '')" "\<not> is_hex (CHR 0x0A)"
  by (simp_all add: is_hex_def)

definition token_ok :: "token \<Rightarrow> bool" where
  "token_ok t \<longleftrightarrow> length (CAHash t) = 64 \<and> hex_DecodeString_ok (CAHash t) \<and> Secret t \<noteq> []"

lemma dropWhile_append_all: "(\<forall>x \<in> set xs. P x) \<Longrightarrow> dropWhile P (xs @ ys) = dropWhile P ys"
  by (induction xs) auto

lemma TrimSpace_padded:
  assumes "\<forall>c \<in> set l. is_space c" "\<forall>c \<in> set r. is_space c"
  shows "TrimSpace (l @ s @ r) = TrimSpace s"
proof (cases "\<forall>c \<in> set s. is_space c")
  case True
  then have "dropWhile is_space (l @ s @ r) = []" "dropWhile is_space s = []"
    using assms by (auto simp: dropWhile_eq_Nil_conv)
  then show ?thesis unfolding TrimSpace_def by (simp only: rev.simps dropWhile.simps)
next
  case False
  then have "dropWhile is_space (l @ s @ r) = dropWhile is_space s @ r"
    using assms(1) by (simp add: dropWhile_append_all dropWhile_append1) (metis dropWhile_append1)
  with assms(2) show ?thesis by (simp add: TrimSpace_def dropWhile_append_all)
qed

lemma ParseToken_String:
  assumes "token_ok t" "\<not> is_space (last (Secret t))"
    and "\<forall>c \<in> set l. is_space c" "\<forall>c \<in> set r. is_space c"
  shows "ParseToken (l @ Token_String t @ r) = Inr t"
proof -
  have "TrimSpace (Token_String t) = Token_String t"
    using assms by (intro TrimSpace_id) (auto simp: Token_String_def tokenPrefix_def token_ok_def is_space_def)
  then have "TrimSpace (l @ Token_String t @ r) = tokenPrefix @ CAHash t @ ''::'' @ Secret t"
    using assms by (simp only: TrimSpace_padded Token_String_def)
  moreover have "Cut (CAHash t @ ''::'' @ Secret t) ''::'' = Some (CAHash t, Secret t)"
  proof (rule Cut_first)
    show "hd ''::'' \<notin> set (CAHash t)"
      using assms(1) by (auto simp: token_ok_def hex_DecodeString_ok_def list_all_iff)
  qed simp
  ultimately show ?thesis
    using assms(1) by (simp add: ParseToken_def CutPrefix_def token_ok_def)
qed

lemma ParseToken_ok:
  assumes "ParseToken raw = Inr t"
  shows "token_ok t \<and> TrimSpace raw = Token_String t"
proof -
  obtain rest where p: "CutPrefix (TrimSpace raw) tokenPrefix = Some rest"
    and c: "Cut rest ''::'' = Some (CAHash t, Secret t)" and ok: "token_ok t"
    using assms by (auto simp: ParseToken_def token_ok_def split: option.splits prod.splits if_splits)
  from Cut_Some [OF c] p ok show ?thesis by (simp add: CutPrefix_Some Token_String_def)
qed

text \<open>
  C20: Printing and parsing a join token are inverse: a token with a hash of 64 hex digits and
  a secret that is not empty and does not end in white space survives \<open>String\<close> and
  \<open>ParseToken\<close>, white space around it included; and whatever \<open>ParseToken\<close> accepts is, up
  to that white space, the printed form of the token it returns.
\<close>

theorem token_roundtrip:
  "(token_ok t \<and> \<not> is_space (last (Secret t)) \<and> set l \<subseteq> {c. is_space c} \<and>
      set r \<subseteq> {c. is_space c} \<longrightarrow> ParseToken (l @ Token_String t @ r) = Inr t) \<and>
    (ParseToken raw = Inr t \<longrightarrow> token_ok t \<and> TrimSpace raw = Token_String t)"
  by (auto intro: ParseToken_String dest: ParseToken_ok)

section \<open>Loading and creating\<close>

lemma Fingerprint_ok:
  assumes "crypto_laws L"
  shows "length (Fingerprint L pem) = 64" "hex_DecodeString_ok (Fingerprint L pem)"
  using assms by (simp_all add: Fingerprint_def hex_ok crypto_laws_def)

lemma hex_last: "bs \<noteq> [] \<Longrightarrow> \<not> is_space (last (hex_EncodeToString bs))"
proof -
  assume "bs \<noteq> []"
  then have "last (hex_EncodeToString bs) \<in> set (hex_EncodeToString bs)"
    by (intro last_in_set) (metis length_hex length_0_conv mult_eq_0_iff zero_neq_numeral)
  then have "is_hex (last (hex_EncodeToString bs))"
    using hex_ok [of bs] by (simp add: hex_DecodeString_ok_def list_all_iff)
  then show ?thesis by (auto simp: is_hex_def is_space_def)
qed

lemma LoadOrCreateToken_again:
  assumes "crypto_laws L"
    and "LoadOrCreateToken L rand flt path ca secret d = (d1, Inr t)"
    and "\<And>bs. rand = Some bs \<Longrightarrow> length bs = 32"
    and "secret \<noteq> [] \<Longrightarrow> \<not> is_space (last secret)"
  shows "os_ReadFile d1 path \<noteq> NotExist \<and> os_ReadFile d1 path \<noteq> ReadError \<and>
    (\<forall>bytes. os_ReadFile d1 path = Contents bytes \<longrightarrow> ParseToken bytes = Inr t) \<and>
    CAHash t = Fingerprint L (ca_PEM ca) \<and> (secret \<noteq> [] \<longrightarrow> secret = Secret t)"
proof (cases "os_ReadFile d path")
  case (Contents bytes)
  with assms(2) show ?thesis
    by (auto simp: LoadOrCreateToken_def Let_def split: sum.splits if_splits)
next
  case NotExist
  let ?sec = "if secret = [] then hex_EncodeToString (the rand) else secret"
  have t: "t = \<lparr>CAHash = Fingerprint L (ca_PEM ca), Secret = ?sec\<rparr>"
    and d1: "d1 = fst (WriteFile flt path (Token_String t @ [CHR 0x0A]) d)"
    and ok: "snd (WriteFile flt path (Token_String t @ [CHR 0x0A]) d)"
    and r: "secret = [] \<Longrightarrow> rand \<noteq> None"
    using NotExist assms(2)
    by (auto simp: LoadOrCreateToken_def Let_def split: if_splits prod.splits)
  have "?sec \<noteq> [] \<and> \<not> is_space (last ?sec)"
  proof (cases "secret = []")
    case True
    then obtain bs where bs: "rand = Some bs" "length bs = 32" using r assms(3) by auto
    then have "length (hex_EncodeToString bs) = 64" "bs \<noteq> []" by auto
    with True bs show ?thesis by (metis hex_last length_0_conv option.sel zero_neq_numeral)
  next
    case False
    with assms(4) show ?thesis by simp
  qed
  then have "ParseToken (Token_String t @ [CHR 0x0A]) = Inr t"
    using ParseToken_String [of t "[]" "[CHR 0x0A]"] Fingerprint_ok [OF assms(1)]
    by (simp add: t token_ok_def is_space_def)
  moreover have "os_ReadFile d1 path = Contents (Token_String t @ [CHR 0x0A])"
    using WriteFile_lookup(1) [OF ok] by (simp add: d1 os_ReadFile_def)
  ultimately show ?thesis by (simp add: t)
next
  case ReadError
  with assms(2) show ?thesis by (simp add: LoadOrCreateToken_def Let_def)
qed

lemma last_TrimSpace: "TrimSpace s \<noteq> [] \<Longrightarrow> \<not> is_space (last (TrimSpace s))"
  by (simp add: TrimSpace_def last_rev hd_dropWhile)

lemma joinSecret_trimmed: "joinSecret flag \<noteq> [] \<Longrightarrow> \<not> is_space (last (joinSecret flag))"
proof (cases "ParseToken flag")
  case (Inl e)
  then show "joinSecret flag \<noteq> [] \<Longrightarrow> \<not> is_space (last (joinSecret flag))"
    by (simp add: joinSecret_def last_TrimSpace)
next
  case (Inr t)
  then have "token_ok t" "TrimSpace flag = Token_String t" using ParseToken_ok by auto
  then show "joinSecret flag \<noteq> [] \<Longrightarrow> \<not> is_space (last (joinSecret flag))"
    using last_TrimSpace [of flag] Inr by (simp add: joinSecret_def Token_String_def token_ok_def)
qed

lemma joinSecret_String: "token_ok t \<Longrightarrow> \<not> is_space (last (Secret t)) \<Longrightarrow> joinSecret (Token_String t) = Secret t"
  using ParseToken_String [of t "[]" "[]"] by (simp add: joinSecret_def)

text \<open>
  The join token survives restarts: once the controller, started with some \<open>-token\<close> flag,
  has loaded or created its token, every later start on that disk with the same CA loads the
  same token and writes nothing, whether its flag is empty, the same as before, or the full
  token.
\<close>

theorem LoadOrCreateToken_stable:
  assumes "crypto_laws L"
    and "LoadOrCreateToken L rand flt path ca (joinSecret flag) d = (d1, Inr t)"
    and "\<And>bs. rand = Some bs \<Longrightarrow> length bs = 32"
    and "flag' = [] \<or> flag' = flag \<or> flag' = Token_String t \<and> \<not> is_space (last (Secret t))"
  shows "LoadOrCreateToken L rand' flt' path ca (joinSecret flag') d1 = (d1, Inr t)"
proof -
  note again = LoadOrCreateToken_again [OF assms(1-3) joinSecret_trimmed]
  obtain bytes where bytes: "os_ReadFile d1 path = Contents bytes" "ParseToken bytes = Inr t"
    using again by (cases "os_ReadFile d1 path") auto
  have "joinSecret [] = []" by code_simp
  moreover have "token_ok t" using ParseToken_ok [OF bytes(2)] by simp
  ultimately have "joinSecret flag' = [] \<or> joinSecret flag' = Secret t"
    using assms(4) again joinSecret_String by metis
  with bytes again show ?thesis by (auto simp: LoadOrCreateToken_def Let_def)
qed

lemma Parse_Encode:
  assumes "crypto_laws L"
  shows "ParseCert L (EncodeCert L der) = x509_ParseCertificate L der"
    and "EncodeKey L key = Some keyPEM \<Longrightarrow> ParseKey L keyPEM = Some key"
  using assms by (auto simp: crypto_laws_def ParseCert_def EncodeCert_def ParseKey_def EncodeKey_def)

lemma LoadOrCreateCA_created:
  assumes "LoadOrCreateCA L sn now newKey kflt cflt dir d = (d1, Inr ca)"
    and "os_ReadFile d (dir @ ''/ca.crt'') = NotExist"
  obtains key der keyPEM iss tmpl where "ca = \<lparr>ca_Cert = x509_ParseCertificate L der, ca_Key = key, ca_PEM = EncodeCert L der\<rparr>"
    "x509_CreateCertificate L tmpl iss (key_Public L key) key = Some der" "EncodeKey L key = Some keyPEM"
    "os_ReadFile d1 (dir @ ''/ca.crt'') = Contents (EncodeCert L der)"
    "os_ReadFile d1 (dir @ ''/ca.key'') = Contents keyPEM"
proof -
  obtain key der keyPEM tmpl where
    ca: "ca = \<lparr>ca_Cert = x509_ParseCertificate L der, ca_Key = key, ca_PEM = EncodeCert L der\<rparr>"
    and cr: "x509_CreateCertificate L tmpl SelfSigned (key_Public L key) key = Some der"
    and ek: "EncodeKey L key = Some keyPEM"
    and ok1: "snd (WriteFile kflt (dir @ ''/ca.key'') keyPEM d)"
    and ok2: "snd (WriteFile cflt (dir @ ''/ca.crt'') (EncodeCert L der)
      (fst (WriteFile kflt (dir @ ''/ca.key'') keyPEM d)))"
    and d1: "d1 = fst (WriteFile cflt (dir @ ''/ca.crt'') (EncodeCert L der)
      (fst (WriteFile kflt (dir @ ''/ca.key'') keyPEM d)))"
    using assms
    by (auto simp: LoadOrCreateCA_def ca_paths_def Let_def split: read.splits if_splits option.splits prod.splits)
  note cert = WriteFile_lookup(1) [OF ok2] and key = WriteFile_lookup(1) [OF ok1]
  have "fmlookup d1 (dir @ ''/ca.key'') = Some (Plain keyPEM)"
    unfolding d1 by (subst WriteFile_lookup(3)) (simp_all add: tmp_path_def key)
  with cert show thesis
    by (intro that [OF ca cr ek]) (simp_all add: os_ReadFile_def d1)
qed

text \<open>Where the CA is read from the disk, and that it is read the same again.\<close>

lemma LoadOrCreateCA_keep:
  "os_ReadFile d (dir @ ''/ca.crt'') \<noteq> NotExist \<Longrightarrow> fst (LoadOrCreateCA L sn now newKey kflt cflt dir d) = d"
  by (auto simp: LoadOrCreateCA_def ca_paths_def Let_def split: read.splits option.splits)

lemma LoadOrCreateCA_files:
  assumes "crypto_laws L" "LoadOrCreateCA L sn now newKey kflt cflt dir d = (d1, Inr ca)"
  obtains keyPEM cert where "os_ReadFile d1 (dir @ ''/ca.crt'') = Contents (ca_PEM ca)"
    "os_ReadFile d1 (dir @ ''/ca.key'') = Contents keyPEM" "ParseCert L (ca_PEM ca) = Some cert" "ca_Cert ca = Some cert"
    "ParseKey L keyPEM = Some (ca_Key ca)"
proof (cases "os_ReadFile d (dir @ ''/ca.crt'') = NotExist")
  case True
  obtain key der keyPEM iss tmpl where
    ca: "ca = \<lparr>ca_Cert = x509_ParseCertificate L der, ca_Key = key, ca_PEM = EncodeCert L der\<rparr>"
    and cr: "x509_CreateCertificate L tmpl iss (key_Public L key) key = Some der"
    and ek: "EncodeKey L key = Some keyPEM"
    and rd: "os_ReadFile d1 (dir @ ''/ca.crt'') = Contents (EncodeCert L der)"
      "os_ReadFile d1 (dir @ ''/ca.key'') = Contents keyPEM"
    using LoadOrCreateCA_created [OF assms(2) True] .
  obtain cert where "x509_ParseCertificate L der = Some cert"
    using assms(1) cr unfolding crypto_laws_def by blast
  with rd show thesis
    by (intro that [of keyPEM cert]) (simp_all add: ca Parse_Encode(1) [OF assms(1)] Parse_Encode(2) [OF assms(1) ek])
next
  case False
  then have d1: "d1 = d" using LoadOrCreateCA_keep [OF False] assms(2) by (metis fst_conv)
  obtain certPEM keyPEM cert key where "os_ReadFile d (dir @ ''/ca.crt'') = Contents certPEM"
      "os_ReadFile d (dir @ ''/ca.key'') = Contents keyPEM" "ParseCert L certPEM = Some cert" "ParseKey L keyPEM = Some key"
      "ca = \<lparr>ca_Cert = Some cert, ca_Key = key, ca_PEM = certPEM\<rparr>"
    using assms(2) False
    by (auto simp: LoadOrCreateCA_def ca_paths_def Let_def split: read.splits option.splits)
  then show thesis by (intro that [of keyPEM cert]) (simp_all add: d1)
qed

lemma LoadOrCreateCA_again:
  assumes "os_ReadFile d (dir @ ''/ca.crt'') = Contents (ca_PEM ca)" "os_ReadFile d (dir @ ''/ca.key'') = Contents keyPEM"
    and "ParseCert L (ca_PEM ca) = Some cert" "ca_Cert ca = Some cert" "ParseKey L keyPEM = Some (ca_Key ca)"
  shows "LoadOrCreateCA L sn now newKey kflt cflt dir d = (d, Inr ca)"
  using assms by (simp add: LoadOrCreateCA_def ca_paths_def)

text \<open>
  The CA that the join tokens pin never changes: once \<open>LoadOrCreateCA\<close> has returned a CA,
  every later call on that disk returns the same one and writes nothing. A CA that is half
  present, one of its two files missing or unreadable, is refused and the disk is left
  alone; in particular an existing certificate is never replaced.
\<close>

theorem LoadOrCreateCA_stable:
  assumes "crypto_laws L"
  shows "(LoadOrCreateCA L sn now newKey kflt cflt dir d = (d1, Inr ca) \<longrightarrow>
      LoadOrCreateCA L sn' now' newKey' kflt' cflt' dir d1 = (d1, Inr ca)) \<and>
    ((os_ReadFile d (dir @ ''/ca.crt'') = NotExist) \<noteq> (os_ReadFile d (dir @ ''/ca.key'') = NotExist) \<longrightarrow>
      LoadOrCreateCA L sn now newKey kflt cflt dir d = (d, Inl HalfPresent)) \<and>
    (os_ReadFile d (dir @ ''/ca.crt'') \<noteq> NotExist \<longrightarrow>
      fst (LoadOrCreateCA L sn now newKey kflt cflt dir d) = d)"
proof (intro conjI impI)
  show "LoadOrCreateCA L sn now newKey kflt cflt dir d = (d, Inl HalfPresent)"
    if "(os_ReadFile d (dir @ ''/ca.crt'') = NotExist) \<noteq> (os_ReadFile d (dir @ ''/ca.key'') = NotExist)"
    using that by (auto simp: LoadOrCreateCA_def ca_paths_def Let_def split: read.splits)
  show "fst (LoadOrCreateCA L sn now newKey kflt cflt dir d) = d" if "os_ReadFile d (dir @ ''/ca.crt'') \<noteq> NotExist"
    using that by (rule LoadOrCreateCA_keep)
  assume run: "LoadOrCreateCA L sn now newKey kflt cflt dir d = (d1, Inr ca)"
  show "LoadOrCreateCA L sn' now' newKey' kflt' cflt' dir d1 = (d1, Inr ca)"
    by (rule LoadOrCreateCA_files [OF assms run]) (rule LoadOrCreateCA_again)
qed

text \<open>
  A node certificate carries the identity the caller of \<open>SignNodeCSR\<close> asked for and
  nothing else of the request but its public key: it is issued by the CA, for client
  authentication only, to \<open>NodeCN nodeID\<close>, whatever subject the request names; and only
  for a well-formed request whose signature verifies.
\<close>

theorem SignNodeCSR_identity:
  assumes "SignNodeCSR L sn now ca nodeID csrPEM = Some pem"
  shows "\<exists>bytes csr der tmpl. pem_Decode L csrPEM = Some (''CERTIFICATE REQUEST'', bytes) \<and>
    x509_ParseCSR L bytes = Some csr \<and> csr_CheckSignature L csr \<and>
    x509_CreateCertificate L tmpl (Issuer (ca_Cert ca)) (csr_PublicKey L csr) (ca_Key ca) = Some der \<and>
    pem = pem_Encode L ''CERTIFICATE'' der \<and>
    SubjectCN tmpl = NodeCN nodeID \<and> ExtKeyUsage tmpl = [ClientAuth] \<and> \<not> IsCA tmpl \<and>
    NotBefore tmpl < now \<and> now < NotAfter tmpl"
  using assms
  by (fastforce simp: SignNodeCSR_def ClientCert_def EncodeCert_def clockSkewSlack_def leafValidity_def
      split: option.splits prod.splits if_splits)

end
