(* ===== verification/Http.thy ===== *)
theory Http
  imports Store_Contract Json Pki
begin

text \<open>
  The HTTP API of the controller: routing (\<open>http.go\<close>), authentication (\<open>auth.go\<close>), request
  and response bodies (\<open>respond.go\<close>) and every handler (\<open>handlers.go\<close>). A request is its
  method, path, \<open>Authorization\<close> header, verified certificate chains (each certificate by its
  CommonName) and body; a handler takes the store's method table and returns the store's
  state and the response. The theorems say who may change what.
\<close>

section \<open>Requests and responses\<close>

record http_request =
  req_method :: string
  req_path :: string
  req_authorization :: string
  \<comment> \<open>\<open>r.TLS\<close>: \<open>None\<close> for nil, else \<open>VerifiedChains\<close>.\<close>
  req_chains :: "string list list option"
  \<comment> \<open>The first JSON value of the body; \<open>None\<close> when the body does not start with one.\<close>
  req_body :: "json option"

text \<open>The text of an error that a library words is not modelled.\<close>

datatype resp_body = NoBody | Text string | LibraryError | JsonBody json | PemBody string | Location string

record http_response =
  resp_status :: nat
  resp_body :: resp_body

definition http_Error :: "string \<Rightarrow> nat \<Rightarrow> http_response" where
  "http_Error msg code = \<lparr>resp_status = code, resp_body = Text msg\<rparr>"

definition http_NotFound :: http_response where
  "http_NotFound = http_Error ''404 page not found'' 404"

definition writeJSON :: "nat \<Rightarrow> json \<Rightarrow> http_response" where
  "writeJSON code payload = \<lparr>resp_status = code, resp_body = JsonBody payload\<rparr>"

text \<open>\<open>decodeJSON\<close>: the decoder rejects unknown fields and reads into a zero value.\<close>

definition decodeJSON :: "'a decoder \<Rightarrow> 'a \<Rightarrow> http_request \<Rightarrow> http_response + 'a" where
  "decodeJSON d z r = (case req_body r of
     None \<Rightarrow> Inl \<lparr>resp_status = 400, resp_body = LibraryError\<rparr>
   | Some j \<Rightarrow> (case d j z of
       None \<Rightarrow> Inl \<lparr>resp_status = 400, resp_body = LibraryError\<rparr>
     | Some x \<Rightarrow> Inr x))"

definition method_not_allowed :: http_response where
  "method_not_allowed = http_Error ''method not allowed'' 405"

section \<open>Handlers\<close>

type_synonym 's handler = "http_request \<Rightarrow> 's \<Rightarrow> 's \<times> http_response"

definition handleServices :: "'s store_iface \<Rightarrow> 's handler" where
  "handleServices I r st =
     (if req_method r = ''GET'' then
        if req_path r \<noteq> ''/services'' then (st, http_NotFound)
        else (st, writeJSON 200 (JArr (map enc_service (op_ListServices I st))))
      else if req_method r = ''POST'' then
        if req_path r \<noteq> ''/services'' then (st, http_NotFound)
        else (case decodeJSON (dec_service True) zero_service r of
          Inl err \<Rightarrow> (st, err)
        | Inr v \<Rightarrow>
            if service_name v = [] \<or> service_image v = []
            then (st, http_Error ''service name and image are required'' 400)
            else
              let v1 = (if service_replicas v <=s 0 then v\<lparr>service_replicas := 1\<rparr> else v);
                  v2 = v1\<lparr>service_st := (service_st v1)\<lparr>desired_replicas := service_replicas v1\<rparr>\<rparr>
              in (op_UpsertService I v2 st, writeJSON 201 (enc_service v2)))
      else if req_method r = ''DELETE'' then
        let name = TrimPrefix (req_path r) ''/services/''
        in if name = [] \<or> Contains name ''/'' then (st, http_Error ''service name required'' 400)
           else
             let (st1, found) = op_DeleteService I name st
             in if \<not> found then (st1, http_Error ''service not found'' 404)
                else (st1, \<lparr>resp_status = 204, resp_body = NoBody\<rparr>)
      else (st, method_not_allowed))"

definition handleJobs :: "'s store_iface \<Rightarrow> 's handler" where
  "handleJobs I r st =
     (if req_method r = ''GET'' then
        if req_path r \<noteq> ''/jobs'' then (st, http_NotFound)
        else (st, writeJSON 200 (JArr (map enc_job (op_ListJobs I st))))
      else if req_method r = ''POST'' then
        if req_path r \<noteq> ''/jobs'' then (st, http_NotFound)
        else (case decodeJSON (dec_job True) zero_job r of
          Inl err \<Rightarrow> (st, err)
        | Inr j \<Rightarrow>
            if job_name j = [] \<or> job_image j = []
            then (st, http_Error ''job name and image are required'' 400)
            else (op_UpsertJob I j st, writeJSON 201 (enc_job j)))
      else if req_method r = ''DELETE'' then
        let name = TrimPrefix (req_path r) ''/jobs/''
        in if name = [] \<or> Contains name ''/'' then (st, http_Error ''job name required'' 400)
           else
             let (st1, found) = op_DeleteJob I name st
             in if \<not> found then (st1, http_Error ''job not found'' 404)
                else (st1, \<lparr>resp_status = 204, resp_body = NoBody\<rparr>)
      else (st, method_not_allowed))"

definition handleNodes :: "'s store_iface \<Rightarrow> 's handler" where
  "handleNodes I r st =
     (if req_method r \<noteq> ''GET'' then (st, method_not_allowed)
      else (st, writeJSON 200 (JArr (map enc_node (op_ListNodes I st)))))"

definition handleNodeRegister :: "'s store_iface \<Rightarrow> time \<Rightarrow> string \<Rightarrow> 's handler" where
  "handleNodeRegister I now caller r st =
     (if req_method r \<noteq> ''POST'' then (st, method_not_allowed)
      else case decodeJSON (dec_node True) zero_node r of
        Inl err \<Rightarrow> (st, err)
      | Inr n \<Rightarrow>
          if node_ID n \<noteq> caller then (st, http_Error ''a node can only register itself'' 403)
          else
            let n1 = n\<lparr>last_heartbeat := now\<rparr>
            in (op_UpsertNode I n1 st, writeJSON 201 (enc_node n1)))"

record id_payload =
  pl_id :: string

definition dec_id_payload :: "bool \<Rightarrow> id_payload decoder" where
  "dec_id_payload strict = dec_struct strict [(''id'', at_field pl_id pl_id_update dec_str)]"

definition handleNodeHeartbeat :: "'s store_iface \<Rightarrow> time \<Rightarrow> string \<Rightarrow> 's handler" where
  "handleNodeHeartbeat I now caller r st =
     (if req_method r \<noteq> ''POST'' then (st, method_not_allowed)
      else case decodeJSON (dec_id_payload True) \<lparr>pl_id = []\<rparr> r of
        Inl err \<Rightarrow> (st, err)
      | Inr p \<Rightarrow>
          if pl_id p \<noteq> caller then (st, http_Error ''a node can only heartbeat for itself'' 403)
          else
            let (st1, found) = op_TouchNode I (pl_id p) now st
            in if \<not> found then (st1, http_Error ''node not found'' 404)
               else (st1, writeJSON 200 (JObj [(''status'', JStr ''ok'')])))"

definition handleNodeAssignments :: "'s store_iface \<Rightarrow> string \<Rightarrow> 's handler" where
  "handleNodeAssignments I caller r st =
     (if req_method r \<noteq> ''GET'' then (st, method_not_allowed)
      else if \<not> HasSuffix (req_path r) ''/assignments'' then (st, http_NotFound)
      else
        let trimmed = TrimPrefix (TrimSuffix (req_path r) ''/assignments'') ''/nodes/''
        in if trimmed = [] then (st, http_NotFound)
           else if trimmed \<noteq> caller
           then (st, http_Error ''a node can only read its own assignments'' 403)
           else (st, writeJSON 200 (JArr (map enc_assignment
                  (filter (\<lambda>a. IsActivePhase (asg_phase a)) (op_ListNodeAssignments I trimmed st))))))"

record status_payload =
  pl_phase :: assignment_phase
  pl_message :: string

definition dec_status_payload :: "bool \<Rightarrow> status_payload decoder" where
  "dec_status_payload strict = dec_struct strict
     [(''phase'', at_field pl_phase pl_phase_update dec_phase),
      (''message'', at_field pl_message pl_message_update dec_str)]"

fun isAgentReportablePhase :: "assignment_phase \<Rightarrow> bool" where
  "isAgentReportablePhase Running = True"
| "isAgentReportablePhase Succeeded = True"
| "isAgentReportablePhase Failed = True"
| "isAgentReportablePhase Stopped = True"
| "isAgentReportablePhase _ = False"

definition ownsAssignment :: "'s store_iface \<Rightarrow> 's \<Rightarrow> string \<Rightarrow> string \<Rightarrow> bool" where
  "ownsAssignment I st nodeID assignmentID \<longleftrightarrow>
     list_ex (\<lambda>a. asg_ID a = assignmentID) (op_ListNodeAssignments I nodeID st)"

definition handleAssignmentStatus :: "'s store_iface \<Rightarrow> time \<Rightarrow> string \<Rightarrow> 's handler" where
  "handleAssignmentStatus I now caller r st =
     (if req_method r \<noteq> ''POST'' then (st, method_not_allowed)
      else if \<not> HasSuffix (req_path r) ''/status'' then (st, http_NotFound)
      else
        let trimmed = TrimPrefix (TrimSuffix (req_path r) ''/status'') ''/assignments/''
        in if trimmed = [] then (st, http_NotFound)
           else case decodeJSON (dec_status_payload True) \<lparr>pl_phase = OtherPhase [], pl_message = []\<rparr> r of
             Inl err \<Rightarrow> (st, err)
           | Inr p \<Rightarrow>
               if \<not> isAgentReportablePhase (pl_phase p)
               then (st, http_Error ''agents may report Running, Succeeded, Failed or Stopped'' 400)
               else if \<not> ownsAssignment I st caller trimmed
               then (st, http_Error ''assignment not found on this node'' 404)
               else case op_UpdateAssignmentStatus I trimmed (pl_phase p) (pl_message p) now st of
                 (st1, None) \<Rightarrow> (st1, http_Error ''assignment not found'' 404)
               | (st1, Some a) \<Rightarrow> (st1, writeJSON 200 (enc_assignment a)))"

definition handleState :: "'s store_iface \<Rightarrow> 's handler" where
  "handleState I r st =
     (if req_method r \<noteq> ''GET'' then (st, method_not_allowed)
      else (st, writeJSON 200 (enc_snapshot (op_Snapshot I st))))"

section \<open>Authentication\<close>

record ('c, 'k) auth =
  auth_CA :: "('c, 'k) ca"
  JoinSecret :: string

definition callerCN :: "http_request \<Rightarrow> string" where
  "callerCN r = (case req_chains r of Some ((cn # _) # _) \<Rightarrow> cn | _ \<Rightarrow> [])"

definition adminOnly :: "'s handler \<Rightarrow> 's handler" where
  "adminOnly next r st =
     (if callerCN r = AdminCN then next r st
      else if callerCN r = [] then (st, http_Error ''client certificate required'' 401)
      else (st, http_Error ''admin only'' 403))"

definition nodeOnly :: "(string \<Rightarrow> 's handler) \<Rightarrow> 's handler" where
  "nodeOnly next r st =
     (let cn = callerCN r; nodeID = NodeIDFromCN cn
      in if nodeID \<noteq> [] then next nodeID r st
         else if cn = [] then (st, http_Error ''client certificate required'' 401)
         else (st, http_Error ''node credentials required'' 403))"

definition handleCACerts :: "('c, 'k) auth \<Rightarrow> 's handler" where
  "handleCACerts au r st =
     (if req_method r \<noteq> ''GET'' then (st, method_not_allowed)
      else (st, \<lparr>resp_status = 200, resp_body = PemBody (ca_PEM (auth_CA au))\<rparr>))"

record join_payload =
  pl_node_id :: string
  pl_csr :: string

definition dec_join_payload :: "bool \<Rightarrow> join_payload decoder" where
  "dec_join_payload strict = dec_struct strict
     [(''nodeId'', at_field pl_node_id pl_node_id_update dec_str),
      (''csr'', at_field pl_csr pl_csr_update dec_str)]"

text \<open>The regular expression \<open>^[a-z0-9]([a-z0-9.-]{0,61}[a-z0-9])?$\<close>.\<close>

definition lower_alnum :: "char \<Rightarrow> bool" where
  "lower_alnum c \<longleftrightarrow> (let n = of_char c :: nat in (97 \<le> n \<and> n \<le> 122) \<or> (48 \<le> n \<and> n \<le> 57))"

definition validNodeID :: "string \<Rightarrow> bool" where
  "validNodeID s \<longleftrightarrow> s \<noteq> [] \<and> length s \<le> 63 \<and> lower_alnum (hd s) \<and> lower_alnum (last s) \<and>
     list_all (\<lambda>c. lower_alnum c \<or> c = CHR ''.'' \<or> c = CHR ''-'') s"

definition handleJoin :: "('c, 'k, 'p, 'r) crypto \<Rightarrow> int \<Rightarrow> time \<Rightarrow> ('c, 'k) auth \<Rightarrow> 's handler" where
  "handleJoin L sn now au r st =
     (if req_method r \<noteq> ''POST'' then (st, method_not_allowed)
      else if CutPrefix (req_authorization r) ''Bearer '' \<noteq> Some (JoinSecret au)
      then (st, http_Error ''invalid join token'' 401)
      else case decodeJSON (dec_join_payload True) \<lparr>pl_node_id = [], pl_csr = []\<rparr> r of
        Inl err \<Rightarrow> (st, err)
      | Inr p \<Rightarrow>
          if \<not> validNodeID (pl_node_id p)
          then (st, http_Error ''node id must be a lowercase DNS label'' 400)
          else case SignNodeCSR L sn now (auth_CA au) (pl_node_id p) (pl_csr p) of
            None \<Rightarrow> (st, \<lparr>resp_status = 400, resp_body = LibraryError\<rparr>)
          | Some cert \<Rightarrow> (st, writeJSON 200 (JObj [(''cert'', JStr cert)])))"

section \<open>Routing\<close>

text \<open>
  \<open>http.ServeMux\<close>: a request whose path is not in canonical form is redirected there;
  otherwise the longest registered pattern wins, where a pattern that ends in a slash
  matches every path below it; \<open>/assignments\<close>, which has no pattern of its own, is redirected to that
  of its subtree. The path is the decoded one.
\<close>

fun split_on :: "char \<Rightarrow> string \<Rightarrow> string list" where
  "split_on c [] = [[]]"
| "split_on c (x # xs) =
     (if x = c then [] # split_on c xs
      else case split_on c xs of [] \<Rightarrow> [[x]] | w # ws \<Rightarrow> (x # w) # ws)"

lemma split_on_append: "c \<notin> set w \<Longrightarrow> split_on c (w @ c # s) = w # split_on c s"
  and split_on_last: "c \<notin> set w \<Longrightarrow> split_on c w = [w]"
  by (induction w) auto

fun clean_segments :: "string list \<Rightarrow> string list \<Rightarrow> string list" where
  "clean_segments acc [] = rev acc"
| "clean_segments acc (w # ws) =
     (if w = [] \<or> w = ''.'' then clean_segments acc ws
      else if w = ''..'' then clean_segments (tl acc) ws
      else clean_segments (w # acc) ws)"

definition cleanPath :: "string \<Rightarrow> string" where
  "cleanPath p =
     (let np = concat (map (\<lambda>w. CHR ''/'' # w) (clean_segments [] (split_on (CHR ''/'') p)))
      in if np = [] then ''/'' else if HasSuffix p ''/'' then np @ ''/'' else np)"

definition dispatch ::
  "'s store_iface \<Rightarrow> ('c, 'k, 'p, 'r) crypto \<Rightarrow> int \<Rightarrow> time \<Rightarrow> ('c, 'k) auth \<Rightarrow> 's handler" where
  "dispatch I L sn now au r =
     (let p = req_path r in
      if p = ''/cacerts'' then handleCACerts au r
      else if p = ''/nodes/join'' then handleJoin L sn now au r
      else if p = ''/services'' then adminOnly (handleServices I) r
      else if HasPrefix p ''/services/'' then adminOnly (handleServices I) r
      else if p = ''/jobs'' then adminOnly (handleJobs I) r
      else if HasPrefix p ''/jobs/'' then adminOnly (handleJobs I) r
      else if p = ''/nodes'' then adminOnly (handleNodes I) r
      else if p = ''/state'' then adminOnly (handleState I) r
      else if p = ''/nodes/register'' then nodeOnly (handleNodeRegister I now) r
      else if p = ''/nodes/heartbeat'' then nodeOnly (handleNodeHeartbeat I now) r
      else if HasPrefix p ''/nodes/'' then nodeOnly (handleNodeAssignments I) r
      else if HasPrefix p ''/assignments/'' then nodeOnly (handleAssignmentStatus I now) r
      else if p = ''/assignments'' then (\<lambda>st. (st, \<lparr>resp_status = 307, resp_body = Location ''/assignments/''\<rparr>))
      else (\<lambda>st. (st, http_NotFound)))"

definition serve ::
  "'s store_iface \<Rightarrow> ('c, 'k, 'p, 'r) crypto \<Rightarrow> int \<Rightarrow> time \<Rightarrow> ('c, 'k) auth \<Rightarrow> 's handler" where
  "serve I L sn now au r st =
     (if req_method r \<noteq> ''CONNECT'' \<and> cleanPath (req_path r) \<noteq> req_path r
      then (st, \<lparr>resp_status = 307,
        resp_body = Location (if cleanPath (req_path r) = ''/assignments'' then ''/assignments/'' else cleanPath (req_path r))\<rparr>)
      else dispatch I L sn now au r st)"

section \<open>The effect of a request on the store\<close>

text \<open>
  Every change a request can make to a \<open>MemoryStore\<close>, with the identity it takes and what
  the handler has checked.
\<close>

inductive api_step :: "string \<Rightarrow> time \<Rightarrow> mem_store \<Rightarrow> mem_store \<Rightarrow> bool" for cn now where
  api_service: "cn = AdminCN \<Longrightarrow> service_name v \<noteq> [] \<Longrightarrow> service_image v \<noteq> [] \<Longrightarrow> 0 <s service_replicas v \<Longrightarrow>
    desired_replicas (service_st v) = service_replicas v \<Longrightarrow> api_step cn now s (UpsertService v s)"
| api_delete_service: "cn = AdminCN \<Longrightarrow> nm \<noteq> [] \<Longrightarrow> CHR ''/'' \<notin> set nm \<Longrightarrow>
    api_step cn now s (fst (DeleteService nm s))"
| api_job: "cn = AdminCN \<Longrightarrow> job_name j \<noteq> [] \<Longrightarrow> job_image j \<noteq> [] \<Longrightarrow> api_step cn now s (UpsertJob j s)"
| api_delete_job: "cn = AdminCN \<Longrightarrow> nm \<noteq> [] \<Longrightarrow> CHR ''/'' \<notin> set nm \<Longrightarrow>
    api_step cn now s (fst (DeleteJob nm s))"
| api_register: "cn = NodeCN (node_ID n) \<Longrightarrow> node_ID n \<noteq> [] \<Longrightarrow> last_heartbeat n = now \<Longrightarrow>
    api_step cn now s (UpsertNode n s)"
| api_heartbeat: "cn = NodeCN i \<Longrightarrow> i \<noteq> [] \<Longrightarrow> api_step cn now s (fst (TouchNode i now s))"
| api_status: "cn = NodeCN (asg_node a) \<Longrightarrow> asg_node a \<noteq> [] \<Longrightarrow> fmlookup (m_assignments s) i = Some a \<Longrightarrow>
    isAgentReportablePhase p \<Longrightarrow> api_step cn now s (fst (UpdateAssignmentStatus i p m now s))"

lemma ownsAssignment_iff:
  assumes "wf_store s"
  shows "ownsAssignment mem_iface s i k \<longleftrightarrow> (\<exists>a. fmlookup (m_assignments s) k = Some a \<and> asg_node a = i)"
proof -
  have "ownsAssignment mem_iface s i k \<longleftrightarrow> (\<exists>a \<in> set (ListNodeAssignments i s). asg_ID a = k)"
    by (simp add: ownsAssignment_def list_ex_iff)
  also have "\<dots> \<longleftrightarrow> (\<exists>a. fmlookup (m_assignments s) k = Some a \<and> asg_node a = i)"
    using assms by (metis mem_ListNodeAssignments wf_assignment)
  finally show ?thesis .
qed

lemma DeleteService_found: "\<not> snd (DeleteService nm s) \<Longrightarrow> fst (DeleteService nm s) = s"
  and DeleteJob_found: "\<not> snd (DeleteJob nm s) \<Longrightarrow> fst (DeleteJob nm s) = s"
  by (simp_all add: DeleteService_def DeleteJob_def split: if_splits)

lemma handleServices_step:
  "fst (handleServices mem_iface r s) = s \<or> api_step AdminCN now s (fst (handleServices mem_iface r s))"
  by (auto simp: handleServices_def Let_def split_beta Contains_char word_sless_alt word_sle_eq
      split: sum.split intro: api_service api_delete_service)

lemma handleJobs_step:
  "fst (handleJobs mem_iface r s) = s \<or> api_step AdminCN now s (fst (handleJobs mem_iface r s))"
  by (auto simp: handleJobs_def Let_def split_beta Contains_char split: sum.split
      intro: api_job api_delete_job)

lemma handleNodeRegister_step:
  "i \<noteq> [] \<Longrightarrow> fst (handleNodeRegister mem_iface now i r s) = s \<or>
    api_step (NodeCN i) now s (fst (handleNodeRegister mem_iface now i r s))"
  by (auto simp: handleNodeRegister_def Let_def split: sum.split intro!: api_register)

lemma handleNodeHeartbeat_step:
  "i \<noteq> [] \<Longrightarrow> fst (handleNodeHeartbeat mem_iface now i r s) = s \<or>
    api_step (NodeCN i) now s (fst (handleNodeHeartbeat mem_iface now i r s))"
  by (auto simp: handleNodeHeartbeat_def Let_def split_beta split: sum.split intro: api_heartbeat)

lemma handleAssignmentStatus_step:
  assumes "wf_store s" "i \<noteq> []"
  shows "fst (handleAssignmentStatus mem_iface now i r s) = s \<or>
    api_step (NodeCN i) now s (fst (handleAssignmentStatus mem_iface now i r s))"
proof -
  have "fst (handleAssignmentStatus mem_iface now i r s) = s \<or>
    (\<exists>k p m. fst (handleAssignmentStatus mem_iface now i r s) = fst (UpdateAssignmentStatus k p m now s) \<and>
      isAgentReportablePhase p \<and> ownsAssignment mem_iface s i k)"
    by (auto simp: handleAssignmentStatus_def Let_def split_beta split: sum.split option.split prod.splits)
  then show ?thesis
    using assms(2) by (auto simp: ownsAssignment_iff [OF assms(1)] intro: api_status)
qed

lemma read_only_handlers:
  "fst (handleNodes I r s) = s" "fst (handleState I r s) = s" "fst (handleNodeAssignments I i r s) = s"
  "fst (handleCACerts au r s) = s" "fst (handleJoin L sn now au r s) = s"
  by (simp_all add: handleNodes_def handleState_def handleNodeAssignments_def handleCACerts_def
      handleJoin_def Let_def split: sum.split option.split)

lemma adminOnly_step:
  assumes "fst (h r s) = s \<or> api_step AdminCN now s (fst (h r s))"
  shows "fst (adminOnly h r s) = s \<or> api_step (callerCN r) now s (fst (adminOnly h r s))"
  using assms by (auto simp: adminOnly_def)

lemma nodeOnly_step:
  assumes "\<And>i. i \<noteq> [] \<Longrightarrow> fst (h i r s) = s \<or> api_step (NodeCN i) now s (fst (h i r s))"
  shows "fst (nodeOnly h r s) = s \<or> api_step (callerCN r) now s (fst (nodeOnly h r s))"
  using assms [of "NodeIDFromCN (callerCN r)"] NodeIDFromCN_eq [of "callerCN r" "NodeIDFromCN (callerCN r)"]
  by (auto simp: nodeOnly_def Let_def)

lemma serve_step:
  assumes "wf_store s"
  shows "fst (serve mem_iface L sn now au r s) = s \<or>
    api_step (callerCN r) now s (fst (serve mem_iface L sn now au r s))"
proof -
  have "fst (dispatch mem_iface L sn now au r s) = s \<or>
    api_step (callerCN r) now s (fst (dispatch mem_iface L sn now au r s))"
    unfolding dispatch_def Let_def
    by (auto simp only: read_only_handlers fst_conv simp_thms split: if_split
        intro!: adminOnly_step nodeOnly_step handleServices_step handleJobs_step handleNodeRegister_step
          handleNodeHeartbeat_step handleAssignmentStatus_step [OF assms])
  then show ?thesis by (simp add: serve_def)
qed

inductive_cases api_stepE: "api_step cn now s s'"

lemma api_step_wf: "api_step cn now s s' \<Longrightarrow> wf_store s \<Longrightarrow> wf_store s'"
  by (induction rule: api_step.induct) (auto intro: wf_intros)

lemma NodeCN_neq_Admin [simp]: "NodeCN i \<noteq> AdminCN" "AdminCN \<noteq> NodeCN i"
  by (simp_all add: NodeCN_def AdminCN_def nodePrefix_def)

lemma NodeCN_inj [simp]: "NodeCN i = NodeCN k \<longleftrightarrow> i = k"
  by (simp add: NodeCN_def)

text \<open>
  C9: A node acts only as itself: a request with the certificate of node \<open>i\<close> leaves services,
  jobs, every other node and every assignment on another node alone, and adds or removes
  no assignment. What it may change is its own entry, stamped with the current time, and the
  status of an assignment on it, to Running, Succeeded, Failed or Stopped.
\<close>

theorem node_isolation:
  fixes L sn now au r s
  assumes "wf_store s" "callerCN r = NodeCN i"
  defines "s' \<equiv> fst (serve mem_iface L sn now au r s)"
  shows "m_services s' = m_services s \<and> m_jobs s' = m_jobs s \<and>
    (\<forall>k. fmlookup (m_nodes s') k \<noteq> fmlookup (m_nodes s) k \<longrightarrow>
      k = i \<and> (\<exists>n. fmlookup (m_nodes s') k = Some n \<and> last_heartbeat n = now)) \<and>
    (\<forall>k. fmlookup (m_assignments s') k \<noteq> fmlookup (m_assignments s) k \<longrightarrow>
      (\<exists>a p m. fmlookup (m_assignments s) k = Some a \<and> asg_node a = i \<and> isAgentReportablePhase p \<and>
        fmlookup (m_assignments s') k = Some (fst (applyStatus p m now a))))"
proof (intro conjI allI impI)
  have step: "s' = s \<or> api_step (NodeCN i) now s s'"
    using serve_step [OF assms(1)] assms(2) unfolding s'_def by metis
  from step show "m_services s' = m_services s" "m_jobs s' = m_jobs s"
    by (auto elim!: api_stepE)
  fix k
  from step show "k = i" "\<exists>n. fmlookup (m_nodes s') k = Some n \<and> last_heartbeat n = now"
    if "fmlookup (m_nodes s') k \<noteq> fmlookup (m_nodes s) k"
    using that by (auto elim!: api_stepE simp: UpsertNode_def TouchNode_def split: if_splits option.splits)
  from step show "\<exists>a p m. fmlookup (m_assignments s) k = Some a \<and> asg_node a = i \<and> isAgentReportablePhase p \<and>
        fmlookup (m_assignments s') k = Some (fst (applyStatus p m now a))"
    if "fmlookup (m_assignments s') k \<noteq> fmlookup (m_assignments s) k"
    using that by (auto elim!: api_stepE simp: store_simps split: if_splits) blast
qed

text \<open>
  C16: A caller without an admin or node certificate changes nothing and learns nothing about
  the state: its requests leave the store alone, and the response to them is the same
  whatever the store holds.
\<close>

theorem anonymous_no_access:
  fixes s t :: 's
  assumes "callerCN r \<noteq> AdminCN" "NodeIDFromCN (callerCN r) = []"
  shows "fst (serve I L sn now au r s) = s \<and>
    snd (serve I L sn now au r s) = snd (serve I L sn now au r t)"
proof -
  have adm: "\<exists>resp. \<forall>s. adminOnly h r s = (s, resp)" and nod: "\<exists>resp. \<forall>s. nodeOnly g r s = (s, resp)"
    for h :: "'s handler" and g
    using assms by (cases "callerCN r = []"; simp add: adminOnly_def nodeOnly_def Let_def)+
  have open_routes: "\<exists>resp. \<forall>s :: 's. handleCACerts au r s = (s, resp)"
    "\<exists>resp. \<forall>s :: 's. handleJoin L sn now au r s = (s, resp)"
    by (rule exI [of _ "snd (handleCACerts au r t)"], simp add: handleCACerts_def)
      (rule exI [of _ "snd (handleJoin L sn now au r t)"], simp add: handleJoin_def split: sum.split option.split)
  have "\<exists>resp. \<forall>s. dispatch I L sn now au r s = (s, resp)"
    unfolding dispatch_def Let_def
    by (auto simp only: prod.inject simp_thms split: if_split intro!: adm nod open_routes)
  then obtain resp where "\<forall>s. serve I L sn now au r s = (s, resp)"
    unfolding serve_def by (cases "req_method r \<noteq> ''CONNECT'' \<and> cleanPath (req_path r) \<noteq> req_path r") auto
  then show ?thesis by simp
qed

text \<open>
  C15: What the admin's requests may change: services and jobs, and assignments only by
  deleting those of a service or job that the request deletes. They never touch a node,
  create an assignment or alter one.
\<close>

theorem admin_effect:
  fixes L sn now au r s
  assumes "wf_store s" "callerCN r = AdminCN"
  defines "s' \<equiv> fst (serve mem_iface L sn now au r s)"
  shows "m_nodes s' = m_nodes s \<and>
    (\<forall>k a. fmlookup (m_assignments s') k = Some a \<longrightarrow> fmlookup (m_assignments s) k = Some a) \<and>
    (\<forall>k a. fmlookup (m_assignments s) k = Some a \<longrightarrow> fmlookup (m_assignments s') k = None \<longrightarrow>
      owner_kind a = KindService \<and> fmlookup (m_services s) (owner_name a) \<noteq> None \<and>
        fmlookup (m_services s') (owner_name a) = None \<or>
      owner_kind a = KindJob \<and> fmlookup (m_jobs s) (owner_name a) \<noteq> None \<and>
        fmlookup (m_jobs s') (owner_name a) = None)"
proof -
  have "s' = s \<or> api_step AdminCN now s s'"
    using serve_step [OF assms(1)] assms(2) unfolding s'_def by metis
  then show ?thesis
    by (auto elim!: api_stepE simp: DeleteService_def DeleteJob_def fm_delete_where_def split: if_splits option.splits)
qed

lemma decodeJSON_Inl: "decodeJSON d z r = Inl e \<Longrightarrow> resp_status e = 400"
  by (auto simp: decodeJSON_def split: option.splits)

lemma NodeIDFromCN_NodeCN [simp]: "i \<noteq> [] \<Longrightarrow> NodeIDFromCN (NodeCN i) = i"
  using NodeIDFromCN_eq by blast

text \<open>
  C17: The certificate a join hands out is guarded: a request to \<open>/nodes/join\<close> that succeeds
  carried the join secret and a valid node ID, and the certificate in the response is one
  \<open>SignNodeCSR\<close> issued for that ID. A valid ID yields an identity that \<open>nodeOnly\<close> reads
  back as this ID and that is not the admin's.
\<close>

theorem join_guarded:
  assumes "req_path r = ''/nodes/join''" "resp_status (snd (serve I L sn now au r s)) = 200"
  shows "req_method r = ''POST'' \<and> req_authorization r = ''Bearer '' @ JoinSecret au \<and>
    (\<exists>p cert. decodeJSON (dec_join_payload True) \<lparr>pl_node_id = [], pl_csr = []\<rparr> r = Inr p \<and>
      SignNodeCSR L sn now (auth_CA au) (pl_node_id p) (pl_csr p) = Some cert \<and>
      resp_body (snd (serve I L sn now au r s)) = JsonBody (JObj [(''cert'', JStr cert)]) \<and>
      validNodeID (pl_node_id p) \<and> NodeIDFromCN (NodeCN (pl_node_id p)) = pl_node_id p \<and>
      NodeCN (pl_node_id p) \<noteq> AdminCN)"
proof -
  have "cleanPath ''/nodes/join'' = ''/nodes/join''" by code_simp
  then have "serve I L sn now au r s = handleJoin L sn now au r s"
    by (simp add: serve_def dispatch_def assms(1))
  moreover have "resp_status (snd (handleJoin L sn now au r s)) = 200"
    using assms(2) calculation by simp
  ultimately show ?thesis
    by (auto dest: decodeJSON_Inl simp: handleJoin_def http_Error_def method_not_allowed_def writeJSON_def CutPrefix_Some
        validNodeID_def split: if_splits sum.splits option.splits)
qed

lemma api_step_keeps_slash:
  assumes "api_step cn now s s'" "CHR ''/'' \<in> set nm"
  shows "fmlookup (m_services s) nm \<noteq> None \<Longrightarrow> fmlookup (m_services s') nm \<noteq> None"
    and "fmlookup (m_jobs s) nm \<noteq> None \<Longrightarrow> fmlookup (m_jobs s') nm \<noteq> None"
  using assms
  by (auto elim!: api_stepE simp: UpsertService_def DeleteService_def UpsertJob_def DeleteJob_def split: if_splits)

text \<open>
  A service or job whose name contains a slash, which a POST accepts, can never be deleted
  through the API: no request of any caller removes it.
\<close>

theorem slash_name_undeletable:
  assumes "wf_store s" "CHR ''/'' \<in> set nm"
  shows "(fmlookup (m_services s) nm \<noteq> None \<longrightarrow>
      fmlookup (m_services (fst (serve mem_iface L sn now au r s))) nm \<noteq> None) \<and>
    (fmlookup (m_jobs s) nm \<noteq> None \<longrightarrow>
      fmlookup (m_jobs (fst (serve mem_iface L sn now au r s))) nm \<noteq> None)"
  using serve_step [OF assms(1), of L sn now au r] api_step_keeps_slash [OF _ assms(2)] by metis

text \<open>
  What an agent reads: a node's request for its own assignments is answered with exactly
  the stored assignments on it that are Pending or Running, oldest first.
\<close>

theorem assignments_served:
  assumes "wf_store s" "callerCN r = NodeCN i" "i \<noteq> []" "req_method r = ''GET''"
    and "req_path r = ''/nodes/'' @ i @ ''/assignments''" "cleanPath (req_path r) = req_path r"
    and "i \<noteq> ''join''"
  shows "\<exists>xs. serve mem_iface L sn now au r s = (s, writeJSON 200 (JArr (map enc_assignment xs))) \<and>
    sorted_wrt created_before xs \<and> distinct (map asg_ID xs) \<and>
    (\<forall>a. a \<in> set xs \<longleftrightarrow> fmlookup (m_assignments s) (asg_ID a) = Some a \<and> asg_node a = i \<and> active a)"
proof -
  let ?xs = "filter (\<lambda>a. IsActivePhase (asg_phase a)) (ListNodeAssignments i s)"
  have cn: "NodeIDFromCN (callerCN r) = i"
    using assms(2,3) NodeIDFromCN_eq by auto
  have "serve mem_iface L sn now au r s = nodeOnly (handleNodeAssignments mem_iface) r s"
    using assms(5,6) by (auto simp: serve_def dispatch_def Let_def HasPrefix_def)
  also have "\<dots> = (s, writeJSON 200 (JArr (map enc_assignment ?xs)))"
    using assms(3,4,5) TrimSuffix_append [of "''/nodes/'' @ i" "''/assignments''"]
      HasSuffix_append [of "''/nodes/'' @ i" "''/assignments''"] TrimPrefix_append [of "''/nodes/''" i]
    by (simp add: nodeOnly_def Let_def cn handleNodeAssignments_def)
  finally show ?thesis
    using assms(1) sorted_ListAssignments [OF assms(1)]
    by (intro exI [of _ ?xs]) (auto simp: mem_ListAssignments sorted_wrt_filter
        ListNodeAssignments_def distinct_ListAssignments distinct_map_filter)
qed

end
