(* ===== verification/Lifecycle.thy ===== *)
theory Lifecycle
  imports Reconcile Http
begin

text \<open>
  How the stored assignments evolve under the two sources of change: the API's requests
  (\<open>api_step\<close>) and the writes of the reconcile loop (\<open>ctl_step\<close>), in any order. Each single
  step either only lets assignments progress or disappear (\<open>evolves\<close>) or adds one fresh
  Pending assignment; the invariants on phases, ports and attempts follow from that.
\<close>

section \<open>Progress of one assignment\<close>

definition phase_known :: "assignment \<Rightarrow> bool" where
  "phase_known a \<longleftrightarrow> active a \<or> terminal a"

text \<open>Identity and specification stay; a terminal assignment stays as it is; nothing returns to Pending.\<close>

definition progress :: "assignment \<Rightarrow> assignment \<Rightarrow> bool" where
  "progress a b \<longleftrightarrow>
     asg_ID b = asg_ID a \<and> owner_kind b = owner_kind a \<and> owner_name b = owner_name a \<and>
     asg_node b = asg_node a \<and> asg_resources b = asg_resources a \<and> asg_ports b = asg_ports a \<and>
     attempt b = attempt a \<and> created_at b = created_at a \<and>
     (terminal a \<longrightarrow> b = a) \<and> (active b \<longrightarrow> active a) \<and>
     (asg_phase b = Pending \<longrightarrow> b = a \<or> asg_phase a = Pending) \<and>
     (started_at a \<noteq> None \<longrightarrow> started_at b = started_at a)"

text \<open>The timestamps a phase goes with.\<close>

definition stamped :: "assignment \<Rightarrow> bool" where
  "stamped a \<longleftrightarrow> phase_known a \<and> (finished_at a \<noteq> None \<longleftrightarrow> terminal a) \<and>
     (asg_phase a = Running \<longrightarrow> started_at a \<noteq> None) \<and> (asg_phase a = Pending \<longrightarrow> started_at a = None)"

lemma progress_refl [simp]: "progress a a"
  by (simp add: progress_def)

lemma progress_trans: "progress a b \<Longrightarrow> progress b c \<Longrightarrow> progress a c"
  by (auto simp: progress_def)

lemma reported_phases:
  assumes "isAgentReportablePhase p \<or> p = Lost"
  shows "p \<noteq> Pending" "IsTerminalPhase p \<or> p = Running" "p = Running \<longleftrightarrow> \<not> IsTerminalPhase p"
  using assms by (cases p; simp)+

lemma progress_applyStatus:
  assumes "phase_known a" "isAgentReportablePhase p \<or> p = Lost"
  shows "progress a (fst (applyStatus p m now a))"
proof (cases "terminal a")
  case True
  then show ?thesis by (simp add: applyStatus_terminal)
next
  case False
  with assms(1) have "active a" by (simp add: phase_known_def)
  with False show ?thesis
    using reported_phases(1) [OF assms(2)] by (simp add: progress_def applyStatus_def Let_def)
qed

lemma stamped_applyStatus:
  assumes "stamped a" "isAgentReportablePhase p \<or> p = Lost"
  shows "stamped (fst (applyStatus p m now a))"
proof (cases "terminal a")
  case True
  with assms(1) show ?thesis by (simp add: applyStatus_terminal)
next
  case False
  note p = reported_phases [OF assms(2)]
  from False assms(1) have "finished_at a = None" by (simp add: stamped_def)
  moreover have "\<not> IsTerminalPhase Running" by simp
  ultimately show ?thesis
    using False p by (cases "IsTerminalPhase p") (auto simp: stamped_def phase_known_def applyStatus_def Let_def)
qed

lemma stamped_known: "stamped a \<Longrightarrow> phase_known a"
  by (simp add: stamped_def)

lemma stamped_service_assignment [simp]: "stamped (service_assignment v i nid now)"
  and stamped_job_assignment [simp]: "stamped (job_assignment j i nid att now)"
  by (simp_all add: stamped_def phase_known_def)

lemma stamped_Clone [simp]: "stamped (Assignment_Clone a) = stamped a"
  by (simp add: stamped_def phase_known_def)

section \<open>Steps of the store\<close>

definition all_stamped :: "mem_store \<Rightarrow> bool" where
  "all_stamped s \<longleftrightarrow> (\<forall>k a. fmlookup (m_assignments s) k = Some a \<longrightarrow> stamped a)"

definition evolves :: "mem_store \<Rightarrow> mem_store \<Rightarrow> bool" where
  "evolves s s' \<longleftrightarrow> (\<forall>k b. fmlookup (m_assignments s') k = Some b \<longrightarrow>
     stamped b \<and> (\<exists>a. fmlookup (m_assignments s) k = Some a \<and> progress a b))"

text \<open>The step that places work: one more assignment, fresh, Pending, its node chosen by the scheduler.\<close>

definition places :: "assignment \<Rightarrow> mem_store \<Rightarrow> mem_store \<Rightarrow> bool" where
  "places a s s' \<longleftrightarrow> s' = SaveAssignment a s \<and> fmlookup (m_assignments s) (asg_ID a) = None \<and>
     asg_phase a = Pending \<and> stamped a \<and>
     (\<exists>sch now nodes req pl. ChooseNode sch now nodes (ListAssignments s) req pl (asg_ports a) = Inr (asg_node a)) \<and>
     (owner_kind a = KindJob \<longrightarrow> (\<forall>b \<in> set (ListAssignmentsForOwner KindJob (owner_name a) s).
        asg_phase b \<noteq> Succeeded \<and> \<not> active b))"

lemma evolves_refl: "all_stamped s \<Longrightarrow> evolves s s"
  by (auto simp: evolves_def all_stamped_def)

lemma evolves_trans: "evolves r s \<Longrightarrow> evolves s t \<Longrightarrow> evolves r t"
  unfolding evolves_def by (meson progress_trans)

lemma evolves_stamped: "evolves s s' \<Longrightarrow> all_stamped s'"
  by (auto simp: evolves_def all_stamped_def)

lemma evolves_status:
  "all_stamped s \<Longrightarrow> isAgentReportablePhase p \<or> p = Lost \<Longrightarrow>
   evolves s (fst (UpdateAssignmentStatus i p m now s))"
  by (auto simp: evolves_def all_stamped_def store_simps stamped_applyStatus stamped_known progress_applyStatus
      split: if_splits)

lemma evolves_same: "all_stamped s \<Longrightarrow> m_assignments s' = m_assignments s \<Longrightarrow> evolves s s'"
  by (auto simp: evolves_def all_stamped_def)

lemma evolves_delete:
  "all_stamped s \<Longrightarrow> (\<And>k b. fmlookup (m_assignments s') k = Some b \<Longrightarrow> fmlookup (m_assignments s) k = Some b) \<Longrightarrow>
   evolves s s'"
  by (force simp: evolves_def all_stamped_def)

lemma api_step_evolves:
  assumes "api_step cn now s s'" "all_stamped s"
  shows "evolves s s'"
  using assms
  by (cases rule: api_step.cases)
    (auto intro: evolves_same evolves_status evolves_delete simp: store_simps)

lemma ctl_step_cases:
  assumes "ctl_step c now SV JB s s'" "all_stamped s"
  shows "evolves s s' \<or> (\<exists>a. places a s s' \<and> owner_kind a \<in> {KindService, KindJob})"
  using assms
proof (cases rule: ctl_step.cases)
  case (step_place_service v i nid)
  then have "places (service_assignment v i nid now) s s'"
    by (simp add: places_def) blast
  then show ?thesis by (metis insertI1 service_assignment_fields(2))
next
  case (step_place_job j i nid)
  then have "places (job_assignment j i nid (of_nat (failures (ListAssignmentsForOwner KindJob (job_name j) s)) + 1) now) s s'"
    by (simp add: places_def) blast
  then show ?thesis by (metis insert_iff job_assignment_fields(2))
qed (auto intro: evolves_same evolves_status evolves_delete simp: store_simps split: if_splits)

text \<open>One step of the running control plane.\<close>

definition plane_step :: "mem_store \<Rightarrow> mem_store \<Rightarrow> bool" where
  "plane_step s s' \<longleftrightarrow> (\<exists>cn now. api_step cn now s s') \<or> (\<exists>c now SV JB. ctl_step c now SV JB s s')"

lemma plane_step_cases:
  "plane_step s s' \<Longrightarrow> all_stamped s \<Longrightarrow> evolves s s' \<or> (\<exists>a. places a s s')"
  unfolding plane_step_def using api_step_evolves ctl_step_cases by blast

lemma places_lookup:
  "places a s s' \<Longrightarrow> fmlookup (m_assignments s') k =
     (if k = asg_ID a then Some (Assignment_Clone a) else fmlookup (m_assignments s) k)"
  by (auto simp: places_def store_simps)

lemma plane_step_stamped: "plane_step s s' \<Longrightarrow> all_stamped s \<Longrightarrow> all_stamped s'"
  by (drule (1) plane_step_cases, elim disjE exE)
    (auto simp: evolves_stamped, auto simp: all_stamped_def places_lookup, auto simp: places_def)

lemma plane_step_wf: "plane_step s s' \<Longrightarrow> wf_store s \<Longrightarrow> wf_store s'"
  unfolding plane_step_def using api_step_wf ctl_step_wf by blast

section \<open>Exclusive ports\<close>

definition ports_exclusive :: "mem_store \<Rightarrow> bool" where
  "ports_exclusive s \<longleftrightarrow> (\<forall>i k a b. fmlookup (m_assignments s) i = Some a \<longrightarrow>
     fmlookup (m_assignments s) k = Some b \<longrightarrow> i \<noteq> k \<longrightarrow> active a \<longrightarrow> active b \<longrightarrow>
     asg_node a = asg_node b \<longrightarrow> set (elems (asg_ports a)) \<inter> set (elems (asg_ports b)) = {})"

lemma ports_exclusive_evolves:
  assumes "evolves s s'" "ports_exclusive s"
  shows "ports_exclusive s'"
  unfolding ports_exclusive_def
proof (intro allI impI)
  fix i k a b
  assume ab: "fmlookup (m_assignments s') i = Some a" "fmlookup (m_assignments s') k = Some b" "i \<noteq> k"
    "active a" "active b" "asg_node a = asg_node b"
  then obtain a0 b0 where "fmlookup (m_assignments s) i = Some a0" "progress a0 a"
      "fmlookup (m_assignments s) k = Some b0" "progress b0 b"
    using assms(1) unfolding evolves_def by meson
  with ab assms(2) show "set (elems (asg_ports a)) \<inter> set (elems (asg_ports b)) = {}"
    unfolding ports_exclusive_def progress_def by metis
qed

lemma placed_ports:
  assumes "wf_store s" "places a s s'" "fmlookup (m_assignments s) k = Some b" "active b" "asg_node b = asg_node a"
  shows "set (elems (asg_ports a)) \<inter> set (elems (asg_ports b)) = {}"
proof -
  obtain sch now nodes req pl where
    "ChooseNode sch now nodes (ListAssignments s) req pl (asg_ports a) = Inr (asg_node a)"
    using assms(2) by (auto simp: places_def)
  then obtain n where "node_ID n = asg_node a"
      "eligible (NodeTimeout sch) now (ListAssignments s) req pl (asg_ports a) n"
    by (rule ChooseNode_Inr)
  then have "set (elems (asg_ports a)) \<inter> ports_on (asg_node a) (ListAssignments s) = {}"
    by (auto simp: eligible_def)
  moreover have "b \<in> set (ListAssignments s)"
    unfolding mem_ListAssignments [OF assms(1)] using assms(3) wf_assignment [OF assms(1,3)] by simp
  then have "set (elems (asg_ports b)) \<subseteq> ports_on (asg_node a) (ListAssignments s)"
    using assms(4,5) by (auto simp: ports_on_def work_on_def)
  ultimately show ?thesis by blast
qed

lemma ports_exclusive_places:
  assumes "wf_store s" "places a s s'" "ports_exclusive s"
  shows "ports_exclusive s'"
  unfolding ports_exclusive_def places_lookup [OF assms(2)]
  using assms(3) placed_ports [OF assms(1,2)]
  by (auto simp: ports_exclusive_def Int_commute split: if_splits)

section \<open>One attempt at a time\<close>

definition one_attempt :: "mem_store \<Rightarrow> bool" where
  "one_attempt s \<longleftrightarrow> (\<forall>i k a b. fmlookup (m_assignments s) i = Some a \<longrightarrow>
     fmlookup (m_assignments s) k = Some b \<longrightarrow> i \<noteq> k \<longrightarrow> owner_kind a = KindJob \<longrightarrow> owner_kind b = KindJob \<longrightarrow>
     owner_name a = owner_name b \<longrightarrow> active a \<longrightarrow> \<not> active b \<and> asg_phase b \<noteq> Succeeded)"

lemma one_attempt_evolves:
  assumes "evolves s s'" "one_attempt s" "all_stamped s"
  shows "one_attempt s'"
  unfolding one_attempt_def
proof (intro allI impI)
  fix i k a b
  assume ab: "fmlookup (m_assignments s') i = Some a" "fmlookup (m_assignments s') k = Some b" "i \<noteq> k"
    "owner_kind a = KindJob" "owner_kind b = KindJob" "owner_name a = owner_name b" "active a"
  then obtain a0 b0 where l: "fmlookup (m_assignments s) i = Some a0" "progress a0 a"
      "fmlookup (m_assignments s) k = Some b0" "progress b0 b"
    using assms(1) unfolding evolves_def by meson
  then have "\<not> active b0 \<and> asg_phase b0 \<noteq> Succeeded"
    using ab assms(2) unfolding one_attempt_def progress_def by metis
  moreover have "phase_known b0" using assms(3) l by (auto simp: all_stamped_def stamped_def)
  ultimately have "b = b0" using l by (auto simp: progress_def phase_known_def)
  then show "\<not> active b \<and> asg_phase b \<noteq> Succeeded"
    using \<open>\<not> active b0 \<and> asg_phase b0 \<noteq> Succeeded\<close> by simp
qed

lemma one_attempt_places:
  assumes "wf_store s" "places a s s'" "one_attempt s"
  shows "one_attempt s'"
proof -
  have none: "\<not> active b \<and> asg_phase b \<noteq> Succeeded"
    if "owner_kind a = KindJob" "fmlookup (m_assignments s) k = Some b" "owner_kind b = KindJob"
      "owner_name b = owner_name a" for k b
  proof -
    have "b \<in> set (ListAssignmentsForOwner KindJob (owner_name a) s)"
      unfolding mem_ListAssignmentsForOwner [OF assms(1)]
      using that wf_assignment [OF assms(1) that(2)] by simp
    then show ?thesis using assms(2) that(1) by (auto simp: places_def)
  qed
  show ?thesis
    unfolding one_attempt_def places_lookup [OF assms(2)]
    using assms(3) none by (auto simp: one_attempt_def split: if_splits)
qed

section \<open>Properties of every step\<close>

text \<open>
  C1: The life of an assignment. One step of the control plane, a request or a write of the
  reconcile loop, keeps an assignment's identity, node, resources and attempt; never changes
  a terminal one; never makes an inactive one active or takes one back to Pending; and sets
  the start time once. A new assignment is Pending. After the step every assignment is in one
  of the six phases, has a finish time exactly when it is terminal, and a start time if it
  is Running but none if it is Pending.
\<close>

theorem assignment_lifecycle:
  assumes "plane_step s s'" "all_stamped s"
  shows "all_stamped s' \<and>
    (\<forall>k a b. fmlookup (m_assignments s) k = Some a \<longrightarrow> fmlookup (m_assignments s') k = Some b \<longrightarrow> progress a b) \<and>
    (\<forall>k b. fmlookup (m_assignments s) k = None \<longrightarrow> fmlookup (m_assignments s') k = Some b \<longrightarrow>
      asg_phase b = Pending)"
proof (intro conjI allI impI)
  note cs = plane_step_cases [OF assms]
  show "all_stamped s'" using assms by (rule plane_step_stamped)
  show "progress a b" if ab: "fmlookup (m_assignments s) k = Some a" "fmlookup (m_assignments s') k = Some b" for k a b
    using cs
  proof (elim disjE exE)
    assume "evolves s s'"
    with ab show ?thesis unfolding evolves_def by fastforce
  next
    fix c
    assume "places c s s'"
    then have "k \<noteq> asg_ID c" using ab(1) by (auto simp: places_def)
    with ab \<open>places c s s'\<close> show ?thesis by (simp add: places_lookup)
  qed
  show "asg_phase b = Pending"
    if ab: "fmlookup (m_assignments s) k = None" "fmlookup (m_assignments s') k = Some b" for k b
    using cs
  proof (elim disjE exE)
    assume "evolves s s'"
    with ab show ?thesis unfolding evolves_def by fastforce
  next
    fix c
    assume c: "places c s s'"
    with ab show ?thesis by (auto simp: places_lookup split: if_splits) (simp add: places_def)
  qed
qed

section \<open>The running cluster\<close>

text \<open>
  The states a controller reaches from an empty store by requests of any callers, complete
  reconcile runs, and restarts of the controller process, in any order and at any times.
\<close>

inductive cluster :: "('c, 'k, 'p, 'r) crypto \<Rightarrow> ('c, 'k) auth \<Rightarrow> controller \<Rightarrow> controller \<times> mem_store \<Rightarrow> bool"
  for L au c0 where
  cluster_init: "cluster L au c0 (c0, NewMemoryStore)"
| cluster_request: "cluster L au c0 (c, s) \<Longrightarrow> cluster L au c0 (c, fst (serve mem_iface L sn now au r s))"
| cluster_reconcile: "cluster L au c0 (c, s) \<Longrightarrow> Reconcile mem_iface c now ent s = Inr (c', s', ent') \<Longrightarrow>
    cluster L au c0 (c', s')"
| cluster_restart: "cluster L au c0 (c, s) \<Longrightarrow> cluster L au c0 (c0, s)"

abbreviation plane_steps where
  "plane_steps \<equiv> plane_step\<^sup>*\<^sup>*"

lemma serve_plane: "wf_store s \<Longrightarrow> plane_steps s (fst (serve mem_iface L sn now au r s))"
  using serve_step [of s L sn now au r] unfolding plane_step_def
  by (metis (mono_tags, lifting) r_into_rtranclp rtranclp.rtrancl_refl)

lemma ctl_steps_plane: "ctl_steps c now SV JB s s' \<Longrightarrow> plane_steps s s'"
  by (erule rtranclp_mono [THEN predicate2D, rotated]) (auto simp: plane_step_def)

lemma cluster_steps:
  assumes "cluster L au c0 (c, s)" "same_timeout c0"
  shows "wf_store s \<and> same_timeout c \<and> plane_steps NewMemoryStore s"
  using assms(1)
proof (induction "(c, s)" arbitrary: c s rule: cluster.induct)
  case cluster_init
  with assms(2) show ?case by (simp add: wf_NewMemoryStore)
next
  case (cluster_request c s sn now r)
  have "plane_steps s (fst (serve mem_iface L sn now au r s))"
    using cluster_request.hyps(2) by (blast intro: serve_plane)
  moreover have "wf_store (fst (serve mem_iface L sn now au r s))"
    using serve_step [of s L sn now au r] cluster_request.hyps(2) by (auto dest: api_step_wf)
  ultimately show ?case using cluster_request.hyps(2) by (meson rtranclp_trans)
next
  case (cluster_reconcile c s now ent c' s' ent')
  have "c' = started c now \<and> wf_store s' \<and> all_live c' now s' \<and>
    ctl_steps c' now (set (ListServices s)) (set (ListJobs s)) s s'"
    using cluster_reconcile.hyps by (intro Reconcile_steps) auto
  then show ?case
    using cluster_reconcile.hyps(2) by (auto dest: ctl_steps_plane)
next
  case (cluster_restart c s)
  with assms(2) show ?case by simp
qed

lemma plane_steps_invariants:
  assumes "plane_steps NewMemoryStore s"
  shows "wf_store s \<and> all_stamped s \<and> ports_exclusive s \<and> one_attempt s"
  using assms
proof (induction rule: rtranclp_induct)
  case base
  then show ?case
    by (simp add: wf_NewMemoryStore all_stamped_def ports_exclusive_def one_attempt_def)
      (simp add: NewMemoryStore_def)
next
  case (step s s')
  then show ?case
    using plane_step_cases [of s s'] plane_step_wf [of s s'] plane_step_stamped [of s s']
      ports_exclusive_evolves ports_exclusive_places one_attempt_evolves one_attempt_places by blast
qed

lemma cluster_invariants:
  assumes "cluster L au c0 (c, s)" "same_timeout c0"
  shows "wf_store s" "all_stamped s" "ports_exclusive s" "one_attempt s"
  using plane_steps_invariants cluster_steps [OF assms] by blast+

text \<open>
  C3: In every reachable state no two active assignments on one node share a port, whatever
  requests nodes and admins have sent in between, whatever ports the specs ask for and
  however often nodes were lost and the controller restarted.
\<close>

theorem cluster_ports_exclusive:
  assumes "cluster L au c0 (c, s)" "same_timeout c0"
    and "fmlookup (m_assignments s) i = Some a" "fmlookup (m_assignments s) k = Some b" "i \<noteq> k"
    and "active a" "active b" "asg_node a = asg_node b"
  shows "set (elems (asg_ports a)) \<inter> set (elems (asg_ports b)) = {}"
  using cluster_invariants(3) [OF assms(1,2)] assms(3-) unfolding ports_exclusive_def by blast

text \<open>
  C4: In every reachable state a job has at most one active attempt, and none once an attempt
  has succeeded: a job's work never runs twice at once as far as the store knows, and never
  again after a success.
\<close>

theorem cluster_one_attempt:
  assumes "cluster L au c0 (c, s)" "same_timeout c0"
    and "fmlookup (m_assignments s) i = Some a" "fmlookup (m_assignments s) k = Some b" "i \<noteq> k"
    and "owner_kind a = KindJob" "owner_kind b = KindJob" "owner_name a = owner_name b" "active a"
  shows "\<not> active b \<and> asg_phase b \<noteq> Succeeded"
  using cluster_invariants(4) [OF assms(1,2)] assms(3-) unfolding one_attempt_def by blast

end
