(* ===== verification/Guarantees.thy ===== *)
theory Guarantees
  imports Lifecycle
begin

text \<open>
  What one complete run of \<open>Reconcile\<close> guarantees: it touches only what it may, work on dead
  nodes is given up, a node is never loaded beyond its capacity, a job's retries are bounded,
  a restarted controller gives its nodes a full timeout; and what it does not: replicas of a
  service that is gone are never reaped.
\<close>

section \<open>What a run leaves alone\<close>

lemma ctl_step_terminal:
  assumes "ctl_step c now SV JB s s'" "fmlookup (m_assignments s) k = Some a" "terminal a"
  shows "fmlookup (m_assignments s') k = Some a"
  using assms active_not_terminal
  by (induction rule: ctl_step.induct) (auto simp: store_simps applyStatus_terminal)

lemma ctl_steps_terminal:
  "ctl_steps c now SV JB s s' \<Longrightarrow> fmlookup (m_assignments s) k = Some a \<Longrightarrow> terminal a \<Longrightarrow>
   fmlookup (m_assignments s') k = Some a"
  by (induction rule: rtranclp_induct) (auto dest: ctl_step_terminal)

lemma ctl_step_service_spec:
  assumes "ctl_step c now SV JB s s'"
  shows "map_option (\<lambda>v. v\<lparr>service_st := zero_service_status\<rparr>) (fmlookup (m_services s') nm) =
    map_option (\<lambda>v. v\<lparr>service_st := zero_service_status\<rparr>) (fmlookup (m_services s) nm)"
  using assms
  by (induction rule: ctl_step.induct) (auto simp: UpdateServiceStatus_def split: option.splits)

lemma ctl_step_job_spec:
  assumes "ctl_step c now SV JB s s'"
  shows "map_option (\<lambda>j. j\<lparr>job_st := zero_job_status\<rparr>) (fmlookup (m_jobs s') nm) =
    map_option (\<lambda>j. j\<lparr>job_st := zero_job_status\<rparr>) (fmlookup (m_jobs s) nm)"
  using assms
  by (induction rule: ctl_step.induct) (auto simp: UpdateJobStatus_def split: option.splits)

lemma ctl_steps_specs:
  assumes "ctl_steps c now SV JB s s'"
  shows "map_option (\<lambda>v. v\<lparr>service_st := zero_service_status\<rparr>) (fmlookup (m_services s') nm) =
      map_option (\<lambda>v. v\<lparr>service_st := zero_service_status\<rparr>) (fmlookup (m_services s) nm)"
    and "map_option (\<lambda>j. j\<lparr>job_st := zero_job_status\<rparr>) (fmlookup (m_jobs s') nm) =
      map_option (\<lambda>j. j\<lparr>job_st := zero_job_status\<rparr>) (fmlookup (m_jobs s) nm)"
  using assms by (induction rule: rtranclp_induct) (auto simp: ctl_step_service_spec ctl_step_job_spec)

text \<open>
  C5: A run of \<open>Reconcile\<close> changes no node, no specification of a service or job (only their
  status), and no assignment that is already terminal; and after it every active assignment is
  on a node that is live, so lost work has been given up and nothing new was placed on a
  dead node.
\<close>

theorem Reconcile_frame:
  assumes "wf_store s" "same_timeout c" "Reconcile mem_iface c now ent s = Inr (c', s', ent')"
  shows "m_nodes s' = m_nodes s \<and>
    (\<forall>nm. map_option (\<lambda>v. v\<lparr>service_st := zero_service_status\<rparr>) (fmlookup (m_services s') nm) =
      map_option (\<lambda>v. v\<lparr>service_st := zero_service_status\<rparr>) (fmlookup (m_services s) nm)) \<and>
    (\<forall>nm. map_option (\<lambda>j. j\<lparr>job_st := zero_job_status\<rparr>) (fmlookup (m_jobs s') nm) =
      map_option (\<lambda>j. j\<lparr>job_st := zero_job_status\<rparr>) (fmlookup (m_jobs s) nm)) \<and>
    (\<forall>k a. fmlookup (m_assignments s) k = Some a \<longrightarrow> terminal a \<longrightarrow> fmlookup (m_assignments s') k = Some a) \<and>
    (\<forall>k b. fmlookup (m_assignments s') k = Some b \<longrightarrow> active b \<longrightarrow>
      asg_node b \<in> live_ids (started c now) now s)"
proof (intro conjI allI impI)
  have steps: "ctl_steps (started c now) now (set (ListServices s)) (set (ListJobs s)) s s'"
    and live: "all_live (started c now) now s'"
    using Reconcile_steps [OF assms] by auto
  show "m_nodes s' = m_nodes s" using steps by (rule ctl_steps_nodes)
  show "map_option (\<lambda>v. v\<lparr>service_st := zero_service_status\<rparr>) (fmlookup (m_services s') nm) =
      map_option (\<lambda>v. v\<lparr>service_st := zero_service_status\<rparr>) (fmlookup (m_services s) nm)"
    and "map_option (\<lambda>j. j\<lparr>job_st := zero_job_status\<rparr>) (fmlookup (m_jobs s') nm) =
      map_option (\<lambda>j. j\<lparr>job_st := zero_job_status\<rparr>) (fmlookup (m_jobs s) nm)" for nm
    using ctl_steps_specs [OF steps] by auto
  show "fmlookup (m_assignments s') k = Some a"
    if "fmlookup (m_assignments s) k = Some a" "terminal a" for k a
    using ctl_steps_terminal [OF steps that] .
  show "asg_node b \<in> live_ids (started c now) now s"
    if "fmlookup (m_assignments s') k = Some b" "active b" for k b
    using that live ctl_steps_live [OF steps] by (auto simp: all_live_def)
qed

section \<open>Restarts\<close>

text \<open>
  C14: A restarted controller gives every node a full timeout to report: in a run that comes no
  later than the timeout after the controller's first run, no assignment on a registered
  node is given up, however old the node's stored heartbeat is.
\<close>

theorem restart_grace:
  assumes "wf_store s" "time_Sub now (ctl_startedAt (started c now)) \<le> ctl_nodeTimeout c"
    and "fmlookup (m_assignments s) k = Some a" "fmlookup (m_nodes s) (asg_node a) \<noteq> None"
  shows "fmlookup (m_assignments (markLostAssignments mem_iface (started c now) now s)) k = Some a"
proof -
  obtain n where n: "fmlookup (m_nodes s) (asg_node a) = Some n" using assms(4) by auto
  have "time_Sub now (max (last_heartbeat n) (ctl_startedAt (started c now))) \<le>
      time_Sub now (ctl_startedAt (started c now))"
    by (intro time_Sub_antimono) simp
  then have "node_live (ctl_nodeTimeout c) now (graced (started c now) n)"
    using assms(2) by (simp add: node_live_def)
  then have "asg_node a \<in> live_ids (started c now) now s"
    using n by (simp add: mem_live_ids [OF assms(1)])
  then show ?thesis by (simp add: markLost_lookup [OF assms(1)] assms(3) lose_def)
qed

lemma first_run_graced:
  "ctl_startedAt c = 0 \<Longrightarrow> 0 \<le> ctl_nodeTimeout c \<Longrightarrow>
   time_Sub now (ctl_startedAt (started c now)) \<le> ctl_nodeTimeout c"
  by (simp add: started_def time_IsZero_def)

section \<open>Retries\<close>

text \<open>The attempts of a job that count against its retries or use its one slot.\<close>

definition consumed :: "string \<Rightarrow> mem_store \<Rightarrow> string set" where
  "consumed nm s = {k. \<exists>a. fmlookup (m_assignments s) k = Some a \<and> (owner_kind a = KindJob \<and>
     owner_name a = nm \<and> (active a \<or> asg_phase a = Failed \<or> asg_phase a = Succeeded))}"

definition failed_keys :: "string \<Rightarrow> mem_store \<Rightarrow> string set" where
  "failed_keys nm s = {k. \<exists>a. fmlookup (m_assignments s) k = Some a \<and> (owner_kind a = KindJob \<and>
     owner_name a = nm \<and> asg_phase a = Failed)}"

lemma finite_consumed [simp]: "finite (consumed nm s)" "finite (failed_keys nm s)"
  by (simp_all add: consumed_def failed_keys_def)

lemma failures_card:
  assumes "wf_store s"
  shows "failures (ListAssignmentsForOwner KindJob nm s) = card (failed_keys nm s)"
  using length_filter_ListAssignments [OF assms]
  by (simp add: failures_def ListAssignmentsForOwner_def failed_keys_def conj_ac)

lemma ctl_step_failed:
  assumes "ctl_step c now SV JB s s'"
  shows "failed_keys nm s' \<subseteq> failed_keys nm s"
  using assms
  by (induction rule: ctl_step.induct)
    (auto simp: failed_keys_def store_simps applyStatus_phase split: if_splits)

lemma card_subset_insert: "finite B \<Longrightarrow> A \<subseteq> insert x B \<Longrightarrow> card A \<le> Suc (card B)"
  using card_mono [of "insert x B" A] card_insert_le_m1 [of "Suc (card B)" B x] by simp

lemma consumed_shrinks: "consumed nm s' \<subseteq> consumed nm s \<Longrightarrow> card (consumed nm s') \<le> max (card (consumed nm s)) n"
  using card_mono [of "consumed nm s" "consumed nm s'"] by simp

lemma ctl_step_consumed:
  assumes "ctl_step c now SV JB s s'" "wf_store s" "card (failed_keys nm s) < 2 ^ 63"
    and "\<And>j. j \<in> JB \<Longrightarrow> job_name j = nm \<Longrightarrow> sint (job_retries j) \<le> R"
  shows "card (consumed nm s') \<le> max (card (consumed nm s)) (nat (R + 1))"
  using assms(1)
proof (cases rule: ctl_step.cases)
  case (step_place_job j i nid)
  show ?thesis
  proof (cases "job_name j = nm")
    case True
    let ?as = "ListAssignmentsForOwner KindJob nm s"
    have "consumed nm s \<subseteq> failed_keys nm s"
    proof
      fix k
      assume "k \<in> consumed nm s"
      then obtain a where a: "fmlookup (m_assignments s) k = Some a" "owner_kind a = KindJob" "owner_name a = nm"
        "active a \<or> asg_phase a = Failed \<or> asg_phase a = Succeeded" by (auto simp: consumed_def)
      have "a \<in> set ?as"
        unfolding mem_ListAssignmentsForOwner [OF assms(2)] using a wf_assignment [OF assms(2) a(1)] by simp
      then show "k \<in> failed_keys nm s" using a step_place_job(5) True by (auto simp: failed_keys_def)
    qed
    then have "card (consumed nm s) \<le> card (failed_keys nm s)" by (intro card_mono) simp_all
    moreover have "consumed nm s' \<subseteq> insert i (consumed nm s)"
      using step_place_job(1) by (auto simp: consumed_def store_simps split: if_splits)
    then have "card (consumed nm s') \<le> Suc (card (consumed nm s))"
      by (intro card_subset_insert) simp_all
    moreover have "int (card (failed_keys nm s)) \<le> R"
    proof -
      have "\<not> sint (job_retries j) < sint (of_nat (card (failed_keys nm s)) :: goint)"
        using step_place_job(6) True by (simp add: word_sless_alt failures_card [OF assms(2)])
      moreover have "sint (of_nat (card (failed_keys nm s)) :: goint) = int (card (failed_keys nm s))"
        using assms(3) by (rule sint_goint_of_nat)
      ultimately show ?thesis using assms(4) [OF step_place_job(2) True] by linarith
    qed
    ultimately show ?thesis by linarith
  next
    case False
    then have "consumed nm s' \<subseteq> consumed nm s"
      using step_place_job(1) by (auto simp: consumed_def store_simps split: if_splits)
    then show ?thesis by (rule consumed_shrinks)
  qed
next
  case (step_lose i a)
  then have "consumed nm s' \<subseteq> consumed nm s"
    by (auto simp: consumed_def store_simps applyStatus_phase split: if_splits)
  then show ?thesis by (rule consumed_shrinks)
next
  case (step_remove i a v)
  then have "consumed nm s' \<subseteq> consumed nm s" by (auto simp: consumed_def store_simps)
  then show ?thesis by (rule consumed_shrinks)
next
  case (step_place_service v i nid)
  then have "consumed nm s' \<subseteq> consumed nm s" by (auto simp: consumed_def store_simps split: if_splits)
  then show ?thesis by (rule consumed_shrinks)
qed (simp_all add: consumed_def)

lemma ctl_steps_consumed:
  assumes "ctl_steps c now SV JB s s'" "wf_store s" "card (failed_keys nm s) < 2 ^ 63"
    and "\<And>j. j \<in> JB \<Longrightarrow> job_name j = nm \<Longrightarrow> sint (job_retries j) \<le> R"
  shows "failed_keys nm s' \<subseteq> failed_keys nm s \<and>
    card (consumed nm s') \<le> max (card (consumed nm s)) (nat (R + 1))"
  using assms(1)
proof (induction rule: rtranclp_induct)
  case base
  then show ?case by simp
next
  case (step s1 s2)
  then have "wf_store s1" using assms(2) by (auto dest: ctl_steps_wf)
  moreover have "card (failed_keys nm s1) < 2 ^ 63"
    using step.IH assms(3) card_mono [of "failed_keys nm s" "failed_keys nm s1"] by fastforce
  ultimately have "card (consumed nm s2) \<le> max (card (consumed nm s1)) (nat (R + 1))"
    using step.hyps(2) assms(4) by (intro ctl_step_consumed)
  then show ?case using step.IH ctl_step_failed [OF step.hyps(2), of nm] by auto
qed

text \<open>
  C13: A run never spends more attempts on a job than its retries allow: the attempts that
  failed, succeeded or are active number at most \<open>Retries + 1\<close> after the run, or as many as
  before it (where the job was reposted with fewer retries). Lost and stopped attempts are
  not counted.
\<close>

theorem Reconcile_retry_bound:
  assumes "wf_store s" "same_timeout c" "Reconcile mem_iface c now ent s = Inr (c', s', ent')"
    and "fmlookup (m_jobs s) nm = Some j" "small_store s"
  shows "card (consumed nm s') \<le> max (card (consumed nm s)) (nat (sint (job_retries j) + 1))"
proof -
  have "card (failed_keys nm s) \<le> card (fmdom' (m_assignments s))"
    by (rule card_mono) (auto simp: failed_keys_def fmlookup_dom'_iff)
  then have "card (failed_keys nm s) < 2 ^ 63" using assms(5) by (simp add: small_store_def)
  moreover have "sint (job_retries i) \<le> sint (job_retries j)" if "i \<in> set (ListJobs s)" "job_name i = nm" for i
    using that assms(4) by (simp add: mem_ListJobs [OF assms(1)])
  ultimately show ?thesis
    using Reconcile_steps [OF assms(1-3)] ctl_steps_consumed [OF _ assms(1)] by blast
qed

section \<open>Orphans\<close>

lemma ctl_step_orphan:
  assumes "ctl_step c now SV JB s s'" "fmlookup (m_assignments s) k = Some a" "owner_kind a = KindService"
    and "owner_name a \<notin> service_name ` SV" "asg_node a \<in> live_ids c now s"
  shows "fmlookup (m_assignments s') k = Some a"
  using assms
  by (induction rule: ctl_step.induct) (auto simp: store_simps)

text \<open>
  Replicas of a service that no longer exists are never reaped: a run of \<open>Reconcile\<close> leaves
  an assignment whose service is not in the store exactly as it is, as long as its node is
  live. \<open>reconcileService\<close> can leave such a replica behind when the service is deleted
  between the run's listing of the services and that call.
\<close>

theorem orphan_survives:
  assumes "wf_store s" "same_timeout c" "Reconcile mem_iface c now ent s = Inr (c', s', ent')"
    and "fmlookup (m_assignments s) k = Some a" "owner_kind a = KindService"
    and "fmlookup (m_services s) (owner_name a) = None" "asg_node a \<in> live_ids (started c now) now s"
  shows "fmlookup (m_assignments s') k = Some a"
proof -
  have steps: "ctl_steps (started c now) now (set (ListServices s)) (set (ListJobs s)) s s'"
    using Reconcile_steps [OF assms(1-3)] by blast
  have "owner_name a \<notin> service_name ` set (ListServices s)"
    using assms(6) by (auto simp: mem_ListServices [OF assms(1)])
  with steps show ?thesis
  proof (induction rule: rtranclp_induct)
    case base
    show ?case by (rule assms(4))
  next
    case (step s1 s2)
    then have "asg_node a \<in> live_ids (started c now) now s1"
      using assms(7) ctl_steps_live by metis
    with step show ?case using assms(5) by (blast intro: ctl_step_orphan)
  qed
qed

section \<open>Capacity\<close>

text \<open>The load of a node, summed over the stored assignments instead of a listing.\<close>

definition work_keys :: "string \<Rightarrow> mem_store \<Rightarrow> string set" where
  "work_keys i s = {k. \<exists>a. fmlookup (m_assignments s) k = Some a \<and> (active a \<and> asg_node a = i)}"

definition stored_load :: "(resource_requirements \<Rightarrow> goint) \<Rightarrow> string \<Rightarrow> mem_store \<Rightarrow> int" where
  "stored_load f i s = (\<Sum>k \<in> work_keys i s. sint (f (asg_resources (the (fmlookup (m_assignments s) k)))))"

lemma finite_work_keys [simp]: "finite (work_keys i s)"
  by (simp add: work_keys_def)

lemma load_ListAssignments:
  assumes "wf_store s"
  shows "load f i (ListAssignments s) = stored_load f i s"
proof -
  let ?w = "work_on i (ListAssignments s)"
  have d: "distinct (map asg_ID ?w)"
    unfolding work_on_def by (intro distinct_map_filter distinct_ListAssignments assms)
  have mem: "a \<in> set ?w \<longleftrightarrow> fmlookup (m_assignments s) (asg_ID a) = Some a \<and> active a \<and> asg_node a = i" for a
    by (auto simp: work_on_def mem_ListAssignments [OF assms])
  have "asg_ID ` set ?w = work_keys i s"
  proof (intro set_eqI iffI)
    fix k
    assume "k \<in> asg_ID ` set ?w"
    then show "k \<in> work_keys i s" unfolding work_keys_def using mem by blast
  next
    fix k
    assume "k \<in> work_keys i s"
    then obtain a where a: "fmlookup (m_assignments s) k = Some a" "active a" "asg_node a = i"
      unfolding work_keys_def by blast
    then have "asg_ID a = k" using wf_assignment [OF assms] by blast
    then show "k \<in> asg_ID ` set ?w" using a mem [of a] by (metis image_eqI)
  qed
  then have "stored_load f i s =
      (\<Sum>k \<in> asg_ID ` set ?w. sint (f (asg_resources (the (fmlookup (m_assignments s) k)))))"
    by (simp add: stored_load_def)
  also have "\<dots> = (\<Sum>a \<in> set ?w. sint (f (asg_resources a)))"
    using d mem by (simp add: sum.reindex distinct_map)
  also have "\<dots> = load f i (ListAssignments s)"
    using d by (simp add: load_def sum_list_distinct_conv_sum_set distinct_map)
  finally show ?thesis by simp
qed

definition nonneg_work :: "(resource_requirements \<Rightarrow> goint) \<Rightarrow> mem_store \<Rightarrow> bool" where
  "nonneg_work f s \<longleftrightarrow> (\<forall>k a. fmlookup (m_assignments s) k = Some a \<longrightarrow> active a \<longrightarrow> 0 \<le> sint (f (asg_resources a)))"

lemma stored_load_shrinks:
  assumes "nonneg_work f s"
    and sub: "\<And>k b. fmlookup (m_assignments s') k = Some b \<Longrightarrow> active b \<Longrightarrow>
      \<exists>a. fmlookup (m_assignments s) k = Some a \<and> active a \<and> asg_node a = asg_node b \<and> asg_resources a = asg_resources b"
  shows "stored_load f i s' \<le> stored_load f i s \<and> nonneg_work f s'"
proof -
  have "stored_load f i s' = (\<Sum>k \<in> work_keys i s'. sint (f (asg_resources (the (fmlookup (m_assignments s) k)))))"
    unfolding stored_load_def by (rule sum.cong [OF refl]) (use sub in \<open>fastforce simp: work_keys_def\<close>)
  also have "\<dots> \<le> stored_load f i s"
    unfolding stored_load_def
    by (rule sum_mono2) (use sub assms(1) in \<open>fastforce simp: work_keys_def nonneg_work_def\<close>)+
  finally show ?thesis using assms(1) sub unfolding nonneg_work_def by metis
qed

lemma stored_load_Save:
  assumes "fmlookup (m_assignments s) (asg_ID a) = None" "active a"
  shows "stored_load f i (SaveAssignment a s) =
    stored_load f i s + (if asg_node a = i then sint (f (asg_resources a)) else 0)"
proof -
  have keys: "work_keys i (SaveAssignment a s) =
      (if asg_node a = i then insert (asg_ID a) (work_keys i s) else work_keys i s)"
    using assms by (auto simp: work_keys_def store_simps)
  have new: "asg_ID a \<notin> work_keys i s" using assms(1) by (auto simp: work_keys_def)
  have "(\<Sum>k \<in> work_keys i s. sint (f (asg_resources (the (fmlookup (m_assignments (SaveAssignment a s)) k))))) =
      stored_load f i s"
    unfolding stored_load_def by (rule sum.cong [OF refl]) (use new in \<open>auto simp: store_simps\<close>)
  then show ?thesis
    using new unfolding stored_load_def [of f i "SaveAssignment a s"] keys by (simp add: store_simps)
qed

text \<open>What a placement needs: the chosen node's capacity covers its load and the request.\<close>

lemma placement_load:
  assumes "wf_store s" "nonneg_work f s" "f = res_CPU \<or> f = res_Memory"
    and "ChooseNode sch now (ctl_nodes mem_iface c s) (ListAssignments s) req pl ports = Inr i"
    and "fmlookup (m_nodes s) i = Some n" "stored_load f i s \<le> sint (f (node_capacity n))"
  shows "stored_load f i s + sint (f req) \<le> sint (f (node_capacity n))"
proof -
  obtain m where m: "m \<in> set (ctl_nodes mem_iface c s)" "node_ID m = i"
      "eligible (NodeTimeout sch) now (ListAssignments s) req pl ports m"
    using ChooseNode_Inr [OF assms(4)] .
  then obtain m0 where "m0 \<in> set (ListNodes s)" "m = graced c m0" by (auto simp: ctl_nodes_graced)
  with m(2) have "m0 = n" using assms(5) by (simp add: mem_ListNodes [OF assms(1)])
  then have cap: "node_capacity m = node_capacity n" using \<open>m = graced c m0\<close> by simp
  have "0 \<le> sint (f (asg_resources a))" if "a \<in> set (work_on i (ListAssignments s))" for a
    using that assms(2) by (auto simp: work_on_def nonneg_work_def mem_ListAssignments [OF assms(1)])
  with m(2) assms(6) eligible_load [OF m(3) assms(3)] show ?thesis
    by (simp add: load_ListAssignments [OF assms(1)] cap)
qed

lemma ctl_step_load:
  assumes "ctl_step c now SV JB s s'" "wf_store s" "nonneg_work f s" "f = res_CPU \<or> f = res_Memory"
    and "\<And>v. v \<in> SV \<Longrightarrow> 0 \<le> sint (f (service_resources v))" "\<And>j. j \<in> JB \<Longrightarrow> 0 \<le> sint (f (job_resources j))"
    and "fmlookup (m_nodes s) i = Some n" "stored_load f i s \<le> sint (f (node_capacity n))"
  shows "nonneg_work f s' \<and> stored_load f i s' \<le> sint (f (node_capacity n))"
  using assms(1)
proof (cases rule: ctl_step.cases)
  case (step_place_service v k nid)
  then show ?thesis
    using placement_load [OF assms(2-4) step_place_service(4)] assms(3,5,7,8)
      stored_load_Save [of s "service_assignment v k nid now" f i]
    by (auto simp: nonneg_work_def store_simps)
next
  case (step_place_job j k nid)
  then show ?thesis
    using placement_load [OF assms(2-4) step_place_job(4)] assms(3,6-8)
      stored_load_Save [of s "job_assignment j k nid (of_nat (failures (ListAssignmentsForOwner KindJob (job_name j) s)) + 1) now" f i]
    by (auto simp: nonneg_work_def store_simps)
next
  case (step_lose k a)
  have "stored_load f i s' \<le> stored_load f i s \<and> nonneg_work f s'"
    by (rule stored_load_shrinks [OF assms(3)])
      (use step_lose in \<open>auto simp: store_simps applyStatus_phase split: if_splits\<close>)
  then show ?thesis using assms(8) by simp
next
  case (step_remove k a v)
  have "stored_load f i s' \<le> stored_load f i s \<and> nonneg_work f s'"
    by (rule stored_load_shrinks [OF assms(3)])
      (use step_remove in \<open>auto simp: store_simps split: if_splits\<close>)
  then show ?thesis using assms(8) by simp
qed (use assms(3,8) in \<open>simp_all add: nonneg_work_def stored_load_def work_keys_def\<close>)

lemma ctl_steps_load:
  assumes "ctl_steps c now SV JB s s'" "wf_store s" "nonneg_work f s" "f = res_CPU \<or> f = res_Memory"
    and "\<And>v. v \<in> SV \<Longrightarrow> 0 \<le> sint (f (service_resources v))" "\<And>j. j \<in> JB \<Longrightarrow> 0 \<le> sint (f (job_resources j))"
    and "fmlookup (m_nodes s) i = Some n" "stored_load f i s \<le> sint (f (node_capacity n))"
  shows "nonneg_work f s' \<and> stored_load f i s' \<le> sint (f (node_capacity n))"
  using assms(1)
proof (induction rule: rtranclp_induct)
  case base
  show ?case using assms(3,8) by simp
next
  case (step s1 s2)
  have "wf_store s1" "m_nodes s1 = m_nodes s"
    using step.hyps(1) assms(2) by (auto dest: ctl_steps_wf ctl_steps_nodes)
  then show ?case
    using step.IH assms(4-7) by (intro ctl_step_load [OF step.hyps(2)]) auto
qed

text \<open>
  C2: A run never overcommits a node: where the active work asks for nothing negative, a node
  whose CPU (or memory) load is within its capacity before the run is within it after the
  run, counting exactly and not in wrapped 64 bit sums.
\<close>

theorem Reconcile_no_overcommit:
  assumes "wf_store s" "same_timeout c" "Reconcile mem_iface c now ent s = Inr (c', s', ent')"
    and "f = res_CPU \<or> f = res_Memory"
    and "nonneg_work f s" "\<And>v. v \<in> set (ListServices s) \<Longrightarrow> 0 \<le> sint (f (service_resources v))"
    and "\<And>j. j \<in> set (ListJobs s) \<Longrightarrow> 0 \<le> sint (f (job_resources j))"
    and "fmlookup (m_nodes s) i = Some n" "stored_load f i s \<le> sint (f (node_capacity n))"
  shows "fmlookup (m_nodes s') i = Some n \<and> stored_load f i s' \<le> sint (f (node_capacity n))"
proof -
  have steps: "ctl_steps (started c now) now (set (ListServices s)) (set (ListJobs s)) s s'"
    using Reconcile_steps [OF assms(1-3)] by blast
  then show ?thesis
    using ctl_steps_load [OF steps assms(1,5,4) assms(6-9)] ctl_steps_nodes [OF steps] assms(8) by auto
qed

end
