(* ===== verification/Store_Refinement.thy ===== *)
theory Store_Refinement
  imports Reconcile
begin

text \<open>
  The client side of the store contract: over any implementation that meets it, each
  operation of the controller does to the implementation's view what it does to a
  \<open>MemoryStore\<close>, returns the same results, uses the same random bytes and panics in the same
  cases. So every theorem about the controller over \<open>MemoryStore\<close> holds over each such
  implementation.
\<close>

definition tracks :: "('s \<Rightarrow> bool) \<Rightarrow> ('s \<Rightarrow> mem_store) \<Rightarrow> 's \<times> 'a \<Rightarrow> mem_store \<times> 'a \<Rightarrow> bool" where
  "tracks iv vw = (\<lambda>(st, x) (s, y). iv st \<and> vw st = s \<and> x = y)"

lemma tracks_iff [simp]: "tracks iv vw (st, x) (s, y) \<longleftrightarrow> iv st \<and> vw st = s \<and> x = y"
  by (simp add: tracks_def)

lemma rel_sum_Inr_Inl [simp]: "rel_sum (=) P (Inr x) (Inr y) \<longleftrightarrow> P x y" "rel_sum (=) P (Inl e) (Inl f) \<longleftrightarrow> e = f"
  by simp_all

text \<open>The only time in a job status is the finish time of a listed assignment.\<close>

lemma scan_job_status_ok:
  assumes "\<forall>a \<in> set as. \<forall>t. finished_at a = Some t \<longrightarrow> ok t" "completed_at (scan_status w) = None"
  shows "case scan_job live as w of Inl st \<Rightarrow> job_status_ok ok st | Inr w' \<Rightarrow> completed_at (scan_status w') = None"
  using assms
proof (induction as arbitrary: w)
  case Nil
  then show ?case by simp
next
  case (Cons a as)
  have "completed_at (scan_status (note_terminal a w)) = None"
    using Cons.prems(2) by (simp add: note_terminal_def Let_def)
  with Cons show ?case by (auto simp: job_status_ok_def split: option.split)
qed

context store_contract
begin

lemma ctl_nodes_view: "inv st \<Longrightarrow> ctl_nodes I c st = ctl_nodes mem_iface c (view st)"
  by (simp add: ctl_nodes_def ListNodes)

lemma mark_lost_view:
  assumes "inv st" "ok now"
  shows "inv (mark_lost I now live a st) \<and> view (mark_lost I now live a st) = mark_lost mem_iface now live a (view st)"
  using assms by (simp add: mark_lost_def contract)

lemma fold_mark_lost_view:
  assumes "inv st" "ok now"
  shows "inv (fold (mark_lost I now live) as st) \<and>
    view (fold (mark_lost I now live) as st) = fold (mark_lost mem_iface now live) as (view st)"
  using assms by (induction as arbitrary: st) (simp_all add: mark_lost_view)

lemma markLost_view:
  assumes "inv st" "ok now"
  shows "inv (markLostAssignments I c now st) \<and>
    view (markLostAssignments I c now st) = markLostAssignments mem_iface c now (view st)"
  using fold_mark_lost_view [OF assms] assms(1)
  by (simp add: markLostAssignments_def Let_def ctl_nodes_view contract)

lemma nextAssignmentID_view:
  assumes "inv st"
  shows "nextAssignmentID I st owner att ent = nextAssignmentID mem_iface (view st) owner att ent"
proof (induction "length ent" arbitrary: ent rule: less_induct)
  case less
  show ?case
  proof (cases "length ent < 5")
    case True
    then show ?thesis by (simp add: nextAssignmentID_dry)
  next
    case False
    then have len: "5 \<le> length ent" by simp
    then have "length (drop 5 ent) < length ent" by simp
    note IH = less.hyps [OF this]
    show ?thesis
      unfolding nextAssignmentID_step [OF len refl, of I] nextAssignmentID_step [OF len refl, of mem_iface] IH
      using assms by (simp add: HasAssignment)
  qed
qed

lemma delete_all_view:
  assumes "inv st"
  shows "inv (delete_all I xs st) \<and> view (delete_all I xs st) = delete_all mem_iface xs (view st)"
  using assms unfolding delete_all_def
  by (induction xs arbitrary: st) (simp_all add: contract)

lemma scale_down_view:
  assumes "inv st"
  shows "rel_sum (=) (tracks inv view) (scale_down I live v st) (scale_down mem_iface live v (view st))"
  using assms
  by (auto simp: scale_down_def Let_def contract delete_all_view intro!: and_then_rel [where P = "(=)"]
      sum.rel_refl)

lemma scale_up_view:
  assumes "inv st" "ok now"
  shows "rel_sum (=) (tracks inv view) (scale_up I c now v act ent st) (scale_up mem_iface c now v act ent (view st))"
  using assms(1)
proof (induction "nat (sint (service_replicas v) - int (length act))" arbitrary: act ent st rule: less_induct)
  case less
  show ?case
  proof (cases "int (length act) < sint (service_replicas v)")
    case True
    let ?ch = "ChooseNode (ctl_scheduler c) now (ctl_nodes mem_iface c (view st)) (ListAssignments (view st))
      (service_resources v) (service_placement v) (service_ports v)"
    show ?thesis
    proof (cases ?ch)
      case (Inl e)
      then show ?thesis
        using less.prems True by (subst (1 2) scale_up.simps) (simp add: ctl_nodes_view contract)
    next
      case (Inr nid)
      have "rel_sum (=) (tracks inv view)
        (scale_up I c now v (act @ [service_assignment v i nid now]) ent1
          (op_SaveAssignment I (service_assignment v i nid now) st))
        (scale_up mem_iface c now v (act @ [service_assignment v i nid now]) ent1
          (SaveAssignment (service_assignment v i nid now) (view st)))" for i ent1
      proof -
        have okay: "assignment_ok ok (service_assignment v i nid now)"
          using assms(2) by (simp add: assignment_ok_def)
        have "nat (sint (service_replicas v) - int (length (act @ [service_assignment v i nid now]))) <
            nat (sint (service_replicas v) - int (length act))"
          using True by simp
        then show ?thesis
          using less.hyps SaveAssignment [OF less.prems okay] by metis
      qed
      then show ?thesis
        using less.prems True Inr
        by (subst (1 2) scale_up.simps)
          (auto simp: ctl_nodes_view contract nextAssignmentID_view Let_def split: sum.split
            intro!: and_then_rel [where P = "(=)"] sum.rel_refl)
    qed
  next
    case False
    then show ?thesis using less.prems by (subst (1 2) scale_up.simps) simp
  qed
qed

lemma reconcileService_view:
  assumes "inv st" "ok now"
  shows "rel_sum (=) (tracks inv view) (reconcileService I c now v ent st)
    (reconcileService mem_iface c now v ent (view st))"
proof -
  have "rel_sum (=) (tracks inv view)
    (and_then (scale_up I c now v act ent st1) (\<lambda>(st2, ent2).
       Inr (fst (op_UpdateServiceStatus I (service_name v) (replica_status live v now
         (op_ListAssignmentsForOwner I KindService (service_name v) st2)) st2), ent2)))
    (and_then (scale_up mem_iface c now v act ent (view st1)) (\<lambda>(st2, ent2).
       Inr (fst (UpdateServiceStatus (service_name v) (replica_status live v now
         (ListAssignmentsForOwner KindService (service_name v) st2)) st2), ent2)))"
    if "inv st1" for live act st1
    by (rule and_then_rel [OF scale_up_view [OF that assms(2)]])
      (auto simp: contract plain_replica_status)
  then show ?thesis
    unfolding reconcileService_def Let_def ctl_nodes_view [OF assms(1)] mem_iface_ops
    by (intro and_then_rel [OF scale_down_view [OF assms(1)]]) auto
qed

lemma reconcile_services_view:
  assumes "inv st" "ok now"
  shows "rel_sum (=) (tracks inv view) (reconcile_services I c now vs ent st)
    (reconcile_services mem_iface c now vs ent (view st))"
  using assms(1)
proof (induction vs arbitrary: st ent)
  case Nil
  then show ?case by simp
next
  case (Cons v vs)
  have "rel_sum (=) (tracks inv view) (reconcile_services I c now (v # vs) ent st)
    (reconcile_services mem_iface c now (v # vs) ent (view st))"
    unfolding reconcile_services.simps
    by (rule and_then_rel [OF reconcileService_view [OF Cons.prems assms(2)]]) (auto intro: Cons.IH)
  then show ?case .
qed

lemma reconcileJob_view:
  assumes "inv st" "ok now"
  shows "rel_sum (=) (tracks inv view) (reconcileJob I c now j ent st) (reconcileJob mem_iface c now j ent (view st))"
proof -
  let ?as = "ListAssignmentsForOwner KindJob (job_name j) (view st)"
  let ?live = "liveNodeSet now (ctl_nodes mem_iface c (view st)) (ctl_nodeTimeout c)"
  have wf: "wf_store (view st)" using assms(1) by (rule wf_view)
  have "\<forall>a \<in> set ?as. \<forall>t. finished_at a = Some t \<longrightarrow> ok t"
    using listed_ok [OF assms(1)] by (auto simp: mem_ListAssignmentsForOwner [OF wf])
  then have scan: "case scan_job ?live ?as scan_start of Inl st \<Rightarrow> job_status_ok ok st
      | Inr w \<Rightarrow> completed_at (scan_status w) = None"
    by (intro scan_job_status_ok) (simp_all add: scan_start_def zero_job_status_def)
  have put: "rel_sum (=) (tracks inv view) (Inr (fst (op_UpdateJobStatus I nm jst s1), e))
      (Inr (fst (UpdateJobStatus nm jst (view s1)), e))"
    if "inv s1" "job_status_ok ok jst" for nm jst s1 and e :: entropy
    using that by (simp add: contract)
  show ?thesis
  proof (cases "scan_job ?live ?as scan_start")
    case (Inl jst)
    with scan show ?thesis
      using put [OF assms(1)] by (simp add: reconcileJob_def Let_def ctl_nodes_view [OF assms(1)] contract assms(1))
  next
    case (Inr w)
    with scan have none: "completed_at (scan_status w) = None" by simp
    have okay: "assignment_ok ok (job_assignment j i nid att now)" for i nid att
      using assms(2) by (simp add: assignment_ok_def)
    have start: "rel_sum (=) (tracks inv view)
       (and_then (nextAssignmentID I st (job_name j) att ent) (\<lambda>(i, ent').
          Inr (fst (op_UpdateJobStatus I (job_name j) (stat\<lparr>active_assignment_ID := i, last_assignment_ID := i\<rparr>)
            (op_SaveAssignment I (job_assignment j i nid att now) st)), ent')))
       (and_then (nextAssignmentID mem_iface (view st) (job_name j) att ent) (\<lambda>(i, ent').
          Inr (fst (UpdateJobStatus (job_name j) (stat\<lparr>active_assignment_ID := i, last_assignment_ID := i\<rparr>)
            (SaveAssignment (job_assignment j i nid att now) (view st))), ent')))"
      if "completed_at stat = None" for stat att nid
      unfolding nextAssignmentID_view [OF assms(1)]
    proof (rule and_then_rel [where P = "(=)"])
      show "rel_sum (=) (=) (nextAssignmentID mem_iface (view st) (job_name j) att ent)
        (nextAssignmentID mem_iface (view st) (job_name j) att ent)"
        by (rule sum.rel_refl) simp_all
      fix x y :: "string \<times> entropy"
      assume "x = y"
      then show "rel_sum (=) (tracks inv view)
        (case x of (i, ent') \<Rightarrow> Inr (fst (op_UpdateJobStatus I (job_name j)
            (stat\<lparr>active_assignment_ID := i, last_assignment_ID := i\<rparr>)
            (op_SaveAssignment I (job_assignment j i nid att now) st)), ent'))
        (case y of (i, ent') \<Rightarrow> Inr (fst (UpdateJobStatus (job_name j)
            (stat\<lparr>active_assignment_ID := i, last_assignment_ID := i\<rparr>)
            (SaveAssignment (job_assignment j i nid att now) (view st))), ent'))"
        using that SaveAssignment [OF assms(1) okay]
        by (cases y) (simp add: contract job_status_ok_def)
    qed
    show ?thesis
      unfolding reconcileJob_def Let_def ctl_nodes_view [OF assms(1)] mem_iface_ops
        ListAssignmentsForOwner [OF assms(1) constants_ok(8)] ListAssignments [OF assms(1)] Inr sum.case
      by (cases "scan_active w"; cases "latest_terminal w")
        (auto simp: job_status_ok_def none contract assms(1) intro!: start split: sum.split)
  qed
qed

lemma reconcile_jobs_view:
  assumes "inv st" "ok now"
  shows "rel_sum (=) (tracks inv view) (reconcile_jobs I c now js ent st) (reconcile_jobs mem_iface c now js ent (view st))"
  using assms(1)
proof (induction js arbitrary: st ent)
  case Nil
  then show ?case by simp
next
  case (Cons j js)
  show ?case
    unfolding reconcile_jobs.simps
    by (rule and_then_rel [OF reconcileJob_view [OF Cons.prems assms(2)]]) (auto intro: Cons.IH)
qed

lemma Reconcile_view:
  assumes "inv st" "ok now"
  shows "rel_sum (=) (\<lambda>(c1, st1, e1) (c2, s2, e2). c1 = c2 \<and> inv st1 \<and> view st1 = s2 \<and> e1 = e2)
    (Reconcile I c now ent st) (Reconcile mem_iface c now ent (view st))"
proof -
  let ?c = "started c now"
  let ?st1 = "markLostAssignments I ?c now st" and ?s1 = "markLostAssignments mem_iface ?c now (view st)"
  have one: "inv ?st1" "view ?st1 = ?s1" using markLost_view [OF assms] by auto
  have jobs: "rel_sum (=) (\<lambda>(c1, st1, e1) (c2, s2, e2). c1 = c2 \<and> inv st1 \<and> view st1 = s2 \<and> e1 = e2)
      (and_then (reconcile_jobs I ?c now (ListJobs (view st2)) e st2) (\<lambda>(st3, e3). Inr (?c, st3, e3)))
      (and_then (reconcile_jobs mem_iface ?c now (ListJobs (view st2)) e (view st2)) (\<lambda>(st3, e3). Inr (?c, st3, e3)))"
    if "inv st2" for st2 e
    by (rule and_then_rel [OF reconcile_jobs_view [OF that assms(2)]]) auto
  show ?thesis
    unfolding Reconcile_def Let_def mem_iface_ops ListServices [OF one(1)] one(2)
  proof (rule and_then_rel [OF reconcile_services_view [OF one(1) assms(2), unfolded one(2)]])
    fix x :: "'s \<times> entropy" and y :: "mem_store \<times> entropy"
    assume xy: "tracks inv view x y"
    obtain st2 e where x: "x = (st2, e)" by (cases x)
    with xy have y: "y = (view st2, e)" and inv: "inv st2" by (cases y; simp)+
    show "rel_sum (=) (\<lambda>(c1, st1, e1) (c2, s2, e2). c1 = c2 \<and> inv st1 \<and> view st1 = s2 \<and> e1 = e2)
      (case x of (st2, ent2) \<Rightarrow> and_then (reconcile_jobs I ?c now (op_ListJobs I st2) ent2 st2)
         (\<lambda>(st3, ent3). Inr (?c, st3, ent3)))
      (case y of (st2, ent2) \<Rightarrow> and_then (reconcile_jobs mem_iface ?c now (ListJobs st2) ent2 st2)
         (\<lambda>(st3, ent3). Inr (?c, st3, ent3)))"
      unfolding x y prod.case ListJobs [OF inv] by (rule jobs [OF inv])
  qed
qed

end

section \<open>Sequences of calls\<close>

text \<open>
  Everything a client can do with a store, as data: a call of the interface, its reply, and the
  replies to a sequence of calls. Two implementations that answer every sequence alike cannot
  be told apart by the controller or by the API.
\<close>

datatype store_call =
    CallUpsertNode node
  | CallTouchNode string time
  | CallListNodes
  | CallUpsertService service
  | CallUpdateServiceStatus string service_status
  | CallListServices
  | CallDeleteService string
  | CallUpsertJob job
  | CallUpdateJobStatus string job_status
  | CallListJobs
  | CallDeleteJob string
  | CallSaveAssignment assignment
  | CallDeleteAssignment string
  | CallUpdateAssignmentStatus string assignment_phase string time
  | CallListAssignments
  | CallListNodeAssignments string
  | CallListAssignmentsForOwner workload_kind string
  | CallHasAssignment string
  | CallSnapshot

datatype store_reply =
    RNone
  | RBool bool
  | RNodes "node list"
  | RServices "service list"
  | RJobs "job list"
  | RAssignments "assignment list"
  | RUpdated "assignment option"
  | RSnapshot state_snapshot

fun exec_call :: "'s store_iface \<Rightarrow> store_call \<Rightarrow> 's \<Rightarrow> 's \<times> store_reply" where
  "exec_call I (CallUpsertNode n) s = (op_UpsertNode I n s, RNone)"
| "exec_call I (CallTouchNode i now) s = apsnd RBool (op_TouchNode I i now s)"
| "exec_call I CallListNodes s = (s, RNodes (op_ListNodes I s))"
| "exec_call I (CallUpsertService v) s = (op_UpsertService I v s, RNone)"
| "exec_call I (CallUpdateServiceStatus i st) s = apsnd RBool (op_UpdateServiceStatus I i st s)"
| "exec_call I CallListServices s = (s, RServices (op_ListServices I s))"
| "exec_call I (CallDeleteService i) s = apsnd RBool (op_DeleteService I i s)"
| "exec_call I (CallUpsertJob j) s = (op_UpsertJob I j s, RNone)"
| "exec_call I (CallUpdateJobStatus i st) s = apsnd RBool (op_UpdateJobStatus I i st s)"
| "exec_call I CallListJobs s = (s, RJobs (op_ListJobs I s))"
| "exec_call I (CallDeleteJob i) s = apsnd RBool (op_DeleteJob I i s)"
| "exec_call I (CallSaveAssignment a) s = (op_SaveAssignment I a s, RNone)"
| "exec_call I (CallDeleteAssignment i) s = apsnd RBool (op_DeleteAssignment I i s)"
| "exec_call I (CallUpdateAssignmentStatus i p m now) s = apsnd RUpdated (op_UpdateAssignmentStatus I i p m now s)"
| "exec_call I CallListAssignments s = (s, RAssignments (op_ListAssignments I s))"
| "exec_call I (CallListNodeAssignments i) s = (s, RAssignments (op_ListNodeAssignments I i s))"
| "exec_call I (CallListAssignmentsForOwner kind i) s = (s, RAssignments (op_ListAssignmentsForOwner I kind i s))"
| "exec_call I (CallHasAssignment i) s = (s, RBool (op_HasAssignment I i s))"
| "exec_call I CallSnapshot s = (s, RSnapshot (op_Snapshot I s))"

fun exec_calls :: "'s store_iface \<Rightarrow> store_call list \<Rightarrow> 's \<Rightarrow> 's \<times> store_reply list" where
  "exec_calls I [] s = (s, [])"
| "exec_calls I (x # xs) s =
    (let (s1, r) = exec_call I x s; (s2, rs) = exec_calls I xs s1 in (s2, r # rs))"

text \<open>The arguments an implementation can represent, as the contract states them.\<close>

fun call_ok :: "(time \<Rightarrow> bool) \<Rightarrow> store_call \<Rightarrow> bool" where
  "call_ok ok (CallUpsertNode n) = node_ok ok n"
| "call_ok ok (CallTouchNode i now) = ok now"
| "call_ok ok (CallUpdateServiceStatus i st) = plain_status st"
| "call_ok ok (CallUpsertJob j) = job_status_ok ok (job_st j)"
| "call_ok ok (CallUpdateJobStatus i st) = job_status_ok ok st"
| "call_ok ok (CallSaveAssignment a) = assignment_ok ok a"
| "call_ok ok (CallUpdateAssignmentStatus i p m now) = (ok now \<and> phase_ok p)"
| "call_ok ok (CallListAssignmentsForOwner kind i) = kind_ok kind"
| "call_ok ok _ = True"

context store_contract
begin

lemma exec_call_view:
  assumes "inv st" "call_ok ok x"
  shows "inv (fst (exec_call I x st)) \<and> view (fst (exec_call I x st)) = fst (exec_call mem_iface x (view st)) \<and>
    snd (exec_call I x st) = snd (exec_call mem_iface x (view st))"
  using assms by (cases x) (simp_all add: contract)

lemma exec_calls_view:
  assumes "inv st" "\<And>x. x \<in> set xs \<Longrightarrow> call_ok ok x"
  shows "inv (fst (exec_calls I xs st)) \<and>
    view (fst (exec_calls I xs st)) = fst (exec_calls mem_iface xs (view st)) \<and>
    snd (exec_calls I xs st) = snd (exec_calls mem_iface xs (view st))"
  using assms
proof (induction xs arbitrary: st)
  case (Cons x xs)
  have x: "inv (fst (exec_call I x st))" "view (fst (exec_call I x st)) = fst (exec_call mem_iface x (view st))"
    "snd (exec_call I x st) = snd (exec_call mem_iface x (view st))"
    using exec_call_view [of st x] Cons.prems by simp_all
  from Cons.IH [OF x(1)] Cons.prems(2) x show ?case
    by (simp add: Let_def split_beta)
qed simp

end

end
