(* ===== verification/Sqlite_Store.thy ===== *)
theory Sqlite_Store
  imports Store_Refinement Json
begin

text \<open>
  \<open>SQLiteStore\<close> of \<open>internal/store/sqlite.go\<close>: four tables with JSON in their \<open>data\<close> column and,
  for assignments, the columns the queries use. Each SQL statement of the source is a function
  on the tables. A database or JSON error ends the process (\<open>log.Fatalf\<close>); the flag \<open>halted\<close>
  records that. The store's single connection makes each transaction one step. The theory
  interprets the store contract: seen through the decoded rows, the store is a \<open>MemoryStore\<close>.
\<close>

section \<open>Tables and statements\<close>

record asg_row =
  row_node_id :: string
  row_owner_kind :: string
  row_owner_name :: string
  row_created_at :: int
  row_data :: json

record sqlite_store =
  t_nodes :: "(string, json) fmap"
  t_services :: "(string, json) fmap"
  t_jobs :: "(string, json) fmap"
  t_assignments :: "(string, asg_row) fmap"
  halted :: bool

definition OpenSQLite_empty :: sqlite_store where
  "OpenSQLite_empty = \<lparr>t_nodes = fmempty, t_services = fmempty, t_jobs = fmempty,
     t_assignments = fmempty, halted = False\<rparr>"

text \<open>Nanoseconds since 1970 as an \<open>int64\<close>, which wraps outside the years 1678 to 2262.\<close>

definition UnixNano :: "time \<Rightarrow> int" where
  "UnixNano t = sint (word_of_int (t - 62135596800000000000) :: goint)"

text \<open>\<open>encode\<close>: \<open>json.Marshal\<close>, which fails on a time outside the years 0 to 9999.\<close>

definition encode_node :: "node \<Rightarrow> json option" where
  "encode_node n = (if rfc3339_ok (last_heartbeat n) then Some (enc_node n) else None)"

definition encode_service :: "service \<Rightarrow> json option" where
  "encode_service v = Some (enc_service v)"

definition encode_job :: "job \<Rightarrow> json option" where
  "encode_job j = (if job_encodable j then Some (enc_job j) else None)"

definition encode_assignment :: "assignment \<Rightarrow> json option" where
  "encode_assignment a =
     (if rfc3339_ok (created_at a) \<and> (case started_at a of None \<Rightarrow> True | Some t \<Rightarrow> rfc3339_ok t) \<and>
         (case finished_at a of None \<Rightarrow> True | Some t \<Rightarrow> rfc3339_ok t)
      then Some (enc_assignment a) else None)"

definition halt :: "sqlite_store \<Rightarrow> sqlite_store" where
  "halt db = db\<lparr>halted := True\<rparr>"

text \<open>
  \<open>INSERT INTO t (key, data) VALUES (?, ?) ON CONFLICT (key) DO UPDATE SET data = excluded.data\<close>.
\<close>

definition insert_row :: "string \<Rightarrow> json option \<Rightarrow>
    (((string, json) fmap \<Rightarrow> (string, json) fmap) \<Rightarrow> sqlite_store \<Rightarrow> sqlite_store) \<Rightarrow> sqlite_store \<Rightarrow> sqlite_store" where
  "insert_row key data upd db = (case data of None \<Rightarrow> halt db | Some j \<Rightarrow> upd (fmupd key j) db)"

text \<open>
  \<open>update\<close>: load the row's data, decode it, mutate it, encode it and write it back. The three
  tables with a key and data share it; for assignments the other columns stay.
\<close>

definition update_row ::
  "'a decoder \<Rightarrow> 'a \<Rightarrow> ('a \<Rightarrow> json option) \<Rightarrow> (sqlite_store \<Rightarrow> (string, json) fmap) \<Rightarrow>
   (((string, json) fmap \<Rightarrow> (string, json) fmap) \<Rightarrow> sqlite_store \<Rightarrow> sqlite_store) \<Rightarrow>
   string \<Rightarrow> ('a \<Rightarrow> 'a) \<Rightarrow> sqlite_store \<Rightarrow> sqlite_store \<times> bool" where
  "update_row dec zero enc tbl upd key mutate db = (case fmlookup (tbl db) key of
     None \<Rightarrow> (db, False)
   | Some data \<Rightarrow> (case dec data zero of
       None \<Rightarrow> (halt db, True)
     | Some item \<Rightarrow> (case enc (mutate item) of
         None \<Rightarrow> (halt db, True)
       | Some data' \<Rightarrow> (upd (fmupd key data') db, True))))"

text \<open>\<open>list\<close> on the rows a query returned, in its order. A row that does not decode ends the process.\<close>

definition list_rows :: "'a decoder \<Rightarrow> 'a \<Rightarrow> json list \<Rightarrow> 'a list" where
  "list_rows dec zero rows = (if \<exists>j \<in> set rows. dec j zero = None then []
     else map (\<lambda>j. the (dec j zero)) rows)"

text \<open>\<open>SELECT data FROM t ORDER BY key\<close>, and \<open>\<dots> FROM assignments WHERE \<dots> ORDER BY created_at, id\<close>.\<close>

definition select_by_key :: "(string, json) fmap \<Rightarrow> json list" where
  "select_by_key t = map snd (sorted_list_of_fmap t)"

definition row_before :: "string \<times> asg_row \<Rightarrow> string \<times> asg_row \<Rightarrow> bool" where
  "row_before x y =
     (if row_created_at (snd x) = row_created_at (snd y) then fst x < fst y
      else row_created_at (snd x) < row_created_at (snd y))"

definition select_assignments :: "(asg_row \<Rightarrow> bool) \<Rightarrow> sqlite_store \<Rightarrow> json list" where
  "select_assignments P db = map (\<lambda>x. row_data (snd x))
     (sort_slice row_before (filter (\<lambda>x. P (snd x)) (sorted_list_of_fmap (t_assignments db))))"

section \<open>The store's methods\<close>

definition sql_UpsertNode :: "node \<Rightarrow> sqlite_store \<Rightarrow> sqlite_store" where
  "sql_UpsertNode n db = insert_row (node_ID n) (encode_node n) t_nodes_update db"

definition sql_TouchNode :: "string \<Rightarrow> time \<Rightarrow> sqlite_store \<Rightarrow> sqlite_store \<times> bool" where
  "sql_TouchNode i now db = update_row (dec_node False) zero_node encode_node t_nodes t_nodes_update i
     (\<lambda>n. n\<lparr>last_heartbeat := now\<rparr>) db"

definition sql_ListNodes :: "sqlite_store \<Rightarrow> node list" where
  "sql_ListNodes db = list_rows (dec_node False) zero_node (select_by_key (t_nodes db))"

definition sql_UpsertService :: "service \<Rightarrow> sqlite_store \<Rightarrow> sqlite_store" where
  "sql_UpsertService v db = insert_row (service_name v) (encode_service v) t_services_update db"

definition sql_UpdateServiceStatus :: "string \<Rightarrow> service_status \<Rightarrow> sqlite_store \<Rightarrow> sqlite_store \<times> bool" where
  "sql_UpdateServiceStatus nm st db = update_row (dec_service False) zero_service encode_service
     t_services t_services_update nm (\<lambda>v. v\<lparr>service_st := st\<rparr>) db"

definition sql_ListServices :: "sqlite_store \<Rightarrow> service list" where
  "sql_ListServices db = list_rows (dec_service False) zero_service (select_by_key (t_services db))"

text \<open>\<open>deleteOwner\<close>: \<open>DELETE FROM t WHERE name = ?\<close>, then, if a row went, the owner's assignments.\<close>

definition deleteOwner ::
  "(sqlite_store \<Rightarrow> (string, json) fmap) \<Rightarrow>
   (((string, json) fmap \<Rightarrow> (string, json) fmap) \<Rightarrow> sqlite_store \<Rightarrow> sqlite_store) \<Rightarrow>
   workload_kind \<Rightarrow> string \<Rightarrow> sqlite_store \<Rightarrow> sqlite_store \<times> bool" where
  "deleteOwner tbl upd kind nm db =
     (if fmlookup (tbl db) nm = None then (db, False)
      else ((upd (fmdrop nm) db)\<lparr>t_assignments :=
          fm_delete_where (\<lambda>r. row_owner_kind r = kind_string kind \<and> row_owner_name r = nm)
            (t_assignments db)\<rparr>, True))"

definition sql_DeleteService :: "string \<Rightarrow> sqlite_store \<Rightarrow> sqlite_store \<times> bool" where
  "sql_DeleteService nm db = deleteOwner t_services t_services_update KindService nm db"

definition sql_UpsertJob :: "job \<Rightarrow> sqlite_store \<Rightarrow> sqlite_store" where
  "sql_UpsertJob j db = insert_row (job_name j) (encode_job j) t_jobs_update db"

definition sql_UpdateJobStatus :: "string \<Rightarrow> job_status \<Rightarrow> sqlite_store \<Rightarrow> sqlite_store \<times> bool" where
  "sql_UpdateJobStatus nm st db = update_row (dec_job False) zero_job encode_job
     t_jobs t_jobs_update nm (\<lambda>j. j\<lparr>job_st := st\<rparr>) db"

definition sql_ListJobs :: "sqlite_store \<Rightarrow> job list" where
  "sql_ListJobs db = list_rows (dec_job False) zero_job (select_by_key (t_jobs db))"

definition sql_DeleteJob :: "string \<Rightarrow> sqlite_store \<Rightarrow> sqlite_store \<times> bool" where
  "sql_DeleteJob nm db = deleteOwner t_jobs t_jobs_update KindJob nm db"

definition sql_SaveAssignment :: "assignment \<Rightarrow> sqlite_store \<Rightarrow> sqlite_store" where
  "sql_SaveAssignment a db = (case encode_assignment a of
     None \<Rightarrow> halt db
   | Some data \<Rightarrow> db\<lparr>t_assignments := fmupd (asg_ID a)
       \<lparr>row_node_id = asg_node a, row_owner_kind = kind_string (owner_kind a),
        row_owner_name = owner_name a, row_created_at = UnixNano (created_at a), row_data = data\<rparr>
       (t_assignments db)\<rparr>)"

definition sql_DeleteAssignment :: "string \<Rightarrow> sqlite_store \<Rightarrow> sqlite_store \<times> bool" where
  "sql_DeleteAssignment i db =
     (db\<lparr>t_assignments := fmdrop i (t_assignments db)\<rparr>, fmlookup (t_assignments db) i \<noteq> None)"

definition sql_UpdateAssignmentStatus ::
  "string \<Rightarrow> assignment_phase \<Rightarrow> string \<Rightarrow> time \<Rightarrow> sqlite_store \<Rightarrow> sqlite_store \<times> assignment option" where
  "sql_UpdateAssignmentStatus i phase message now db = (case fmlookup (t_assignments db) i of
     None \<Rightarrow> (db, None)
   | Some r \<Rightarrow> (case dec_assignment False (row_data r) zero_assignment of
       None \<Rightarrow> (halt db, None)
     | Some a \<Rightarrow>
         let a' = fst (applyStatus phase message now a)
         in case encode_assignment a' of
              None \<Rightarrow> (halt db, None)
            | Some data \<Rightarrow>
                (db\<lparr>t_assignments := fmupd i (r\<lparr>row_data := data\<rparr>) (t_assignments db)\<rparr>, Some a')))"

definition list_assignments :: "(asg_row \<Rightarrow> bool) \<Rightarrow> sqlite_store \<Rightarrow> assignment list" where
  "list_assignments P db = list_rows (dec_assignment False) zero_assignment (select_assignments P db)"

definition sql_ListAssignments :: "sqlite_store \<Rightarrow> assignment list" where
  "sql_ListAssignments db = list_assignments (\<lambda>_. True) db"

definition sql_ListNodeAssignments :: "string \<Rightarrow> sqlite_store \<Rightarrow> assignment list" where
  "sql_ListNodeAssignments i db = list_assignments (\<lambda>r. row_node_id r = i) db"

definition sql_ListAssignmentsForOwner :: "workload_kind \<Rightarrow> string \<Rightarrow> sqlite_store \<Rightarrow> assignment list" where
  "sql_ListAssignmentsForOwner kind nm db =
     list_assignments (\<lambda>r. row_owner_kind r = kind_string kind \<and> row_owner_name r = nm) db"

definition sql_HasAssignment :: "string \<Rightarrow> sqlite_store \<Rightarrow> bool" where
  "sql_HasAssignment i db \<longleftrightarrow> fmlookup (t_assignments db) i \<noteq> None"

definition sql_Snapshot :: "sqlite_store \<Rightarrow> state_snapshot" where
  "sql_Snapshot db = \<lparr>snap_nodes = sql_ListNodes db, snap_services = sql_ListServices db,
     snap_jobs = sql_ListJobs db, snap_assignments = sql_ListAssignments db\<rparr>"

definition sqlite_iface :: "sqlite_store store_iface" where
  "sqlite_iface = \<lparr>
     op_UpsertNode = sql_UpsertNode,
     op_TouchNode = sql_TouchNode,
     op_ListNodes = sql_ListNodes,
     op_UpsertService = sql_UpsertService,
     op_UpdateServiceStatus = sql_UpdateServiceStatus,
     op_ListServices = sql_ListServices,
     op_DeleteService = sql_DeleteService,
     op_UpsertJob = sql_UpsertJob,
     op_UpdateJobStatus = sql_UpdateJobStatus,
     op_ListJobs = sql_ListJobs,
     op_DeleteJob = sql_DeleteJob,
     op_SaveAssignment = sql_SaveAssignment,
     op_DeleteAssignment = sql_DeleteAssignment,
     op_UpdateAssignmentStatus = sql_UpdateAssignmentStatus,
     op_ListAssignments = sql_ListAssignments,
     op_ListNodeAssignments = sql_ListNodeAssignments,
     op_ListAssignmentsForOwner = sql_ListAssignmentsForOwner,
     op_HasAssignment = sql_HasAssignment,
     op_Snapshot = sql_Snapshot\<rparr>"

section \<open>Abstraction\<close>

definition time_ok :: "time \<Rightarrow> bool" where
  "time_ok t \<longleftrightarrow> - (2 ^ 63) \<le> t - 62135596800000000000 \<and> t - 62135596800000000000 < 2 ^ 63"

definition row_of :: "assignment \<Rightarrow> asg_row" where
  "row_of a = \<lparr>row_node_id = asg_node a, row_owner_kind = kind_string (owner_kind a),
     row_owner_name = owner_name a, row_created_at = UnixNano (created_at a), row_data = enc_assignment a\<rparr>"

definition sqlite_view :: "sqlite_store \<Rightarrow> mem_store" where
  "sqlite_view db = \<lparr>
     m_nodes = fmmap (\<lambda>j. the (dec_node False j zero_node)) (t_nodes db),
     m_services = fmmap (\<lambda>j. the (dec_service False j zero_service)) (t_services db),
     m_jobs = fmmap (\<lambda>j. the (dec_job False j zero_job)) (t_jobs db),
     m_assignments = fmmap (\<lambda>r. the (dec_assignment False (row_data r) zero_assignment)) (t_assignments db)\<rparr>"

text \<open>Every row is the encoding of a record in normal form filed under its own key.\<close>

definition sqlite_inv :: "sqlite_store \<Rightarrow> bool" where
  "sqlite_inv db \<longleftrightarrow> \<not> halted db \<and>
     (\<forall>k j. fmlookup (t_nodes db) k = Some j \<longrightarrow>
        (\<exists>n. j = enc_node n \<and> node_ID n = k \<and> Node_Clone n = n \<and> node_ok time_ok n)) \<and>
     (\<forall>k j. fmlookup (t_services db) k = Some j \<longrightarrow>
        (\<exists>v. j = enc_service v \<and> service_name v = k \<and> Service_Clone v = v)) \<and>
     (\<forall>k j. fmlookup (t_jobs db) k = Some j \<longrightarrow>
        (\<exists>b. j = enc_job b \<and> job_name b = k \<and> Job_Clone b = b \<and> job_status_ok time_ok (job_st b))) \<and>
     (\<forall>k r. fmlookup (t_assignments db) k = Some r \<longrightarrow>
        (\<exists>a. r = row_of a \<and> asg_ID a = k \<and> Assignment_Clone a = a \<and> assignment_ok time_ok a))"

section \<open>Times\<close>

lemma year_start_mono: "y \<le> z \<Longrightarrow> year_start y \<le> year_start z"
proof (induction z rule: int_ge_induct)
  case base
  then show ?case by simp
next
  case (step z)
  then show ?case using year_start_Suc [of z] by (simp split: if_splits)
qed

lemma time_ok_rfc3339:
  assumes "time_ok t"
  shows "rfc3339_ok t"
proof -
  let ?d = "t div 86400000000000"
  have d: "0 \<le> ?d" "?d < 3652059" using assms by (auto simp: time_ok_def)
  then have y: "year_start (year_of ?d) \<le> ?d" "?d < year_start (year_of ?d + 1)"
    using year_of_bounds [of ?d] by auto
  have "year_start 0 = - 366" "year_start 10000 = 3652059" by (simp_all add: year_start_def)
  then have "\<not> year_of ?d + 1 \<le> 0" "\<not> 10000 \<le> year_of ?d"
    using y d year_start_mono [of "year_of ?d + 1" 0] year_start_mono [of 10000 "year_of ?d"] by linarith+
  then show ?thesis by (simp add: rfc3339_ok_def Let_def)
qed

lemma UnixNano_ok: "time_ok t \<Longrightarrow> UnixNano t = t - 62135596800000000000"
  unfolding UnixNano_def time_ok_def
  by (subst sint_sbintrunc') (simp add: signed_take_bit_int_eq_self)

lemma UnixNano_less: "time_ok t \<Longrightarrow> time_ok u \<Longrightarrow> UnixNano t < UnixNano u \<longleftrightarrow> t < u"
  and UnixNano_eq: "time_ok t \<Longrightarrow> time_ok u \<Longrightarrow> UnixNano t = UnixNano u \<longleftrightarrow> t = u"
  by (simp_all add: UnixNano_ok)

section \<open>Rows and the records they encode\<close>

lemma entries_empty_Clone: "entries (cloneStringMap m) = fmempty \<longleftrightarrow> entries m = fmempty"
  by simp

lemma enc_map_Clone: "entries m \<noteq> fmempty \<Longrightarrow> enc_map (cloneStringMap m) = enc_map m"
  by (cases m) (auto simp: cloneStringMap_def)

lemma enc_slice_Clone: "elems xs \<noteq> [] \<Longrightarrow> enc_slice e (cloneSlice xs) = enc_slice e xs"
  by (cases xs) (auto simp: cloneSlice_def)

lemma unless_empty_map:
  "unless_empty (entries (cloneStringMap m) = fmempty) k (enc_map (cloneStringMap m)) =
   unless_empty (entries m = fmempty) k (enc_map m)"
  by (simp add: unless_empty_def enc_map_Clone)

lemma unless_empty_slice:
  "unless_empty (elems (cloneSlice xs) = []) k (enc_slice e (cloneSlice xs)) =
   unless_empty (elems xs = []) k (enc_slice e xs)"
  by (simp add: unless_empty_def enc_slice_Clone)

lemma enc_Clone [simp]:
  "enc_node (Node_Clone n) = enc_node n" "enc_service (Service_Clone v) = enc_service v"
  "enc_job (Job_Clone j) = enc_job j" "enc_assignment (Assignment_Clone a) = enc_assignment a"
  by (simp_all add: enc_node_def Node_Clone_def enc_service_def Service_Clone_def enc_placement_def
      enc_service_status_def enc_job_def Job_Clone_def enc_job_status_def enc_assignment_def Assignment_Clone_def
      unless_empty_map unless_empty_slice del: entries_cloneStringMap elems_cloneSlice)

lemma node_ok_rfc: "node_ok time_ok n \<Longrightarrow> rfc3339_ok (last_heartbeat n)"
  by (simp add: node_ok_def time_ok_rfc3339)

lemma job_ok_rfc: "job_status_ok time_ok (job_st j) \<Longrightarrow> job_encodable j"
  by (auto simp: job_status_ok_def job_encodable_def time_ok_rfc3339 split: option.splits)

lemma assignment_ok_rfc: "assignment_ok time_ok a \<Longrightarrow> assignment_encodable a"
  by (auto simp: assignment_ok_def assignment_encodable_def kind_ok_def phase_ok_def time_ok_rfc3339 split: option.splits)

lemma encode_ok [simp]:
  "node_ok time_ok n \<Longrightarrow> encode_node n = Some (enc_node n)"
  "encode_service v = Some (enc_service v)"
  "job_status_ok time_ok (job_st j) \<Longrightarrow> encode_job j = Some (enc_job j)"
  "assignment_ok time_ok a \<Longrightarrow> encode_assignment a = Some (enc_assignment a)"
  using assignment_ok_rfc [of a]
  by (simp_all add: encode_node_def node_ok_rfc encode_service_def encode_job_def job_ok_rfc encode_assignment_def
      assignment_encodable_def)

lemma decode_ok [simp]:
  "node_ok time_ok n \<Longrightarrow> dec_node strict (enc_node n) zero_node = Some (Node_Clone n)"
  "dec_service strict (enc_service v) zero_service = Some (Service_Clone v)"
  "job_status_ok time_ok (job_st j) \<Longrightarrow> dec_job strict (enc_job j) zero_job = Some (Job_Clone j)"
  "assignment_ok time_ok a \<Longrightarrow> dec_assignment strict (enc_assignment a) zero_assignment = Some (Assignment_Clone a)"
  by (simp_all add: dec_enc_node node_ok_rfc dec_enc_service dec_enc_job job_ok_rfc dec_enc_assignment assignment_ok_rfc)

lemma node_row:
  assumes "sqlite_inv db" "fmlookup (t_nodes db) k = Some j"
  obtains n where "j = enc_node n" "node_ID n = k" "Node_Clone n = n" "node_ok time_ok n"
    "fmlookup (m_nodes (sqlite_view db)) k = Some n"
proof -
  obtain n where n: "j = enc_node n" "node_ID n = k" "Node_Clone n = n" "node_ok time_ok n"
    using assms unfolding sqlite_inv_def by blast
  moreover have "fmlookup (m_nodes (sqlite_view db)) k = Some n"
    using n assms(2) by (simp add: sqlite_view_def)
  ultimately show thesis by (rule that)
qed

lemma service_row:
  assumes "sqlite_inv db" "fmlookup (t_services db) k = Some j"
  obtains v where "j = enc_service v" "service_name v = k" "Service_Clone v = v"
    "fmlookup (m_services (sqlite_view db)) k = Some v"
proof -
  obtain v where v: "j = enc_service v" "service_name v = k" "Service_Clone v = v"
    using assms unfolding sqlite_inv_def by blast
  moreover have "fmlookup (m_services (sqlite_view db)) k = Some v"
    using v assms(2) by (simp add: sqlite_view_def)
  ultimately show thesis by (rule that)
qed

lemma job_row:
  assumes "sqlite_inv db" "fmlookup (t_jobs db) k = Some j"
  obtains b where "j = enc_job b" "job_name b = k" "Job_Clone b = b" "job_status_ok time_ok (job_st b)"
    "fmlookup (m_jobs (sqlite_view db)) k = Some b"
proof -
  obtain b where b: "j = enc_job b" "job_name b = k" "Job_Clone b = b" "job_status_ok time_ok (job_st b)"
    using assms unfolding sqlite_inv_def by blast
  moreover have "fmlookup (m_jobs (sqlite_view db)) k = Some b"
    using b assms(2) by (simp add: sqlite_view_def)
  ultimately show thesis by (rule that)
qed

lemma row_of_data [simp]: "row_data (row_of a) = enc_assignment a" "row_node_id (row_of a) = asg_node a"
  "row_owner_kind (row_of a) = kind_string (owner_kind a)" "row_owner_name (row_of a) = owner_name a"
  "row_created_at (row_of a) = UnixNano (created_at a)"
  by (simp_all add: row_of_def)

lemma assignment_row:
  assumes "sqlite_inv db" "fmlookup (t_assignments db) k = Some r"
  obtains a where "r = row_of a" "asg_ID a = k" "Assignment_Clone a = a" "assignment_ok time_ok a"
    "fmlookup (m_assignments (sqlite_view db)) k = Some a"
proof -
  obtain a where a: "r = row_of a" "asg_ID a = k" "Assignment_Clone a = a" "assignment_ok time_ok a"
    using assms unfolding sqlite_inv_def by blast
  moreover have "fmlookup (m_assignments (sqlite_view db)) k = Some a"
    using a assms(2) by (simp add: sqlite_view_def)
  ultimately show thesis by (rule that)
qed

lemma view_None:
  "fmlookup (m_nodes (sqlite_view db)) k = None \<longleftrightarrow> fmlookup (t_nodes db) k = None"
  "fmlookup (m_services (sqlite_view db)) k = None \<longleftrightarrow> fmlookup (t_services db) k = None"
  "fmlookup (m_jobs (sqlite_view db)) k = None \<longleftrightarrow> fmlookup (t_jobs db) k = None"
  "fmlookup (m_assignments (sqlite_view db)) k = None \<longleftrightarrow> fmlookup (t_assignments db) k = None"
  by (simp_all add: sqlite_view_def)

lemma wf_sqlite_view:
  assumes "sqlite_inv db"
  shows "wf_store (sqlite_view db)"
  unfolding wf_store_def
proof (intro conjI allI impI)
  fix k n
  assume l: "fmlookup (m_nodes (sqlite_view db)) k = Some n"
  then obtain j where "fmlookup (t_nodes db) k = Some j" using view_None(1) [of db k] by fastforce
  with l show "node_ID n = k" "Node_Clone n = n" using node_row [OF assms] by (metis option.inject)+
next
  fix k v
  assume l: "fmlookup (m_services (sqlite_view db)) k = Some v"
  then obtain j where "fmlookup (t_services db) k = Some j" using view_None(2) [of db k] by fastforce
  with l show "service_name v = k" "Service_Clone v = v" using service_row [OF assms] by (metis option.inject)+
next
  fix k b
  assume l: "fmlookup (m_jobs (sqlite_view db)) k = Some b"
  then obtain j where "fmlookup (t_jobs db) k = Some j" using view_None(3) [of db k] by fastforce
  with l show "job_name b = k" "Job_Clone b = b" using job_row [OF assms] by (metis option.inject)+
next
  fix k a
  assume l: "fmlookup (m_assignments (sqlite_view db)) k = Some a"
  then obtain r where "fmlookup (t_assignments db) k = Some r" using view_None(4) [of db k] by fastforce
  with l show "asg_ID a = k" "Assignment_Clone a = a" using assignment_row [OF assms] by (metis option.inject)+
qed

section \<open>Listings\<close>

lemma sorted_list_of_fmap_fmmap: "sorted_list_of_fmap (fmmap f m) = map (\<lambda>(k, v). (k, f v)) (sorted_list_of_fmap m)"
  by (auto simp: sorted_list_of_fmap_def fmlookup_dom_iff)

lemma fm_values_fmmap: "fm_values (fmmap f m) = map f (fm_values m)"
  by (simp add: fm_values_def sorted_list_of_fmap_fmmap comp_def case_prod_beta)

lemma sorted_fm_values:
  assumes "\<And>k v. fmlookup m k = Some v \<Longrightarrow> f v = k"
  shows "sorted_wrt (\<lambda>a b. f a < f b) (fm_values m)"
proof -
  have "sorted_wrt (<) (map f (fm_values m))"
    by (simp add: fm_values_keys [of m f, OF assms] sorted_list_of_fset.rep_eq)
  then show ?thesis by (simp add: sorted_wrt_map)
qed

lemma list_rows_view:
  assumes "\<And>k j. fmlookup t k = Some j \<Longrightarrow> dec j z \<noteq> None"
  shows "list_rows dec z (select_by_key t) = fm_values (fmmap (\<lambda>j. the (dec j z)) t)"
proof -
  have "\<forall>j \<in> set (select_by_key t). dec j z \<noteq> None"
    using assms by (auto simp: select_by_key_def sorted_list_of_fmap_mem)
  then have "list_rows dec z (select_by_key t) = map (\<lambda>j. the (dec j z)) (fm_values t)"
    by (auto simp: list_rows_def select_by_key_def fm_values_def)
  then show ?thesis by (simp add: fm_values_fmmap)
qed

lemma listed:
  assumes "sqlite_inv db"
  shows "sql_ListNodes db = ListNodes (sqlite_view db)"
    and "sql_ListServices db = ListServices (sqlite_view db)"
    and "sql_ListJobs db = ListJobs (sqlite_view db)"
proof -
  note wf = wf_sqlite_view [OF assms]
  note cl = Clone_values [OF wf] and d = distinct_values [OF wf]
  have "sql_ListNodes db = fm_values (m_nodes (sqlite_view db))"
    unfolding sql_ListNodes_def
    by (subst list_rows_view) (auto elim!: node_row [OF assms], simp add: sqlite_view_def)
  also have "\<dots> = ListNodes (sqlite_view db)"
    unfolding ListNodes_def cl
    by (rule node_order.sort_slice_unique [symmetric]) (auto intro!: sorted_fm_values d dest: wf_node [OF wf])
  finally show "sql_ListNodes db = ListNodes (sqlite_view db)" .
  have "sql_ListServices db = fm_values (m_services (sqlite_view db))"
    unfolding sql_ListServices_def
    by (subst list_rows_view) (auto elim!: service_row [OF assms], simp add: sqlite_view_def)
  also have "\<dots> = ListServices (sqlite_view db)"
    unfolding ListServices_def cl
    by (rule service_order.sort_slice_unique [symmetric]) (auto intro!: sorted_fm_values d dest: wf_service [OF wf])
  finally show "sql_ListServices db = ListServices (sqlite_view db)" .
  have "sql_ListJobs db = fm_values (m_jobs (sqlite_view db))"
    unfolding sql_ListJobs_def
    by (subst list_rows_view) (auto elim!: job_row [OF assms], simp add: sqlite_view_def)
  also have "\<dots> = ListJobs (sqlite_view db)"
    unfolding ListJobs_def cl
    by (rule job_order.sort_slice_unique [symmetric]) (auto intro!: sorted_fm_values d dest: wf_job [OF wf])
  finally show "sql_ListJobs db = ListJobs (sqlite_view db)" .
qed

interpretation row_order: slice_order "\<lambda>_. True" row_before fst
  by unfold_locales (auto simp: row_before_def split: if_splits)

text \<open>The assignment a row holds.\<close>

definition row_asg :: "string \<times> asg_row \<Rightarrow> assignment" where
  "row_asg x = the (dec_assignment False (row_data (snd x)) zero_assignment)"

lemma row_asg:
  assumes "sqlite_inv db" "x \<in> set (sorted_list_of_fmap (t_assignments db))"
  obtains a where "snd x = row_of a" "fst x = asg_ID a" "row_asg x = a" "assignment_ok time_ok a"
    "dec_assignment False (row_data (snd x)) zero_assignment = Some a"
proof -
  obtain k r where x: "x = (k, r)" by (cases x)
  then have "fmlookup (t_assignments db) k = Some r" using assms(2) by (simp add: sorted_list_of_fmap_mem)
  then obtain a where "r = row_of a" "asg_ID a = k" "Assignment_Clone a = a" "assignment_ok time_ok a"
    using assignment_row [OF assms(1)] by metis
  then show thesis by (intro that [of a]) (simp_all add: x row_asg_def)
qed

lemma select_assignments_view:
  assumes inv: "sqlite_inv db" and PQ: "\<And>a. assignment_ok time_ok a \<Longrightarrow> P (row_of a) \<longleftrightarrow> Q a"
  shows "list_assignments P db = filter Q (ListAssignments (sqlite_view db))"
proof -
  let ?l = "sorted_list_of_fmap (t_assignments db)"
  let ?xs = "sort_slice row_before (filter (\<lambda>x. P (snd x)) ?l)"
  note wf = wf_sqlite_view [OF inv]
  have dec: "list_assignments P db = map row_asg ?xs"
  proof -
    have "\<forall>j \<in> set (select_assignments P db). dec_assignment False j zero_assignment \<noteq> None"
      by (auto simp: select_assignments_def elim!: row_asg [OF inv])
    then have "\<not> (\<exists>j \<in> set (select_assignments P db). dec_assignment False j zero_assignment = None)" by blast
    then have "list_assignments P db =
        map (\<lambda>j. the (dec_assignment False j zero_assignment)) (select_assignments P db)"
      unfolding list_assignments_def list_rows_def by (simp only: if_False)
    then show ?thesis by (simp add: select_assignments_def row_asg_def)
  qed
  have "distinct (map fst (filter (\<lambda>x. P (snd x)) ?l))"
    by (intro distinct_map_filter) (simp add: map_fst_sorted_list_of_fmap sorted_list_of_fset.rep_eq)
  then have "sorted_wrt row_before ?xs"
    by (rule row_order.sort_slice_sorted) simp
  then have "sorted_wrt (\<lambda>x y. created_before (row_asg x) (row_asg y)) ?xs"
  proof (rule sorted_wrt_mono_rel [rotated])
    fix x y
    assume "x \<in> set ?xs" "y \<in> set ?xs" "row_before x y"
    moreover obtain a where "snd x = row_of a" "fst x = asg_ID a" "row_asg x = a" "assignment_ok time_ok a"
      using row_asg [OF inv, of x] calculation(1) by auto
    moreover obtain b where "snd y = row_of b" "fst y = asg_ID b" "row_asg y = b" "assignment_ok time_ok b"
      using row_asg [OF inv, of y] calculation(2) by auto
    ultimately show "created_before (row_asg x) (row_asg y)"
      by (auto simp: row_before_def created_before_def assignment_ok_def UnixNano_eq UnixNano_less split: if_splits)
  qed
  then have sorted: "sorted_wrt created_before (map row_asg ?xs)" by (simp add: sorted_wrt_map)
  have all: "fm_values (m_assignments (sqlite_view db)) = map row_asg ?l"
    by (simp add: sqlite_view_def sorted_list_of_fmap_fmmap fm_values_def row_asg_def comp_def case_prod_beta)
  have "filter (\<lambda>x. P (snd x)) ?l = filter (\<lambda>x. Q (row_asg x)) ?l"
    by (rule filter_cong [OF refl]) (metis PQ row_asg [OF inv])
  then have "mset (map row_asg ?xs) = mset (filter Q (map row_asg ?l))"
    by (simp only: mset_map mset_sort_slice mset_filter filter_mset_image_mset)
  also have "\<dots> = mset (filter Q (ListAssignments (sqlite_view db)))"
  proof -
    have "map Assignment_Clone (fm_values (m_assignments (sqlite_view db))) = map row_asg ?l"
      using Clone_values [OF wf] all by simp
    then show ?thesis unfolding ListAssignments_def mset_filter mset_sort_slice by simp
  qed
  finally have "mset (map row_asg ?xs) = mset (filter Q (ListAssignments (sqlite_view db)))" .
  with sorted show ?thesis
    unfolding dec
    by (intro assignment_order.sorted_unique) (simp_all add: sorted_wrt_filter sorted_ListAssignments [OF wf])
qed

lemma kind_string_inj: "kind_ok k \<Longrightarrow> kind_ok k' \<Longrightarrow> kind_string k = kind_string k' \<longleftrightarrow> k = k'"
  unfolding kind_ok_def by metis

section \<open>The store contract\<close>

lemma sqlite_invI:
  assumes "\<not> halted db"
    and "\<And>k j. fmlookup (t_nodes db) k = Some j \<Longrightarrow>
      \<exists>n. j = enc_node n \<and> node_ID n = k \<and> Node_Clone n = n \<and> node_ok time_ok n"
    and "\<And>k j. fmlookup (t_services db) k = Some j \<Longrightarrow>
      \<exists>v. j = enc_service v \<and> service_name v = k \<and> Service_Clone v = v"
    and "\<And>k j. fmlookup (t_jobs db) k = Some j \<Longrightarrow>
      \<exists>b. j = enc_job b \<and> job_name b = k \<and> Job_Clone b = b \<and> job_status_ok time_ok (job_st b)"
    and "\<And>k r. fmlookup (t_assignments db) k = Some r \<Longrightarrow>
      \<exists>a. r = row_of a \<and> asg_ID a = k \<and> Assignment_Clone a = a \<and> assignment_ok time_ok a"
  shows "sqlite_inv db"
  using assms unfolding sqlite_inv_def by blast

lemma sqlite_invD:
  assumes "sqlite_inv db"
  shows "\<not> halted db"
    and "fmlookup (t_nodes db) k = Some j \<Longrightarrow>
      \<exists>n. j = enc_node n \<and> node_ID n = k \<and> Node_Clone n = n \<and> node_ok time_ok n"
    and "fmlookup (t_services db) k = Some j \<Longrightarrow>
      \<exists>v. j = enc_service v \<and> service_name v = k \<and> Service_Clone v = v"
    and "fmlookup (t_jobs db) k = Some j \<Longrightarrow>
      \<exists>b. j = enc_job b \<and> job_name b = k \<and> Job_Clone b = b \<and> job_status_ok time_ok (job_st b)"
    and "fmlookup (t_assignments db) k = Some r \<Longrightarrow>
      \<exists>a. r = row_of a \<and> asg_ID a = k \<and> Assignment_Clone a = a \<and> assignment_ok time_ok a"
  using assms unfolding sqlite_inv_def by blast+

lemma fmmap_put: "fmmap f (fmupd k v m) = fmupd k (f v) (fmmap f m)"
  by (rule fmap_ext) simp

text \<open>Filing a well-formed row keeps the invariant and updates the view at its key.\<close>

lemma put_node:
  assumes "sqlite_inv db" "node_ok time_ok n" "Node_Clone n = n"
  shows "sqlite_inv (t_nodes_update (fmupd (node_ID n) (enc_node n)) db) \<and>
    sqlite_view (t_nodes_update (fmupd (node_ID n) (enc_node n)) db) =
      (sqlite_view db)\<lparr>m_nodes := fmupd (node_ID n) n (m_nodes (sqlite_view db))\<rparr>"
  using assms by (auto intro!: sqlite_invI dest: sqlite_invD split: if_splits simp: sqlite_view_def fmmap_put)

lemma put_service:
  assumes "sqlite_inv db" "Service_Clone v = v"
  shows "sqlite_inv (t_services_update (fmupd (service_name v) (enc_service v)) db) \<and>
    sqlite_view (t_services_update (fmupd (service_name v) (enc_service v)) db) =
      (sqlite_view db)\<lparr>m_services := fmupd (service_name v) v (m_services (sqlite_view db))\<rparr>"
  using assms by (auto intro!: sqlite_invI dest: sqlite_invD split: if_splits simp: sqlite_view_def fmmap_put)

lemma put_job:
  assumes "sqlite_inv db" "job_status_ok time_ok (job_st j)" "Job_Clone j = j"
  shows "sqlite_inv (t_jobs_update (fmupd (job_name j) (enc_job j)) db) \<and>
    sqlite_view (t_jobs_update (fmupd (job_name j) (enc_job j)) db) =
      (sqlite_view db)\<lparr>m_jobs := fmupd (job_name j) j (m_jobs (sqlite_view db))\<rparr>"
  using assms by (auto intro!: sqlite_invI dest: sqlite_invD split: if_splits simp: sqlite_view_def fmmap_put)

lemma put_assignment:
  assumes "sqlite_inv db" "assignment_ok time_ok a" "Assignment_Clone a = a"
  shows "sqlite_inv (db\<lparr>t_assignments := fmupd (asg_ID a) (row_of a) (t_assignments db)\<rparr>) \<and>
    sqlite_view (db\<lparr>t_assignments := fmupd (asg_ID a) (row_of a) (t_assignments db)\<rparr>) =
      (sqlite_view db)\<lparr>m_assignments := fmupd (asg_ID a) a (m_assignments (sqlite_view db))\<rparr>"
  using assms by (auto intro!: sqlite_invI dest: sqlite_invD split: if_splits simp: sqlite_view_def fmmap_put)

lemma sqlite_UpsertNode:
  assumes "sqlite_inv db" "node_ok time_ok n"
  shows "sqlite_inv (sql_UpsertNode n db) \<and> sqlite_view (sql_UpsertNode n db) = UpsertNode n (sqlite_view db)"
  using put_node [of db "Node_Clone n"] assms
  by (simp add: sql_UpsertNode_def insert_row_def UpsertNode_def node_ok_def)

lemma sqlite_UpsertService:
  assumes "sqlite_inv db"
  shows "sqlite_inv (sql_UpsertService v db) \<and>
    sqlite_view (sql_UpsertService v db) = UpsertService v (sqlite_view db)"
  using put_service [of db "Service_Clone v"] assms
  by (simp add: sql_UpsertService_def insert_row_def UpsertService_def)

lemma sqlite_UpsertJob:
  assumes "sqlite_inv db" "job_status_ok time_ok (job_st j)"
  shows "sqlite_inv (sql_UpsertJob j db) \<and> sqlite_view (sql_UpsertJob j db) = UpsertJob j (sqlite_view db)"
  using put_job [of db "Job_Clone j"] assms
  by (simp add: sql_UpsertJob_def insert_row_def UpsertJob_def)

lemma sqlite_SaveAssignment:
  assumes "sqlite_inv db" "assignment_ok time_ok a"
  shows "sqlite_inv (sql_SaveAssignment a db) \<and>
    sqlite_view (sql_SaveAssignment a db) = SaveAssignment a (sqlite_view db)"
proof -
  have "assignment_ok time_ok (Assignment_Clone a)" using assms(2) by (simp add: assignment_ok_def)
  moreover have "row_of (Assignment_Clone a) = row_of a" by (simp add: row_of_def)
  ultimately show ?thesis
    using put_assignment [of db "Assignment_Clone a"] assms
    by (simp add: sql_SaveAssignment_def SaveAssignment_def row_of_def)
qed

lemma sqlite_TouchNode:
  assumes "sqlite_inv db" "time_ok now"
  shows "sqlite_inv (fst (sql_TouchNode i now db)) \<and>
    sqlite_view (fst (sql_TouchNode i now db)) = fst (TouchNode i now (sqlite_view db)) \<and>
    snd (sql_TouchNode i now db) = snd (TouchNode i now (sqlite_view db))"
proof (cases "fmlookup (t_nodes db) i")
  case None
  with assms(1) view_None(1) [of db i] show ?thesis
    by (simp add: sql_TouchNode_def update_row_def TouchNode_def)
next
  case (Some j)
  then obtain n where n: "j = enc_node n" "node_ID n = i" "Node_Clone n = n" "node_ok time_ok n"
    "fmlookup (m_nodes (sqlite_view db)) i = Some n"
    using node_row [OF assms(1)] by metis
  then show ?thesis
    using put_node [OF assms(1), of "n\<lparr>last_heartbeat := now\<rparr>"] assms(2) Some
    by (simp add: sql_TouchNode_def update_row_def TouchNode_def node_ok_def)
qed

lemma sqlite_UpdateServiceStatus:
  assumes "sqlite_inv db" "plain_status st"
  shows "sqlite_inv (fst (sql_UpdateServiceStatus nm st db)) \<and>
    sqlite_view (fst (sql_UpdateServiceStatus nm st db)) = fst (UpdateServiceStatus nm st (sqlite_view db)) \<and>
    snd (sql_UpdateServiceStatus nm st db) = snd (UpdateServiceStatus nm st (sqlite_view db))"
proof (cases "fmlookup (t_services db) nm")
  case None
  with assms(1) view_None(2) [of db nm] show ?thesis
    by (simp add: sql_UpdateServiceStatus_def update_row_def UpdateServiceStatus_def)
next
  case (Some j)
  then obtain v where v: "j = enc_service v" "service_name v = nm" "Service_Clone v = v"
    "fmlookup (m_services (sqlite_view db)) nm = Some v"
    using service_row [OF assms(1)] by metis
  have "Service_Clone (v\<lparr>service_st := st\<rparr>) = v\<lparr>service_st := st\<rparr>"
    using v(3) assms(2) by (simp add: plain_status_def)
  with v show ?thesis
    using put_service [OF assms(1), of "v\<lparr>service_st := st\<rparr>"] Some
    by (simp add: sql_UpdateServiceStatus_def update_row_def UpdateServiceStatus_def)
qed

lemma sqlite_UpdateJobStatus:
  assumes "sqlite_inv db" "job_status_ok time_ok jst"
  shows "sqlite_inv (fst (sql_UpdateJobStatus nm jst db)) \<and>
    sqlite_view (fst (sql_UpdateJobStatus nm jst db)) = fst (UpdateJobStatus nm jst (sqlite_view db)) \<and>
    snd (sql_UpdateJobStatus nm jst db) = snd (UpdateJobStatus nm jst (sqlite_view db))"
proof (cases "fmlookup (t_jobs db) nm")
  case None
  with assms(1) view_None(3) [of db nm] show ?thesis
    by (simp add: sql_UpdateJobStatus_def update_row_def UpdateJobStatus_def)
next
  case (Some r)
  then obtain j where j: "r = enc_job j" "job_name j = nm" "Job_Clone j = j" "job_status_ok time_ok (job_st j)"
    "fmlookup (m_jobs (sqlite_view db)) nm = Some j"
    using job_row [OF assms(1)] by metis
  then show ?thesis
    using put_job [OF assms(1), of "j\<lparr>job_st := jst\<rparr>"] assms(2) Some
    by (simp add: sql_UpdateJobStatus_def update_row_def UpdateJobStatus_def)
qed

lemma sqlite_UpdateAssignmentStatus:
  assumes "sqlite_inv db" "time_ok now" "phase_ok p"
  shows "sqlite_inv (fst (sql_UpdateAssignmentStatus i p m now db)) \<and>
    sqlite_view (fst (sql_UpdateAssignmentStatus i p m now db)) =
      fst (UpdateAssignmentStatus i p m now (sqlite_view db)) \<and>
    snd (sql_UpdateAssignmentStatus i p m now db) = snd (UpdateAssignmentStatus i p m now (sqlite_view db))"
proof (cases "fmlookup (t_assignments db) i")
  case None
  with assms(1) view_None(4) [of db i] show ?thesis
    by (simp add: sql_UpdateAssignmentStatus_def UpdateAssignmentStatus_def)
next
  case (Some r)
  then obtain a where a: "r = row_of a" "asg_ID a = i" "Assignment_Clone a = a" "assignment_ok time_ok a"
    "fmlookup (m_assignments (sqlite_view db)) i = Some a"
    using assignment_row [OF assms(1)] by metis
  let ?b = "fst (applyStatus p m now a)"
  have okay: "assignment_ok time_ok ?b" using a(4) assms(2,3) by (rule assignment_ok_applyStatus)
  have clone: "Assignment_Clone ?b = ?b" using a(3) by (rule applyStatus_Clone)
  have row: "(row_of a)\<lparr>row_data := enc_assignment ?b\<rparr> = row_of ?b" by (simp add: row_of_def)
  have sql: "sql_UpdateAssignmentStatus i p m now db =
      (db\<lparr>t_assignments := fmupd i (row_of ?b) (t_assignments db)\<rparr>, Some ?b)"
    using Some a okay by (simp add: sql_UpdateAssignmentStatus_def Let_def row)
  have same: "fmupd i a (m_assignments (sqlite_view db)) = m_assignments (sqlite_view db)"
    using a(5) by (intro fmap_ext) auto
  have "fst (UpdateAssignmentStatus i p m now (sqlite_view db)) =
      (sqlite_view db)\<lparr>m_assignments := fmupd i ?b (m_assignments (sqlite_view db))\<rparr>"
    using a(5) same by (auto simp: UpdateAssignmentStatus_fst applyStatus_terminal)
  moreover have "snd (UpdateAssignmentStatus i p m now (sqlite_view db)) = Some ?b"
    using a(5) clone by (simp add: UpdateAssignmentStatus_def case_prod_beta)
  ultimately show ?thesis
    using put_assignment [OF assms(1) okay clone] a(2) by (simp add: sql)
qed

lemma sqlite_DeleteAssignment:
  assumes "sqlite_inv db"
  shows "sqlite_inv (fst (sql_DeleteAssignment i db)) \<and>
    sqlite_view (fst (sql_DeleteAssignment i db)) = fst (DeleteAssignment i (sqlite_view db)) \<and>
    snd (sql_DeleteAssignment i db) = snd (DeleteAssignment i (sqlite_view db))"
proof -
  have "fmdrop i (t_assignments db) = t_assignments db" if "fmlookup (t_assignments db) i = None"
    using that by (intro fmap_ext) auto
  moreover have "sqlite_inv (fst (sql_DeleteAssignment i db))"
    using assms by (auto simp: sql_DeleteAssignment_def intro!: sqlite_invI dest: sqlite_invD split: if_splits)
  ultimately show ?thesis
    using view_None(4) [of db i]
    by (auto simp: sql_DeleteAssignment_def DeleteAssignment_def) (auto simp: sqlite_view_def)
qed

lemma fm_delete_where_fmmap:
  assumes "\<And>k r. fmlookup m k = Some r \<Longrightarrow> Q (f r) \<longleftrightarrow> P r"
  shows "fmmap f (fm_delete_where P m) = fm_delete_where Q (fmmap f m)"
proof (rule fmap_ext)
  fix k
  show "fmlookup (fmmap f (fm_delete_where P m)) k = fmlookup (fm_delete_where Q (fmmap f m)) k"
    using assms [of k] by (cases "fmlookup m k") (auto simp: fm_delete_where_def)
qed

lemma owned_rows:
  assumes "sqlite_inv db" "kind_ok kind" "fmlookup (t_assignments db) k = Some r"
  shows "owner_kind (the (dec_assignment False (row_data r) zero_assignment)) = kind \<and>
      owner_name (the (dec_assignment False (row_data r) zero_assignment)) = nm \<longleftrightarrow>
    row_owner_kind r = kind_string kind \<and> row_owner_name r = nm"
proof -
  obtain a where "r = row_of a" "Assignment_Clone a = a" "assignment_ok time_ok a"
    using assignment_row [OF assms(1,3)] by metis
  then show ?thesis
    using kind_string_inj [OF assms(2), of "owner_kind a"] by (auto simp: assignment_ok_def)
qed

lemma sqlite_DeleteService:
  assumes "sqlite_inv db"
  shows "sqlite_inv (fst (sql_DeleteService nm db)) \<and>
    sqlite_view (fst (sql_DeleteService nm db)) = fst (DeleteService nm (sqlite_view db)) \<and>
    snd (sql_DeleteService nm db) = snd (DeleteService nm (sqlite_view db))"
proof -
  have "sqlite_inv (fst (sql_DeleteService nm db))"
    using assms by (auto simp: sql_DeleteService_def deleteOwner_def fmlookup_fm_delete_where
        intro!: sqlite_invI dest: sqlite_invD split: if_splits)
  moreover have "fmmap (\<lambda>r. the (dec_assignment False (row_data r) zero_assignment))
      (fm_delete_where (\<lambda>r. row_owner_kind r = kind_string KindService \<and> row_owner_name r = nm) (t_assignments db)) =
    fm_delete_where (\<lambda>a. owner_kind a = KindService \<and> owner_name a = nm) (m_assignments (sqlite_view db))"
    unfolding sqlite_view_def mem_store.simps
    by (rule fm_delete_where_fmmap) (rule owned_rows [OF assms constants_ok(7)])
  ultimately show ?thesis
    using view_None(2) [of db nm]
    by (auto simp: sql_DeleteService_def deleteOwner_def DeleteService_def) (auto simp: sqlite_view_def)
qed

lemma sqlite_DeleteJob:
  assumes "sqlite_inv db"
  shows "sqlite_inv (fst (sql_DeleteJob nm db)) \<and>
    sqlite_view (fst (sql_DeleteJob nm db)) = fst (DeleteJob nm (sqlite_view db)) \<and>
    snd (sql_DeleteJob nm db) = snd (DeleteJob nm (sqlite_view db))"
proof -
  have "sqlite_inv (fst (sql_DeleteJob nm db))"
    using assms by (auto simp: sql_DeleteJob_def deleteOwner_def fmlookup_fm_delete_where
        intro!: sqlite_invI dest: sqlite_invD split: if_splits)
  moreover have "fmmap (\<lambda>r. the (dec_assignment False (row_data r) zero_assignment))
      (fm_delete_where (\<lambda>r. row_owner_kind r = kind_string KindJob \<and> row_owner_name r = nm) (t_assignments db)) =
    fm_delete_where (\<lambda>a. owner_kind a = KindJob \<and> owner_name a = nm) (m_assignments (sqlite_view db))"
    unfolding sqlite_view_def mem_store.simps
    by (rule fm_delete_where_fmmap) (rule owned_rows [OF assms constants_ok(8)])
  ultimately show ?thesis
    using view_None(3) [of db nm]
    by (auto simp: sql_DeleteJob_def deleteOwner_def DeleteJob_def) (auto simp: sqlite_view_def)
qed

lemma sqlite_listings:
  assumes "sqlite_inv db"
  shows "sql_ListAssignments db = ListAssignments (sqlite_view db)"
    and "sql_ListNodeAssignments i db = ListNodeAssignments i (sqlite_view db)"
    and "kind_ok kind \<Longrightarrow> sql_ListAssignmentsForOwner kind nm db = ListAssignmentsForOwner kind nm (sqlite_view db)"
    and "sql_HasAssignment i db = HasAssignment i (sqlite_view db)"
    and "sql_Snapshot db = Snapshot (sqlite_view db)"
proof -
  show all: "sql_ListAssignments db = ListAssignments (sqlite_view db)"
    unfolding sql_ListAssignments_def by (subst select_assignments_view [OF assms, where Q = "\<lambda>_. True"]) simp_all
  show "sql_ListNodeAssignments i db = ListNodeAssignments i (sqlite_view db)"
    unfolding sql_ListNodeAssignments_def ListNodeAssignments_def
    by (rule select_assignments_view [OF assms]) simp
  show "sql_ListAssignmentsForOwner kind nm db = ListAssignmentsForOwner kind nm (sqlite_view db)" if "kind_ok kind"
    unfolding sql_ListAssignmentsForOwner_def ListAssignmentsForOwner_def
    by (rule select_assignments_view [OF assms]) (auto simp: assignment_ok_def kind_string_inj that)
  show "sql_HasAssignment i db = HasAssignment i (sqlite_view db)"
    using view_None(4) [of db i] by (simp add: sql_HasAssignment_def HasAssignment_def)
  show "sql_Snapshot db = Snapshot (sqlite_view db)"
    by (simp add: sql_Snapshot_def Snapshot_def listed [OF assms] all)
qed

lemma sqlite_iface_ops [simp]:
  "op_UpsertNode sqlite_iface = sql_UpsertNode"
  "op_TouchNode sqlite_iface = sql_TouchNode"
  "op_ListNodes sqlite_iface = sql_ListNodes"
  "op_UpsertService sqlite_iface = sql_UpsertService"
  "op_UpdateServiceStatus sqlite_iface = sql_UpdateServiceStatus"
  "op_ListServices sqlite_iface = sql_ListServices"
  "op_DeleteService sqlite_iface = sql_DeleteService"
  "op_UpsertJob sqlite_iface = sql_UpsertJob"
  "op_UpdateJobStatus sqlite_iface = sql_UpdateJobStatus"
  "op_ListJobs sqlite_iface = sql_ListJobs"
  "op_DeleteJob sqlite_iface = sql_DeleteJob"
  "op_SaveAssignment sqlite_iface = sql_SaveAssignment"
  "op_DeleteAssignment sqlite_iface = sql_DeleteAssignment"
  "op_UpdateAssignmentStatus sqlite_iface = sql_UpdateAssignmentStatus"
  "op_ListAssignments sqlite_iface = sql_ListAssignments"
  "op_ListNodeAssignments sqlite_iface = sql_ListNodeAssignments"
  "op_ListAssignmentsForOwner sqlite_iface = sql_ListAssignmentsForOwner"
  "op_HasAssignment sqlite_iface = sql_HasAssignment"
  "op_Snapshot sqlite_iface = sql_Snapshot"
  by (simp_all add: sqlite_iface_def)

lemma sqlite_listed_ok:
  assumes "sqlite_inv db" "fmlookup (m_assignments (sqlite_view db)) k = Some b" "finished_at b = Some t"
  shows "time_ok t"
proof -
  obtain r where "fmlookup (t_assignments db) k = Some r"
    using assms(2) view_None(4) [of db k] by fastforce
  then have "assignment_ok time_ok b"
    using assignment_row [OF assms(1)] assms(2) by (metis option.inject)
  with assms(3) show ?thesis by (simp add: assignment_ok_def)
qed

interpretation sqlite: store_contract sqlite_iface sqlite_inv sqlite_view time_ok
  by unfold_locales
    (simp_all only: sqlite_iface_ops wf_sqlite_view sqlite_UpsertNode sqlite_TouchNode sqlite_UpsertService
      sqlite_UpdateServiceStatus sqlite_DeleteService sqlite_UpsertJob sqlite_UpdateJobStatus sqlite_DeleteJob
      sqlite_SaveAssignment sqlite_DeleteAssignment sqlite_UpdateAssignmentStatus listed sqlite_listings
      sqlite_listed_ok simp_thms)

text \<open>
  C10: \<open>SQLiteStore\<close> behaves as \<open>MemoryStore\<close>: whatever sequence of calls a client makes, in
  whatever order, each call returns what the in-memory store holding the decoded rows
  returns, the order of listings included, and the tables stay well formed and decode to that
  store's state; for the times SQLite's column can order (years 1678 to 2262).
\<close>

theorem sqlite_simulates_memory:
  assumes "sqlite_inv db" "\<And>x. x \<in> set calls \<Longrightarrow> call_ok time_ok x"
  shows "snd (exec_calls sqlite_iface calls db) = snd (exec_calls mem_iface calls (sqlite_view db)) \<and>
    sqlite_inv (fst (exec_calls sqlite_iface calls db)) \<and>
    sqlite_view (fst (exec_calls sqlite_iface calls db)) = fst (exec_calls mem_iface calls (sqlite_view db))"
  using sqlite.exec_calls_view [OF assms] by blast

text \<open>
  C11: The controller runs on SQLite exactly as on the in-memory store: a run of \<open>Reconcile\<close>
  over \<open>SQLiteStore\<close> panics when the run over the decoded state panics, and otherwise ends
  in the same controller, with the same random bytes left and a database that decodes to
  the state the in-memory run ends in. So the properties of \<open>Reconcile\<close> over
  \<open>MemoryStore\<close> carry over.
\<close>

theorem sqlite_Reconcile:
  assumes "sqlite_inv db" "time_ok now"
  shows "case Reconcile sqlite_iface c now ent db of
      Inl flt \<Rightarrow> Reconcile mem_iface c now ent (sqlite_view db) = Inl flt
    | Inr (c', db', ent') \<Rightarrow> sqlite_inv db' \<and>
        Reconcile mem_iface c now ent (sqlite_view db) = Inr (c', sqlite_view db', ent')"
  using sqlite.Reconcile_view [OF assms, of c ent]
  by (auto split: sum.splits elim!: rel_sum.cases)

end
