(* ===== verification/Examples.thy ===== *)
theory Examples
  imports Guarantees Sqlite_Store
begin

text \<open>
  A small cluster, evaluated: two nodes, a service and a job, and what the definitions compute
  on it. Each theorem here applies a property of the development at these values.
\<close>

section \<open>The cluster\<close>

definition t0 :: time where
  "t0 = 63900000000000000000"

definition second :: duration where
  "second = 1000000000"

definition ctl0 :: controller where
  "ctl0 = New \<lparr>NodeTimeout = 15 * second\<rparr> (15 * second)"

definition node_a :: node where
  "node_a = \<lparr>node_ID = ''node-a'', node_labels = Some (fmap_of_list [(''zone'', ''a'')]),
     node_capacity = \<lparr>res_CPU = 4, res_Memory = 1024\<rparr>, last_heartbeat = t0\<rparr>"

definition node_b :: node where
  "node_b = \<lparr>node_ID = ''node-b'', node_labels = None,
     node_capacity = \<lparr>res_CPU = 2, res_Memory = 1024\<rparr>, last_heartbeat = t0\<rparr>"

definition web :: service where
  "web = \<lparr>service_name = ''web'', service_image = ''nginx'', service_command = None, service_env = None,
     service_replicas = 2, service_resources = \<lparr>res_CPU = 1, res_Memory = 128\<rparr>,
     service_placement = \<lparr>required_labels = None\<rparr>, service_volumes = None, service_ports = Some [80],
     service_st = zero_service_status\<lparr>desired_replicas := 2\<rparr>\<rparr>"

definition batch :: job where
  "batch = \<lparr>job_name = ''batch'', job_image = ''busybox'', job_command = Some [''sh''], job_env = None,
     job_resources = \<lparr>res_CPU = 1, res_Memory = 64\<rparr>, job_placement = \<lparr>required_labels = None\<rparr>,
     job_volumes = None, job_retries = 1, job_st = zero_job_status\<rparr>"

definition store0 :: mem_store where
  "store0 = UpsertJob batch (UpsertService web (UpsertNode node_b (UpsertNode node_a NewMemoryStore)))"

definition bytes0 :: entropy where
  "bytes0 = [1, 2, 3, 4, 5, 6, 7, 8, 9, 10, 11, 12, 13, 14, 15, 16, 17, 18, 19, 20]"

text \<open>The state after the first run of the reconcile loop.\<close>

definition run1 :: "fault + (controller \<times> mem_store \<times> entropy)" where
  "run1 = Reconcile mem_iface ctl0 t0 bytes0 store0"

definition store1 :: mem_store where
  "store1 = fst (snd (projr run1))"

lemma wf_store0: "wf_store store0"
  by (simp add: store0_def wf_intros)

lemma same_timeout0: "same_timeout ctl0"
  by (simp add: same_timeout_def ctl0_def New_def)

lemma run1_ok: "\<not> isl run1"
  by code_simp

lemma run1: "\<exists>c ent. Reconcile mem_iface ctl0 t0 bytes0 store0 = Inr (c, store1, ent)"
  using run1_ok by (cases run1) (auto simp: run1_def store1_def split: prod.splits)

definition c1 :: controller where
  "c1 = started ctl0 t0"

definition later :: time where
  "later = t0 + 60 * second"

lemma wf_store1: "wf_store store1"
  using run1 Reconcile_steps [OF wf_store0 same_timeout0] by blast

lemma same_timeout1: "same_timeout c1"
  by (simp add: c1_def started_def same_timeout_def ctl0_def New_def)

lemma small_store_examples: "small_store store0" "small_store store1"
proof -
  have "fmdom' (m_assignments store0) = {}" "card (fmdom' (m_assignments store1)) = 3"
    by code_simp+
  then show "small_store store0" "small_store store1"
    by (simp_all add: small_store_def)
qed

section \<open>Scheduler, store and controller\<close>

lemma ChooseNode_correct_witness:
  "ChooseNode (ctl_scheduler ctl0) t0 [node_b, node_a] [] (service_resources web) (service_placement web) None
      = Inr ''node-a'' \<and>
    ChooseNode (ctl_scheduler ctl0) later [node_b, node_a] [] (service_resources web)
      (service_placement web) None = Inl ErrNoEligibleNode"
proof
  show "ChooseNode (ctl_scheduler ctl0) t0 [node_b, node_a] [] (service_resources web) (service_placement web) None
      = Inr ''node-a''"
    by (rule ChooseNode_correct [THEN conjunct2, THEN spec, THEN iffD2]) code_simp
  show "ChooseNode (ctl_scheduler ctl0) later [node_b, node_a] [] (service_resources web)
      (service_placement web) None = Inl ErrNoEligibleNode"
    by (rule ChooseNode_correct [THEN conjunct1, THEN iffD2]) code_simp
qed

lemma listings_deterministic_witness:
  "sort_slice (\<lambda>a b. node_ID a < node_ID b) (ranged [''node-b'', ''node-a''] Node_Clone (m_nodes store0)) =
    ListNodes store0"
proof -
  have doms: "set [''node-b'', ''node-a''] = fmdom' (m_nodes store0)" "set [''web''] = fmdom' (m_services store0)"
    "set [''batch''] = fmdom' (m_jobs store0)" "set [] = fmdom' (m_assignments store0)"
    by code_simp+
  show ?thesis
    by (rule listings_deterministic [OF wf_store0 _ doms(1) _ doms(2) _ doms(3) _ doms(4), THEN conjunct1]) simp_all
qed

lemma nextAssignmentID_fresh_witness:
  "nextAssignmentID mem_iface store1 ''web'' 1 (drop 5 bytes0) = Inr (''web-1-pqrst'', drop 15 bytes0) \<and>
    fmlookup (m_assignments store1) ''web-1-pqrst'' = None"
proof -
  have "nextAssignmentID mem_iface store1 ''web'' 1 (drop 5 bytes0) = Inr (''web-1-pqrst'', drop 15 bytes0)"
    by code_simp
  with nextAssignmentID_fresh [of store1] show ?thesis by blast
qed

lemma reconcileService_replicas_witness:
  "\<exists>s' ent'. reconcileService mem_iface c1 t0 web bytes0 store0 = Inr (s', ent') \<and>
    (card (replica_keys (live_ids c1 t0 store0) ''web'' s') = 2 \<or>
     card (replica_keys (live_ids c1 t0 store0) ''web'' s') < 2 \<and> unplaceable c1 t0 web s')"
proof -
  have "\<not> isl (reconcileService mem_iface c1 t0 web bytes0 store0)"
    by code_simp
  then obtain s' ent' where run: "reconcileService mem_iface c1 t0 web bytes0 store0 = Inr (s', ent')"
    by (cases "reconcileService mem_iface c1 t0 web bytes0 store0") auto
  have "0 \<le> sint (service_replicas web)" "nat (sint (service_replicas web)) = 2" "service_name web = ''web''"
    by (simp_all add: web_def)
  with reconcileService_replicas [OF wf_store0 small_store_examples(1) same_timeout1 _ run] run show ?thesis
    by auto
qed

lemma scale_down_order_witness:
  "\<exists>s1 act1. scale_down mem_iface {''node-a'', ''node-b''} (web\<lparr>service_replicas := 1\<rparr>) store1 = Inr (s1, act1) \<and>
    card (replica_keys {''node-a'', ''node-b''} ''web'' s1) =
      min (card (replica_keys {''node-a'', ''node-b''} ''web'' store1)) 1"
proof -
  let ?v = "web\<lparr>service_replicas := 1\<rparr>"
  have v: "0 \<le> sint (service_replicas ?v)" "nat (sint (service_replicas ?v)) = 1" "service_name ?v = ''web''"
    by (simp_all add: web_def)
  show ?thesis
    using scale_down_order [OF wf_store1 small_store_examples(2) v(1), of "{''node-a'', ''node-b''}"]
    unfolding v(2,3) by blast
qed

lemma reconcileJob_starts_when_due_witness:
  "\<exists>s' ent' i nid. reconcileJob mem_iface c1 t0 batch bytes0 store0 = Inr (s', ent') \<and>
    fmlookup (m_assignments store0) i = None \<and>
    m_assignments s' = fmupd i (Assignment_Clone (job_assignment batch i nid 1 t0)) (m_assignments store0)"
proof -
  have "\<not> isl (reconcileJob mem_iface c1 t0 batch bytes0 store0)"
    by code_simp
  then obtain s' ent' where run: "reconcileJob mem_iface c1 t0 batch bytes0 store0 = Inr (s', ent')"
    by (cases "reconcileJob mem_iface c1 t0 batch bytes0 store0") auto
  have due: "job_due c1 t0 batch store0 \<and> job_placeable c1 t0 batch store0"
    by code_simp
  have "of_nat (failures (ListAssignmentsForOwner KindJob (job_name batch) store0)) + 1 = (1 :: goint)"
    by code_simp
  with reconcileJob_starts_when_due [OF run] due run show ?thesis by auto
qed

text \<open>The batch job's attempt succeeds.\<close>

definition store2 :: mem_store where
  "store2 = fst (UpdateAssignmentStatus ''batch-1-pqrst'' Succeeded [] (t0 + 5 * second) store1)"

lemma wf_store2: "wf_store store2"
  unfolding store2_def using wf_store1 by (rule wf_intros)

lemma reconcileJob_success_witness:
  "\<exists>st. reconcileJob mem_iface c1 (t0 + 6 * second) batch bytes0 store2 =
    Inr (fst (UpdateJobStatus ''batch'' st store2), bytes0) \<and> job_succeeded st"
proof -
  have "\<exists>a. fmlookup (m_assignments store2) ''batch-1-pqrst'' = Some a \<and> owner_kind a = KindJob \<and>
      owner_name a = job_name batch \<and> asg_phase a = Succeeded"
    by (rule exI [of _ "the (fmlookup (m_assignments store2) ''batch-1-pqrst'')"]) code_simp
  moreover have "job_name batch = ''batch''" by (simp add: batch_def)
  ultimately show ?thesis
    using reconcileJob_success [OF wf_store2] by metis
qed

lemma markLost_exact_witness:
  "\<exists>b. fmlookup (m_assignments (markLostAssignments mem_iface c1 later store1)) ''web-1-cdfgh'' = Some b \<and>
    asg_phase b = Lost \<and> finished_at b = Some later"
proof -
  let ?a = "the (fmlookup (m_assignments store1) ''web-1-cdfgh'')"
  have a: "fmlookup (m_assignments store1) ''web-1-cdfgh'' = Some ?a"
    and lost: "active ?a \<and> asg_node ?a \<notin> live_ids c1 later store1"
    by code_simp+
  from markLost_exact [OF wf_store1, of c1 later, THEN conjunct1, THEN spec, of "''web-1-cdfgh''"] show ?thesis
    by (subst (asm) a) (auto simp: lost)
qed

section \<open>Guarantees of a run\<close>

lemma Reconcile_frame_witness:
  "m_nodes store1 = m_nodes store0 \<and>
    (\<exists>b. fmlookup (m_assignments store1) ''web-1-cdfgh'' = Some b \<and>
      asg_node b \<in> live_ids (started ctl0 t0) t0 store0)"
proof -
  obtain c ent where run: "Reconcile mem_iface ctl0 t0 bytes0 store0 = Inr (c, store1, ent)"
    using run1 by blast
  let ?b = "the (fmlookup (m_assignments store1) ''web-1-cdfgh'')"
  have "fmlookup (m_assignments store1) ''web-1-cdfgh'' = Some ?b" "active ?b"
    by code_simp+
  with Reconcile_frame [OF wf_store0 same_timeout0 run] show ?thesis by blast
qed

lemma restart_grace_witness:
  "fmlookup (m_assignments (markLostAssignments mem_iface (started ctl0 later) later store1)) ''web-1-cdfgh'' =
    fmlookup (m_assignments store1) ''web-1-cdfgh''"
proof -
  let ?b = "the (fmlookup (m_assignments store1) ''web-1-cdfgh'')"
  have b: "fmlookup (m_assignments store1) ''web-1-cdfgh'' = Some ?b"
    and within: "time_Sub later (ctl_startedAt (started ctl0 later)) \<le> ctl_nodeTimeout ctl0"
    and known: "fmlookup (m_nodes store1) (asg_node ?b) \<noteq> None"
    by code_simp+
  show ?thesis
    using restart_grace [OF wf_store1 within b known] b by simp
qed

lemma Reconcile_retry_bound_witness:
  "card (consumed ''batch'' store1) \<le> max (card (consumed ''batch'' store0)) 2"
proof -
  obtain c ent where run: "Reconcile mem_iface ctl0 t0 bytes0 store0 = Inr (c, store1, ent)"
    using run1 by blast
  have j: "fmlookup (m_jobs store0) ''batch'' = Some batch" "nat (sint (job_retries batch) + 1) = 2"
    by code_simp+
  show ?thesis
    using Reconcile_retry_bound [OF wf_store0 same_timeout0 run j(1) small_store_examples(1)]
    unfolding j(2) .
qed

text \<open>
  The service is deleted between the run's listing of the services and the call of
  \<open>reconcileService\<close> with the listed one; the next run finds the replicas it leaves behind.
\<close>

definition orphans :: mem_store where
  "orphans = fst (projr (reconcileService mem_iface c1 t0 web bytes0 (fst (DeleteService ''web'' store0))))"

definition run_orphans :: "fault + (controller \<times> mem_store \<times> entropy)" where
  "run_orphans = Reconcile mem_iface c1 (t0 + second) bytes0 orphans"

lemma wf_orphans: "wf_store orphans"
proof -
  let ?r = "reconcileService mem_iface c1 t0 web bytes0 (fst (DeleteService ''web'' store0))"
  have "\<not> isl ?r" by code_simp
  then obtain s' ent' where run: "?r = Inr (s', ent')"
    by (metis sum.collapse(2) surj_pair)
  have wf: "wf_store (fst (DeleteService ''web'' store0))"
    using wf_store0 by (rule wf_intros)
  have "ctl_steps c1 t0 {web} {} (fst (DeleteService ''web'' store0)) s'"
    using reconcileService_steps [OF wf run] by blast
  from ctl_steps_wf [OF this wf] show ?thesis by (simp add: orphans_def run)
qed

lemma orphan_survives_witness:
  "fmlookup (m_services orphans) ''web'' = None \<and>
    fmlookup (m_assignments (fst (snd (projr run_orphans)))) ''web-1-cdfgh'' =
      Some (the (fmlookup (m_assignments orphans) ''web-1-cdfgh''))"
proof -
  have "\<not> isl run_orphans" by code_simp
  then obtain c s ent where run: "run_orphans = Inr (c, s, ent)"
    by (metis sum.collapse(2) prod_cases3)
  let ?a = "the (fmlookup (m_assignments orphans) ''web-1-cdfgh'')"
  have a: "fmlookup (m_assignments orphans) ''web-1-cdfgh'' = Some ?a" "owner_kind ?a = KindService"
    "fmlookup (m_services orphans) (owner_name ?a) = None" "fmlookup (m_services orphans) ''web'' = None"
    "asg_node ?a \<in> live_ids (started c1 (t0 + second)) (t0 + second) orphans"
    by code_simp+
  show ?thesis
    using orphan_survives [OF wf_orphans same_timeout1 run [unfolded run_orphans_def] a(1,2,3,5)] a(4)
    by (simp only: run sum.sel fst_conv snd_conv)
qed

lemma Reconcile_no_overcommit_witness:
  "fmlookup (m_nodes store1) ''node-a'' = Some node_a \<and> stored_load res_CPU ''node-a'' store1 \<le> 4"
proof -
  obtain c ent where run: "Reconcile mem_iface ctl0 t0 bytes0 store0 = Inr (c, store1, ent)"
    using run1 by blast
  have lists: "ListServices store0 = [web]" "ListJobs store0 = [batch]" "fmlookup (m_nodes store0) ''node-a'' = Some node_a"
    and empty: "m_assignments store0 = fmempty" and cap: "sint (res_CPU (node_capacity node_a)) = 4"
    by code_simp+
  have "nonneg_work res_CPU store0" "stored_load res_CPU ''node-a'' store0 \<le> sint (res_CPU (node_capacity node_a))"
    using empty cap by (simp_all add: nonneg_work_def stored_load_def work_keys_def)
  from Reconcile_no_overcommit [OF wf_store0 same_timeout0 run disjI1 [OF refl] this(1) _ _ lists(3) this(2)] show ?thesis
    unfolding cap by (simp add: lists web_def batch_def)
qed

end
