(* ===== verification/Examples_Api.thy ===== *)
theory Examples_Api
  imports Examples "HOL-Library.Code_Target_Nat"
begin

text \<open>
  A concrete certificate library, requests to the API, and a cluster driven by requests and
  runs of the loop: the properties of the API, the identities and the stored state applied
  at these values.
\<close>

section \<open>A certificate library\<close>

text \<open>PEM with the length of the type in front, keys and certificates that are their own bytes.\<close>

definition toy :: "(string, string, string, string) crypto" where
  "toy = \<lparr>
     pem_Decode = (\<lambda>s. let n = length (takeWhile (\<lambda>c. c = CHR ''#'') s); rest = drop (n + 1) s
       in if drop n s = [] then None else Some (take n rest, drop n rest)),
     pem_Encode = (\<lambda>ty b. replicate (length ty) (CHR ''#'') @ CHR ''|'' # ty @ b),
     x509_ParseCertificate = Some,
     x509_ParsePKCS8 = Some,
     key_Signs = (\<lambda>_. True),
     x509_MarshalPKCS8 = Some,
     key_Public = (\<lambda>k. k),
     x509_CreateCertificate = (\<lambda>tmpl iss pub key. Some (SubjectCN tmpl @ CHR ''/'' # pub)),
     x509_ParseCSR = Some,
     csr_CheckSignature = (\<lambda>_. True),
     csr_PublicKey = (\<lambda>r. r),
     sha256_Sum = (\<lambda>b. replicate 31 (of_nat (length b)) @ [if list_ex (\<lambda>c. c \<noteq> CHR ''#'') b then 1 else 0])\<rparr>"

definition toy_ca :: "(string, string) ca" where
  "toy_ca = \<lparr>ca_Cert = Some ''ca'', ca_Key = ''key'', ca_PEM = pem_Encode toy ''CERTIFICATE'' ''ca''\<rparr>"

definition au0 :: "(string, string) auth" where
  "au0 = \<lparr>auth_CA = toy_ca, JoinSecret = ''s3cret''\<rparr>"

section \<open>Requests\<close>

definition request :: "string \<Rightarrow> string \<Rightarrow> string \<Rightarrow> json option \<Rightarrow> http_request" where
  "request cn meth path body = \<lparr>req_method = meth, req_path = path, req_authorization = [],
     req_chains = (if cn = [] then None else Some [[cn]]), req_body = body\<rparr>"

definition db :: service where
  "db = web\<lparr>service_name := ''db'', service_replicas := 1, service_ports := Some [81]\<rparr>"

definition call_api :: "http_request \<Rightarrow> mem_store \<Rightarrow> mem_store \<times> http_response" where
  "call_api r s = serve mem_iface toy 1 t0 au0 r s"

definition register_a :: http_request where
  "register_a = request (NodeCN ''node-a'') ''POST'' ''/nodes/register'' (Some (enc_node node_a))"

definition post_service :: "service \<Rightarrow> http_request" where
  "post_service v = request AdminCN ''POST'' ''/services'' (Some (enc_service v))"

definition post_job :: "job \<Rightarrow> http_request" where
  "post_job j = request AdminCN ''POST'' ''/jobs'' (Some (enc_job j))"

definition delete_web :: http_request where
  "delete_web = request AdminCN ''DELETE'' ''/services/web'' None"

definition report :: "string \<Rightarrow> string \<Rightarrow> http_request" where
  "report i phase = request (NodeCN ''node-a'') ''POST'' (''/assignments/'' @ i @ ''/status'')
     (Some (JObj [(''phase'', JStr phase), (''message'', JStr [])]))"

definition join_a :: http_request where
  "join_a = (request [] ''POST'' ''/nodes/join'' (Some (JObj [(''nodeId'', JStr ''node-a''),
     (''csr'', JStr (pem_Encode toy ''CERTIFICATE REQUEST'' ''pub''))])))
       \<lparr>req_authorization := ''Bearer s3cret''\<rparr>"

text \<open>A report of node \<open>node-a\<close> on one of its assignments is accepted.\<close>

lemma report_served:
  assumes "wf_store s" "fmlookup (m_assignments s) i = Some a" "asg_node a = ''node-a''"
    and "cleanPath (req_path (report i ph)) = req_path (report i ph)" "i \<noteq> []"
    and "decodeJSON (dec_status_payload True) \<lparr>pl_phase = OtherPhase [], pl_message = []\<rparr> (report i ph) =
      Inr \<lparr>pl_phase = p, pl_message = []\<rparr>" "isAgentReportablePhase p"
  shows "fst (call_api (report i ph) s) = fst (UpdateAssignmentStatus i p [] t0 s)"
proof -
  have path: "req_path (report i ph) = ''/assignments/'' @ i @ ''/status''" and meth: "req_method (report i ph) = ''POST''"
    by (simp_all add: report_def request_def)
  have cn: "NodeIDFromCN (callerCN (report i ph)) = ''node-a''"
    by (simp add: report_def request_def callerCN_def NodeCN_def)
      (simp add: NodeIDFromCN_def nodePrefix_def)
  have owns: "ownsAssignment mem_iface s ''node-a'' i"
    using ownsAssignment_iff [OF assms(1)] assms(2,3) by blast
  have "call_api (report i ph) s = nodeOnly (handleAssignmentStatus mem_iface t0) (report i ph) s"
    using assms(4) by (simp add: call_api_def serve_def dispatch_def Let_def path HasPrefix_def)
  then show ?thesis
    using assms(5-7) owns meth TrimSuffix_append [of "''/assignments/'' @ i" "''/status''"]
      HasSuffix_append [of "''/assignments/'' @ i" "''/status''"] TrimPrefix_append [of "''/assignments/''" i]
    by (simp add: nodeOnly_def cn handleAssignmentStatus_def Let_def path split: prod.split option.split)
qed

section \<open>The API\<close>

lemma node_isolation_witness:
  "m_services (fst (call_api (report ''web-1-cdfgh'' ''Running'') store1)) = m_services store1 \<and>
    m_jobs (fst (call_api (report ''web-1-cdfgh'' ''Running'') store1)) = m_jobs store1"
proof -
  have "callerCN (report ''web-1-cdfgh'' ''Running'') = NodeCN ''node-a''"
    by code_simp
  from node_isolation [OF wf_store1 this, of toy 1 t0 au0] show ?thesis
    unfolding call_api_def by blast
qed

lemma anonymous_no_access_witness:
  "fst (call_api ((post_service web)\<lparr>req_chains := None\<rparr>) store1) = store1 \<and>
    snd (call_api ((post_service web)\<lparr>req_chains := None\<rparr>) store1) =
      snd (call_api ((post_service web)\<lparr>req_chains := None\<rparr>) NewMemoryStore)"
proof -
  have "callerCN ((post_service web)\<lparr>req_chains := None\<rparr>) \<noteq> AdminCN"
    "NodeIDFromCN (callerCN ((post_service web)\<lparr>req_chains := None\<rparr>)) = []"
    by code_simp+
  from anonymous_no_access [OF this] show ?thesis unfolding call_api_def .
qed

lemma admin_effect_witness:
  "m_nodes (fst (call_api delete_web store1)) = m_nodes store1 \<and>
    (\<exists>a. fmlookup (m_assignments store1) ''web-1-cdfgh'' = Some a \<and>
      fmlookup (m_assignments (fst (call_api delete_web store1))) ''web-1-cdfgh'' = None \<and>
      fmlookup (m_services (fst (call_api delete_web store1))) (owner_name a) = None)"
proof -
  let ?a = "the (fmlookup (m_assignments store1) ''web-1-cdfgh'')"
  have cn: "callerCN delete_web = AdminCN"
    and a: "fmlookup (m_assignments store1) ''web-1-cdfgh'' = Some ?a"
      "fmlookup (m_assignments (fst (call_api delete_web store1))) ''web-1-cdfgh'' = None" "owner_kind ?a \<noteq> KindJob"
    by code_simp+
  from admin_effect [OF wf_store1 cn, of toy 1 t0 au0, folded call_api_def] a show ?thesis by blast
qed

lemma join_guarded_witness:
  "req_authorization join_a = ''Bearer '' @ JoinSecret au0 \<and>
    (\<exists>p. decodeJSON (dec_join_payload True) \<lparr>pl_node_id = [], pl_csr = []\<rparr> join_a = Inr p \<and>
      validNodeID (pl_node_id p))"
proof -
  have "req_path join_a = ''/nodes/join''" "resp_status (snd (serve mem_iface toy 1 t0 au0 join_a store1)) = 200"
    by code_simp+
  from join_guarded [OF this] show ?thesis by blast
qed

definition slashed :: mem_store where
  "slashed = UpsertService (web\<lparr>service_name := ''a/b''\<rparr>) store1"

lemma slash_name_undeletable_witness:
  "fmlookup (m_services (fst (call_api (delete_web\<lparr>req_path := ''/services/a/b''\<rparr>) slashed))) ''a/b'' \<noteq> None"
proof -
  have wf: "wf_store slashed"
    unfolding slashed_def using wf_store1 by (rule wf_intros)
  have "CHR ''/'' \<in> set ''a/b''" "fmlookup (m_services slashed) ''a/b'' \<noteq> None"
    by (simp_all add: slashed_def UpsertService_def)
  with slash_name_undeletable [OF wf this(1)] show ?thesis unfolding call_api_def by blast
qed

lemma assignments_served_witness:
  "\<exists>xs. call_api (request (NodeCN ''node-a'') ''GET'' ''/nodes/node-a/assignments'' None) store1 =
      (store1, writeJSON 200 (JArr (map enc_assignment xs))) \<and>
    sorted_wrt created_before xs \<and> distinct (map asg_ID xs)"
proof -
  let ?r = "request (NodeCN ''node-a'') ''GET'' ''/nodes/node-a/assignments'' None"
  have "callerCN ?r = NodeCN ''node-a''" "''node-a'' \<noteq> []" "req_method ?r = ''GET''"
    "req_path ?r = ''/nodes/'' @ ''node-a'' @ ''/assignments''" "cleanPath (req_path ?r) = req_path ?r"
    "''node-a'' \<noteq> ''join''"
    by code_simp+
  from assignments_served [OF wf_store1 this, of toy 1 t0 au0] show ?thesis unfolding call_api_def by blast
qed

lemma json_roundtrip_witness:
  "dec_node True (enc_node node_a) zero_node = Some (Node_Clone node_a) \<and>
    dec_job False (enc_job batch) zero_job = Some (Job_Clone batch)"
proof -
  have "rfc3339_ok (last_heartbeat node_a)" "job_encodable batch"
    by code_simp+
  with json_roundtrip show ?thesis by blast
qed

section \<open>A cluster\<close>

definition cl_requests :: "http_request list" where
  "cl_requests = [register_a, post_service (web\<lparr>service_replicas := 1\<rparr>), post_service db, post_job batch]"

definition cl_setup :: mem_store where
  "cl_setup = fold (\<lambda>r s. fst (call_api r s)) cl_requests NewMemoryStore"

lemma cl_setup_code [code]:
  "cl_setup = UpsertJob batch (UpsertService (db\<lparr>service_st := (service_st db)\<lparr>desired_replicas := 1\<rparr>\<rparr>)
    (UpsertService (web\<lparr>service_replicas := 1, service_st := (service_st web)\<lparr>desired_replicas := 1\<rparr>\<rparr>)
      (UpsertNode node_a NewMemoryStore)))"
  by code_simp

definition cl_run1 :: "fault + (controller \<times> mem_store \<times> entropy)" where
  "cl_run1 = Reconcile mem_iface ctl0 t0 bytes0 cl_setup"

definition cl_placed :: mem_store where
  "cl_placed = fst (snd (projr cl_run1))"

definition cl_failed :: mem_store where
  "cl_failed = fst (UpdateAssignmentStatus ''batch-1-pqrst'' Failed [] t0 cl_placed)"

definition cl_run2 :: "fault + (controller \<times> mem_store \<times> entropy)" where
  "cl_run2 = Reconcile mem_iface ctl0 (t0 + second) bytes0 cl_failed"

definition cl_end :: mem_store where
  "cl_end = fst (snd (projr cl_run2))"

text \<open>What the runs leave: a replica of each service and a failed attempt of the job with its retry.\<close>

definition db_replica :: assignment where
  "db_replica = service_assignment db ''db-1-cdfgh'' ''node-a'' t0"

definition web_replica :: assignment where
  "web_replica = service_assignment web ''web-1-jklmn'' ''node-a'' t0"

definition first_attempt :: assignment where
  "first_attempt = job_assignment batch ''batch-1-pqrst'' ''node-a'' 1 t0"

definition second_attempt :: assignment where
  "second_attempt = job_assignment batch ''batch-2-cdfgh'' ''node-a'' 2 (t0 + second)"

definition failed_attempt :: assignment where
  "failed_attempt = first_attempt\<lparr>asg_phase := Failed, finished_at := Some t0\<rparr>"

lemma cl_placed_assignments: "m_assignments cl_placed = fmap_of_list
    [(''db-1-cdfgh'', db_replica), (''web-1-jklmn'', web_replica), (''batch-1-pqrst'', first_attempt)]"
  by code_simp

lemma cl_failed_assignments: "m_assignments cl_failed = fmap_of_list
    [(''db-1-cdfgh'', db_replica), (''web-1-jklmn'', web_replica), (''batch-1-pqrst'', failed_attempt)]"
  by code_simp

lemma cl_end_assignments: "m_assignments cl_end = fmap_of_list
    [(''db-1-cdfgh'', db_replica), (''web-1-jklmn'', web_replica), (''batch-1-pqrst'', failed_attempt),
     (''batch-2-cdfgh'', second_attempt)]"
  by code_simp

lemmas cluster_values = cl_placed_assignments cl_failed_assignments cl_end_assignments

lemmas assignment_values = db_replica_def web_replica_def first_attempt_def second_attempt_def
  failed_attempt_def service_assignment_def job_assignment_def db_def web_def batch_def

lemma cluster_call: "cluster toy au0 ctl0 (c, s) \<Longrightarrow> cluster toy au0 ctl0 (c, fst (call_api r s))"
  unfolding call_api_def by (rule cluster_request)

lemma cluster_calls: "cluster toy au0 ctl0 (c, s) \<Longrightarrow> cluster toy au0 ctl0 (c, fold (\<lambda>r s. fst (call_api r s)) rs s)"
  by (induction rs arbitrary: s) (simp_all add: cluster_call)

lemma cluster_placed: "\<exists>c. cluster toy au0 ctl0 (c, cl_placed)"
proof -
  have "\<not> isl cl_run1" by code_simp
  then obtain c s ent where run: "cl_run1 = Inr (c, s, ent)"
    by (metis sum.collapse(2) prod_cases3)
  have "cluster toy au0 ctl0 (ctl0, cl_setup)"
    unfolding cl_setup_def by (intro cluster_calls cluster_init)
  from cluster_reconcile [OF this run [unfolded cl_run1_def]] show ?thesis
    by (auto simp only: cl_placed_def run sum.sel fst_conv snd_conv)
qed

lemma cluster_failed: "\<exists>c. cluster toy au0 ctl0 (c, cl_failed)"
proof -
  obtain c where c: "cluster toy au0 ctl0 (c, cl_placed)"
    using cluster_placed ..
  have a: "fmlookup (m_assignments cl_placed) ''batch-1-pqrst'' = Some first_attempt" "asg_node first_attempt = ''node-a''"
    by (simp_all add: cluster_values assignment_values)
  have r: "cleanPath (req_path (report ''batch-1-pqrst'' ''Failed'')) = req_path (report ''batch-1-pqrst'' ''Failed'')"
    "''batch-1-pqrst'' \<noteq> []"
    "decodeJSON (dec_status_payload True) \<lparr>pl_phase = OtherPhase [], pl_message = []\<rparr>
      (report ''batch-1-pqrst'' ''Failed'') = Inr \<lparr>pl_phase = Failed, pl_message = []\<rparr>"
    "isAgentReportablePhase Failed"
    by code_simp+
  have "fst (call_api (report ''batch-1-pqrst'' ''Failed'') cl_placed) = cl_failed"
    unfolding cl_failed_def using cluster_invariants(1) [OF c same_timeout0] a r by (rule report_served)
  with cluster_call [OF c, of "report ''batch-1-pqrst'' ''Failed''"] show ?thesis by auto
qed

lemma cluster_end: "\<exists>c. cluster toy au0 ctl0 (c, cl_end)"
proof -
  have "\<not> isl cl_run2" by code_simp
  then obtain c s ent where run: "cl_run2 = Inr (c, s, ent)"
    by (metis sum.collapse(2) prod_cases3)
  obtain c' where "cluster toy au0 ctl0 (c', cl_failed)"
    using cluster_failed ..
  then have "cluster toy au0 ctl0 (ctl0, cl_failed)"
    by (rule cluster_restart)
  from cluster_reconcile [OF this run [unfolded cl_run2_def]] show ?thesis
    by (auto simp only: cl_end_def run sum.sel fst_conv snd_conv)
qed

lemma cluster_ports_exclusive_witness:
  "fmlookup (m_assignments cl_end) ''db-1-cdfgh'' = Some db_replica \<and>
    fmlookup (m_assignments cl_end) ''web-1-jklmn'' = Some web_replica \<and>
    set (elems (asg_ports db_replica)) \<inter> set (elems (asg_ports web_replica)) = {}"
proof -
  obtain c where c: "cluster toy au0 ctl0 (c, cl_end)"
    using cluster_end ..
  have a: "fmlookup (m_assignments cl_end) ''db-1-cdfgh'' = Some db_replica"
    "fmlookup (m_assignments cl_end) ''web-1-jklmn'' = Some web_replica"
    and d: "''db-1-cdfgh'' \<noteq> ''web-1-jklmn''" "active db_replica" "active web_replica" "asg_node db_replica = asg_node web_replica"
    by (simp_all add: cluster_values assignment_values)
  from cluster_ports_exclusive [OF c same_timeout0 a d] a show ?thesis by blast
qed

lemma cluster_one_attempt_witness:
  "fmlookup (m_assignments cl_end) ''batch-2-cdfgh'' = Some second_attempt \<and> active second_attempt \<and>
    \<not> active failed_attempt \<and> asg_phase failed_attempt \<noteq> Succeeded"
proof -
  obtain c where c: "cluster toy au0 ctl0 (c, cl_end)"
    using cluster_end ..
  have a: "fmlookup (m_assignments cl_end) ''batch-2-cdfgh'' = Some second_attempt"
    "fmlookup (m_assignments cl_end) ''batch-1-pqrst'' = Some failed_attempt"
    and d: "''batch-2-cdfgh'' \<noteq> ''batch-1-pqrst''" "owner_kind second_attempt = KindJob" "owner_kind failed_attempt = KindJob"
      "owner_name second_attempt = owner_name failed_attempt" "active second_attempt"
    by (simp_all add: cluster_values assignment_values)
  from cluster_one_attempt [OF c same_timeout0 a d] a d(5) show ?thesis by blast
qed

lemma assignment_lifecycle_witness:
  "all_stamped cl_failed \<and> progress first_attempt failed_attempt"
proof -
  obtain c where "cluster toy au0 ctl0 (c, cl_placed)"
    using cluster_placed ..
  then have stamped: "all_stamped cl_placed" using same_timeout0 by (rule cluster_invariants)
  have a: "asg_node first_attempt = ''node-a''" "fmlookup (m_assignments cl_placed) ''batch-1-pqrst'' = Some first_attempt"
    and b: "fmlookup (m_assignments cl_failed) ''batch-1-pqrst'' = Some failed_attempt"
    by (simp_all add: cluster_values assignment_values)
  have "api_step (NodeCN (asg_node first_attempt)) t0 cl_placed cl_failed"
    unfolding cl_failed_def using a by (intro api_status) simp_all
  then have "plane_step cl_placed cl_failed" unfolding plane_step_def by blast
  from assignment_lifecycle [OF this stamped] a b show ?thesis by blast
qed

end
