(* ===== verification/Examples_Pki.thy ===== *)
theory Examples_Pki
  imports Examples_Api
begin

text \<open>The properties of identities, tokens, the certificate authority and the SQLite store at concrete values.\<close>

section \<open>Identities and tokens\<close>

lemma returned: "\<not> isl (snd r) \<Longrightarrow> r = (fst r, Inr (projr (snd r)))"
  by (cases r) simp

lemma toy_laws: "crypto_laws toy"
proof -
  have "takeWhile (\<lambda>c. c = CHR ''#'') (replicate n (CHR ''#'') @ CHR ''|'' # s) = replicate n (CHR ''#'')" for n s
    by (induction n) simp_all
  then show ?thesis by (auto simp: crypto_laws_def toy_def Let_def)
qed

lemma node_identity_witness: "NodeIDFromCN (NodeCN ''node-a'') = ''node-a'' \<and> NodeIDFromCN AdminCN = []"
proof -
  have "''node-a'' \<noteq> []" by simp
  with node_identity show ?thesis by blast
qed

definition token0 :: token where
  "token0 = \<lparr>CAHash = replicate 64 (CHR ''a''), Secret = ''s3cret''\<rparr>"

lemma token_roundtrip_witness: "ParseToken ('' '' @ Token_String token0 @ [CHR 0x0A]) = Inr token0"
proof -
  have "token_ok token0" "\<not> is_space (last (Secret token0))" "set '' '' \<subseteq> {c. is_space c}"
    "set [CHR 0x0A] \<subseteq> {c. is_space c}"
    by code_simp+
  with token_roundtrip show ?thesis by blast
qed

definition token_run :: "fs \<times> (load_error + token)" where
  "token_run = LoadOrCreateToken toy (Some (replicate 32 7)) NoFault ''token'' toy_ca (joinSecret []) fmempty"

lemma LoadOrCreateToken_stable_witness:
  "LoadOrCreateToken toy None OpenFails ''token'' toy_ca (joinSecret []) (fst token_run) = token_run"
proof -
  have "\<not> isl (snd token_run)" by code_simp
  then obtain d t where run: "token_run = (d, Inr t)"
    by (blast dest: returned)
  have "length bs = 32" if "Some (replicate 32 7) = Some bs" for bs :: "8 word list"
    using that by auto
  from LoadOrCreateToken_stable [OF toy_laws run [unfolded token_run_def] this disjI1 [OF refl]]
  show ?thesis unfolding run by simp
qed

definition ca_run :: "fs \<times> (ca_error + (string, string) ca)" where
  "ca_run = LoadOrCreateCA toy 1 t0 (Some ''key'') NoFault NoFault ''pki'' fmempty"

lemma LoadOrCreateCA_stable_witness:
  "LoadOrCreateCA toy 2 later None OpenFails OpenFails ''pki'' (fst ca_run) = ca_run \<and>
    LoadOrCreateCA toy 1 t0 (Some ''key2'') NoFault NoFault ''pki'' (fmdrop ''pki/ca.key'' (fst ca_run)) =
      (fmdrop ''pki/ca.key'' (fst ca_run), Inl HalfPresent)"
proof -
  have "\<not> isl (snd ca_run)" by code_simp
  then obtain d ca where run: "ca_run = (d, Inr ca)"
    by (blast dest: returned)
  have "(os_ReadFile (fmdrop ''pki/ca.key'' (fst ca_run)) (''pki'' @ ''/ca.crt'') = NotExist) \<noteq>
    (os_ReadFile (fmdrop ''pki/ca.key'' (fst ca_run)) (''pki'' @ ''/ca.key'') = NotExist)"
    by code_simp
  from LoadOrCreateCA_stable [OF toy_laws, THEN conjunct2, THEN conjunct1, THEN mp, OF this]
    LoadOrCreateCA_stable [OF toy_laws, THEN conjunct1, THEN mp, OF run [unfolded ca_run_def]]
  show ?thesis unfolding run by simp
qed

lemma SignNodeCSR_identity_witness:
  "\<exists>pem (tmpl :: cert_template). SignNodeCSR toy 1 t0 toy_ca ''node-a'' (pem_Encode toy ''CERTIFICATE REQUEST'' ''pub'') = Some pem \<and>
    SubjectCN tmpl = NodeCN ''node-a'' \<and> ExtKeyUsage tmpl = [ClientAuth] \<and> \<not> IsCA tmpl"
proof -
  have "SignNodeCSR toy 1 t0 toy_ca ''node-a'' (pem_Encode toy ''CERTIFICATE REQUEST'' ''pub'') \<noteq> None"
    by code_simp
  then obtain pem where
    pem: "SignNodeCSR toy 1 t0 toy_ca ''node-a'' (pem_Encode toy ''CERTIFICATE REQUEST'' ''pub'') = Some pem"
    by auto
  from SignNodeCSR_identity [OF pem] pem show ?thesis by blast
qed

section \<open>SQLite\<close>

definition calls0 :: "store_call list" where
  "calls0 = [CallUpsertNode node_a, CallUpsertNode node_b, CallUpsertService web, CallUpsertJob batch]"

lemma inv_empty: "sqlite_inv OpenSQLite_empty"
  by (simp add: sqlite_inv_def OpenSQLite_empty_def)

lemma view_empty: "sqlite_view OpenSQLite_empty = NewMemoryStore"
  by (simp add: sqlite_view_def OpenSQLite_empty_def NewMemoryStore_def)

lemma calls0_ok: "x \<in> set calls0 \<Longrightarrow> call_ok time_ok x"
  by (auto simp: calls0_def node_ok_def job_status_ok_def node_a_def node_b_def batch_def zero_job_status_def
      t0_def time_ok_def)

lemma sqlite_simulates_memory_witness:
  "snd (exec_calls sqlite_iface (calls0 @ [CallListNodes]) OpenSQLite_empty) =
      snd (exec_calls mem_iface (calls0 @ [CallListNodes]) NewMemoryStore) \<and>
    sqlite_inv (fst (exec_calls sqlite_iface (calls0 @ [CallListNodes]) OpenSQLite_empty))"
proof -
  have "call_ok time_ok x" if "x \<in> set (calls0 @ [CallListNodes])" for x
    using that calls0_ok by auto
  from sqlite_simulates_memory [OF inv_empty this] show ?thesis unfolding view_empty by blast
qed

definition db0 :: sqlite_store where
  "db0 = fst (exec_calls sqlite_iface calls0 OpenSQLite_empty)"

lemma db0: "sqlite_inv db0" "sqlite_view db0 = store0"
proof -
  have "fst (exec_calls mem_iface calls0 NewMemoryStore) = store0"
    by (simp add: calls0_def store0_def)
  then show "sqlite_inv db0" "sqlite_view db0 = store0"
    using sqlite.exec_calls_view [OF inv_empty calls0_ok] by (simp_all add: db0_def view_empty)
qed

lemma sqlite_Reconcile_witness:
  "\<exists>c db1 ent. Reconcile sqlite_iface ctl0 t0 bytes0 db0 = Inr (c, db1, ent) \<and>
    sqlite_inv db1 \<and> sqlite_view db1 = store1"
proof -
  obtain c ent where run: "Reconcile mem_iface ctl0 t0 bytes0 store0 = Inr (c, store1, ent)"
    using run1 by blast
  have "time_ok t0" by (simp add: time_ok_def t0_def)
  from sqlite_Reconcile [OF db0(1) this, of ctl0 bytes0] run show ?thesis
    unfolding db0(2) by (auto split: sum.splits)
qed

end
