(* ===== verification/Client.thy ===== *)
theory Client
  imports Http
begin

text \<open>
  \<open>internal/client\<close>: the calls an agent or \<open>k8ctl\<close> makes to the controller (\<open>client.go\<close>,
  \<open>http.go\<close>). The network is a parameter that carries a request to some server and may lose
  it. With the controller's handlers as that server, each call acts on the store as the
  store operation it is meant for; the path of a request is built by plain
  concatenation, which the last theorem shows to go wrong for some names.
\<close>

section \<open>URLs\<close>

text \<open>
  What \<open>http.NewRequest\<close> makes of a URL: a control character is an error, the fragment and
  the query are cut off, the scheme and the authority precede the path, and a
  percent sign must start an escape. The scheme and the authority are not checked further.
\<close>

definition is_ctl :: "char \<Rightarrow> bool" where
  "is_ctl c \<longleftrightarrow> (let n = of_char c :: nat in n < 32 \<or> n = 127)"

definition hex_val :: "char \<Rightarrow> nat" where
  "hex_val c = (let n = of_char c :: nat in if n \<le> 57 then n - 48 else if n \<le> 70 then n - 55 else n - 87)"

fun url_unescape :: "string \<Rightarrow> string option" where
  "url_unescape [] = Some []"
| "url_unescape (c # s) =
     (if c \<noteq> CHR ''%'' then map_option (Cons c) (url_unescape s)
      else case s of
        a # b # t \<Rightarrow>
          if is_hex a \<and> is_hex b
          then map_option (Cons (char_of (16 * hex_val a + hex_val b))) (url_unescape t) else None
      | _ \<Rightarrow> None)"

definition before :: "char \<Rightarrow> string \<Rightarrow> string" where
  "before c s = takeWhile (\<lambda>x. x \<noteq> c) s"

definition url_path :: "string \<Rightarrow> string option" where
  "url_path raw =
     (let u = before (CHR ''#'') raw; frag = drop (length u + 1) raw in
      if list_ex is_ctl u \<or> url_unescape frag = None then None
      else case Cut (before (CHR ''?'') u) ''://'' of
        None \<Rightarrow> None
      | Some (scheme, rest) \<Rightarrow> url_unescape (dropWhile (\<lambda>c. c \<noteq> CHR ''/'') rest))"

section \<open>Requests\<close>

text \<open>One exchange with a server; \<open>None\<close> when it fails, whether or not the server saw the request.\<close>

type_synonym 'w transport = "http_request \<Rightarrow> 'w \<Rightarrow> 'w \<times> http_response option"

text \<open>A client is its base URL and the CommonName of the certificate it presents.\<close>

record client =
  cl_base :: string
  cl_cn :: string

definition TrimRight_slash :: "string \<Rightarrow> string" where
  "TrimRight_slash s = rev (dropWhile (\<lambda>c. c = CHR ''/'') (rev s))"

definition New_Client :: "string \<Rightarrow> string \<Rightarrow> client" where
  "New_Client baseURL cn = \<lparr>cl_base = TrimRight_slash baseURL, cl_cn = cn\<rparr>"

text \<open>\<open>http.Client.Do\<close> gives up after ten requests; the controller's redirects are all 307, which keep method and body.\<close>

fun client_Do :: "nat \<Rightarrow> 'w transport \<Rightarrow> 'w transport" where
  "client_Do n send r w = (case send r w of
     (w1, None) \<Rightarrow> (w1, None)
   | (w1, Some resp) \<Rightarrow> (case resp_body resp of
       Location p \<Rightarrow> (case n of
         0 \<Rightarrow> (w1, None)
       | Suc k \<Rightarrow> client_Do k send (r\<lparr>req_path := p\<rparr>) w1)
     | _ \<Rightarrow> (w1, Some resp)))"

declare client_Do.simps [simp del]

datatype client_error = MarshalFailed | BadURL | TransportFailed | ErrorStatus nat resp_body | BadResponse

text \<open>
  \<open>do\<close>. A payload is absent (\<open>nil\<close>), or what \<open>json.Marshal\<close> makes of it, \<open>None\<close> for an error.
\<close>

definition client_do ::
  "'w transport \<Rightarrow> client \<Rightarrow> string \<Rightarrow> string \<Rightarrow> json option option \<Rightarrow> 'w \<Rightarrow> 'w \<times> (client_error + http_response)" where
  "client_do send c meth path payload w =
     (if payload = Some None then (w, Inl MarshalFailed)
      else case url_path (cl_base c @ path) of
        None \<Rightarrow> (w, Inl BadURL)
      | Some p \<Rightarrow>
        (case client_Do 9 send \<lparr>req_method = meth, req_path = p, req_authorization = [],
             req_chains = Some [[cl_cn c]], req_body = Option.bind payload (\<lambda>j. j)\<rparr> w of
           (w1, None) \<Rightarrow> (w1, Inl TransportFailed)
         | (w1, Some resp) \<Rightarrow>
             if 400 \<le> resp_status resp then (w1, Inl (ErrorStatus (resp_status resp) (resp_body resp)))
             else (w1, Inr resp)))"

definition discard :: "'w \<times> (client_error + http_response) \<Rightarrow> 'w \<times> (client_error + unit)" where
  "discard x = (fst x, map_sum (\<lambda>e. e) (\<lambda>_. ()) (snd x))"

definition postJSON ::
  "'w transport \<Rightarrow> client \<Rightarrow> string \<Rightarrow> json option \<Rightarrow> 'w \<Rightarrow> 'w \<times> (client_error + unit)" where
  "postJSON send c path payload w = discard (client_do send c ''POST'' path (Some payload) w)"

definition getJSON ::
  "'w transport \<Rightarrow> client \<Rightarrow> string \<Rightarrow> 'a decoder \<Rightarrow> 'a \<Rightarrow> 'w \<Rightarrow> 'w \<times> (client_error + 'a)" where
  "getJSON send c path d z w = (case client_do send c ''GET'' path None w of
     (w1, Inl e) \<Rightarrow> (w1, Inl e)
   | (w1, Inr resp) \<Rightarrow> (case resp_body resp of
       JsonBody j \<Rightarrow> (w1, case d j z of None \<Rightarrow> Inl BadResponse | Some x \<Rightarrow> Inr x)
     | _ \<Rightarrow> (w1, Inl BadResponse)))"

definition marshal_job :: "job \<Rightarrow> json option" where
  "marshal_job j = (if job_encodable j then Some (enc_job j) else None)"

definition marshal_node :: "node \<Rightarrow> json option" where
  "marshal_node n = (if rfc3339_ok (last_heartbeat n) then Some (enc_node n) else None)"

section \<open>Calls\<close>

definition ApplyService :: "'w transport \<Rightarrow> client \<Rightarrow> service \<Rightarrow> 'w \<Rightarrow> 'w \<times> (client_error + unit)" where
  "ApplyService send c v w = postJSON send c ''/services'' (Some (enc_service v)) w"

definition Client_DeleteService :: "'w transport \<Rightarrow> client \<Rightarrow> string \<Rightarrow> 'w \<Rightarrow> 'w \<times> (client_error + unit)" where
  "Client_DeleteService send c name w = discard (client_do send c ''DELETE'' (''/services/'' @ name) None w)"

definition ApplyJob :: "'w transport \<Rightarrow> client \<Rightarrow> job \<Rightarrow> 'w \<Rightarrow> 'w \<times> (client_error + unit)" where
  "ApplyJob send c j w = postJSON send c ''/jobs'' (marshal_job j) w"

definition Client_DeleteJob :: "'w transport \<Rightarrow> client \<Rightarrow> string \<Rightarrow> 'w \<Rightarrow> 'w \<times> (client_error + unit)" where
  "Client_DeleteJob send c name w = discard (client_do send c ''DELETE'' (''/jobs/'' @ name) None w)"

definition RegisterNode :: "'w transport \<Rightarrow> client \<Rightarrow> node \<Rightarrow> 'w \<Rightarrow> 'w \<times> (client_error + unit)" where
  "RegisterNode send c n w = postJSON send c ''/nodes/register'' (marshal_node n) w"

definition Heartbeat :: "'w transport \<Rightarrow> client \<Rightarrow> string \<Rightarrow> 'w \<Rightarrow> 'w \<times> (client_error + unit)" where
  "Heartbeat send c nodeID w = postJSON send c ''/nodes/heartbeat'' (Some (JObj [(''id'', JStr nodeID)])) w"

definition FetchAssignments ::
  "'w transport \<Rightarrow> client \<Rightarrow> string \<Rightarrow> 'w \<Rightarrow> 'w \<times> (client_error + assignment list)" where
  "FetchAssignments send c nodeID w =
     apsnd (map_sum (\<lambda>e. e) elems)
       (getJSON send c (''/nodes/'' @ nodeID @ ''/assignments'') (dec_slice (dec_assignment False) zero_assignment) None w)"

definition Client_UpdateAssignmentStatus ::
  "'w transport \<Rightarrow> client \<Rightarrow> string \<Rightarrow> assignment_phase \<Rightarrow> string \<Rightarrow> 'w \<Rightarrow> 'w \<times> (client_error + unit)" where
  "Client_UpdateAssignmentStatus send c i phase message w =
     postJSON send c (''/assignments/'' @ i @ ''/status'')
       (Some (JObj [(''phase'', JStr (phase_string phase)), (''message'', JStr message)])) w"

text \<open>The decoder of a \<open>StateSnapshot\<close>, whose listings are lists here.\<close>

definition at_list :: "('r \<Rightarrow> 'a list) \<Rightarrow> (('a list \<Rightarrow> 'a list) \<Rightarrow> 'r \<Rightarrow> 'r) \<Rightarrow> 'a decoder \<Rightarrow> 'a \<Rightarrow> 'r decoder" where
  "at_list sel upd d z j r = map_option (\<lambda>xs. upd (\<lambda>_. elems xs) r) (dec_slice d z j (Some (sel r)))"

definition dec_snapshot :: "bool \<Rightarrow> state_snapshot decoder" where
  "dec_snapshot strict = dec_struct strict
     [(''nodes'', at_list snap_nodes snap_nodes_update (dec_node strict) zero_node),
      (''services'', at_list snap_services snap_services_update (dec_service strict) zero_service),
      (''jobs'', at_list snap_jobs snap_jobs_update (dec_job strict) zero_job),
      (''assignments'', at_list snap_assignments snap_assignments_update (dec_assignment strict) zero_assignment)]"

definition FetchState :: "'w transport \<Rightarrow> client \<Rightarrow> 'w \<Rightarrow> 'w \<times> (client_error + state_snapshot)" where
  "FetchState send c w = getJSON send c ''/state'' (dec_snapshot False)
     \<lparr>snap_nodes = [], snap_services = [], snap_jobs = [], snap_assignments = []\<rparr> w"

section \<open>Paths that survive\<close>

text \<open>Names that a path carries unchanged, and base URLs with nothing after the authority.\<close>

definition plain_char :: "char \<Rightarrow> bool" where
  "plain_char c \<longleftrightarrow> \<not> is_ctl c \<and> c \<notin> set ''/?#%''"

definition plain_name :: "string \<Rightarrow> bool" where
  "plain_name s \<longleftrightarrow> s \<noteq> [] \<and> s \<noteq> ''.'' \<and> s \<noteq> ''..'' \<and> list_all plain_char s"

definition plain_base :: "string \<Rightarrow> bool" where
  "plain_base b \<longleftrightarrow> (case Cut b ''://'' of None \<Rightarrow> False
     | Some (scheme, host) \<Rightarrow> list_all plain_char scheme \<and> CHR '':'' \<notin> set scheme \<and> list_all plain_char host)"

lemma url_unescape_id: "CHR ''%'' \<notin> set s \<Longrightarrow> url_unescape s = Some s"
  by (induction s) auto

lemma before_id: "c \<notin> set s \<Longrightarrow> before c s = s"
  by (induction s) (auto simp: before_def)

lemma url_path_plain:
  assumes "plain_base b" "path = [] \<or> hd path = CHR ''/''"
    and "\<And>c. c \<in> set path \<Longrightarrow> plain_char c \<or> c = CHR ''/''"
  shows "url_path (b @ path) = Some path"
proof -
  obtain scheme host where cut: "Cut b ''://'' = Some (scheme, host)"
    and ok: "list_all plain_char scheme" "CHR '':'' \<notin> set scheme" "list_all plain_char host"
    using assms(1) by (auto simp: plain_base_def split: option.splits)
  have b: "b @ path = scheme @ ''://'' @ (host @ path)"
    using Cut_Some [OF cut] by simp
  have chars: "\<not> is_ctl c \<and> c \<notin> set ''?#%''" if "c \<in> set (b @ path)" for c
    using that ok(1,3) assms(3) unfolding b
    by (fastforce simp: plain_char_def list_all_iff is_ctl_def)
  then have ids: "before (CHR ''#'') (b @ path) = b @ path" "before (CHR ''?'') (b @ path) = b @ path"
    by (intro before_id; fastforce)+
  have ctl: "\<not> list_ex is_ctl (b @ path)"
    using chars by (auto simp: list_ex_iff)
  have "CHR ''/'' \<notin> set host"
    using ok(3) by (auto simp: list_all_iff plain_char_def)
  then have "dropWhile (\<lambda>c. c \<noteq> CHR ''/'') (host @ path) = path"
    using assms(2) by (cases path) (auto simp: dropWhile_append)
  moreover have "Cut (b @ path) ''://'' = Some (scheme, host @ path)"
    unfolding b using ok(2) by (intro Cut_first) auto
  moreover have "url_unescape path = Some path"
    using chars by (intro url_unescape_id) auto
  ultimately show ?thesis
    using ctl by (simp add: url_path_def Let_def ids)
qed

text \<open>What follows a question mark does not reach the server's path.\<close>

lemma url_path_query:
  assumes "plain_base b" "path = [] \<or> hd path = CHR ''/''"
    and "\<And>c. c \<in> set path \<Longrightarrow> plain_char c \<or> c = CHR ''/''"
    and "\<And>c. c \<in> set q \<Longrightarrow> \<not> is_ctl c \<and> c \<noteq> CHR ''#''"
  shows "url_path (b @ path @ CHR ''?'' # q) = Some path"
proof -
  have b: "CHR ''#'' \<notin> set b \<and> CHR ''?'' \<notin> set b \<and> \<not> list_ex is_ctl b"
    using assms(1) Cut_Some [of b "''://''"]
    by (fastforce simp: plain_base_def plain_char_def list_all_iff list_ex_iff is_ctl_def split: option.splits)
  have p: "CHR ''#'' \<notin> set path \<and> CHR ''?'' \<notin> set path \<and> \<not> list_ex is_ctl path"
    using assms(3) by (fastforce simp: plain_char_def list_ex_iff is_ctl_def)
  have "before (CHR ''#'') (b @ path @ CHR ''?'' # q) = b @ path @ CHR ''?'' # q"
    using b p assms(4) by (intro before_id) auto
  moreover have "before (CHR ''?'') (b @ path @ CHR ''?'' # q) = b @ path"
    using b p by (auto simp: before_def takeWhile_append)
  moreover have "\<not> list_ex is_ctl (b @ path @ CHR ''?'' # q)"
    using b p assms(4) by (auto simp: list_ex_iff is_ctl_def)
  moreover have "before (CHR ''#'') (b @ path) = b @ path" "before (CHR ''?'') (b @ path) = b @ path"
    using b p by (auto intro: before_id)
  ultimately show ?thesis
    using url_path_plain [OF assms(1-3)] by (auto simp: url_path_def Let_def split: if_splits)
qed

definition plain_segment :: "string \<Rightarrow> bool" where
  "plain_segment w \<longleftrightarrow> w \<noteq> [] \<and> w \<noteq> ''.'' \<and> w \<noteq> ''..'' \<and> CHR ''/'' \<notin> set w"

lemma split_on_segments:
  assumes "ws \<noteq> []" "list_all plain_segment ws"
  shows "split_on (CHR ''/'') (concat (map (\<lambda>w. CHR ''/'' # w) ws)) = [] # ws"
proof -
  have "split_on (CHR ''/'') (w @ concat (map (\<lambda>w. CHR ''/'' # w) vs)) = w # vs"
    if "list_all plain_segment (w # vs)" for w vs
    using that
  proof (induction vs arbitrary: w)
    case Nil
    then show ?case by (simp add: plain_segment_def split_on_last)
  next
    case (Cons v vs)
    then show ?case by (simp add: plain_segment_def split_on_append)
  qed
  with assms show ?thesis by (cases ws) simp_all
qed

lemma clean_segments_plain: "list_all plain_segment ws \<Longrightarrow> clean_segments acc ws = rev acc @ ws"
  by (induction ws arbitrary: acc) (simp_all add: plain_segment_def)

lemma cleanPath_segments:
  assumes "ws \<noteq> []" "list_all plain_segment ws"
  shows "cleanPath (concat (map (\<lambda>w. CHR ''/'' # w) ws)) = concat (map (\<lambda>w. CHR ''/'' # w) ws)"
proof -
  let ?p = "concat (map (\<lambda>w. CHR ''/'' # w) ws)"
  have ne: "?p \<noteq> []" using assms(1) by (cases ws) simp_all
  obtain vs v where ws: "ws = vs @ [v]" using assms(1) by (metis rev_exhaust)
  have "v \<noteq> []" "CHR ''/'' \<notin> set v" using assms(2) by (simp_all add: ws plain_segment_def)
  then have "last ?p = last v" "last v \<noteq> CHR ''/''"
    by (auto simp: ws dest: last_in_set)
  then have "last ?p \<noteq> CHR ''/''" by simp
  then have "\<not> HasSuffix ?p ''/''"
    unfolding HasSuffix_iff by (metis last_snoc)
  with ne show ?thesis
    by (simp add: cleanPath_def Let_def split_on_segments [OF assms] clean_segments_plain [OF assms(2)])
qed

lemma plain_name_segment: "plain_name w \<Longrightarrow> plain_segment w"
  by (auto simp: plain_name_def plain_segment_def plain_char_def list_all_iff)

text \<open>A name with a slash in it is several segments.\<close>

lemma cleanPath_name: "plain_segment d \<Longrightarrow> plain_name w \<Longrightarrow> cleanPath (CHR ''/'' # d @ CHR ''/'' # w) = CHR ''/'' # d @ CHR ''/'' # w"
  and cleanPath_name3: "plain_segment d \<Longrightarrow> plain_name w \<Longrightarrow> plain_segment e \<Longrightarrow>
    cleanPath (CHR ''/'' # d @ CHR ''/'' # w @ CHR ''/'' # e) = CHR ''/'' # d @ CHR ''/'' # w @ CHR ''/'' # e"
  using cleanPath_segments [of "[d, w]"] cleanPath_segments [of "[d, w, e]"]
  by (simp_all add: plain_name_segment)

section \<open>Calls of the controller\<close>

text \<open>A network that delivers every request to the controller's handlers.\<close>

definition serving ::
  "('c, 'k, 'p, 'r) crypto \<Rightarrow> int \<Rightarrow> time \<Rightarrow> ('c, 'k) auth \<Rightarrow> mem_store transport" where
  "serving L sn now au r s = apsnd Some (serve mem_iface L sn now au r s)"

definition good_path :: "string \<Rightarrow> bool" where
  "good_path p \<longleftrightarrow> p \<noteq> [] \<and> hd p = CHR ''/'' \<and> list_all (\<lambda>x. plain_char x \<or> x = CHR ''/'') p \<and> cleanPath p = p"

lemma good_paths: "good_path ''/services''" "good_path ''/jobs''" "good_path ''/nodes/register''"
  "good_path ''/nodes/heartbeat''" "good_path ''/state''"
  by code_simp+

lemma plain_names: "plain_segment ''services''" "plain_segment ''jobs''" "plain_segment ''nodes''"
  "plain_segment ''assignments''" "plain_segment ''status''"
  by code_simp+

lemma good_path_name:
  assumes "plain_name nm"
  shows "good_path (''/services/'' @ nm)" "good_path (''/jobs/'' @ nm)"
    "good_path (''/nodes/'' @ nm @ ''/assignments'')" "good_path (''/assignments/'' @ nm @ ''/status'')"
proof -
  have fixed: "plain_char c" if "c \<in> set ''servicesjobsnodesassignmentsstatus''" for c
    using that by (auto simp: plain_char_def is_ctl_def)
  have nm: "list_all (\<lambda>x. plain_char x \<or> x = CHR ''/'') nm"
    using assms by (auto simp: plain_name_def list_all_iff)
  show "good_path (''/services/'' @ nm)" "good_path (''/jobs/'' @ nm)"
    "good_path (''/nodes/'' @ nm @ ''/assignments'')" "good_path (''/assignments/'' @ nm @ ''/status'')"
    using cleanPath_name [OF plain_names(1) assms] cleanPath_name [OF plain_names(2) assms]
      cleanPath_name3 [OF plain_names(3) assms plain_names(4)]
      cleanPath_name3 [OF plain_names(4) assms plain_names(5)]
    by (simp_all add: good_path_def nm fixed)
qed

definition client_request :: "client \<Rightarrow> string \<Rightarrow> string \<Rightarrow> json option \<Rightarrow> http_request" where
  "client_request c meth path body = \<lparr>req_method = meth, req_path = path, req_authorization = [],
      req_chains = Some [[cl_cn c]], req_body = body\<rparr>"

lemma client_request_fields [simp]:
  "req_method (client_request c meth path body) = meth" "req_path (client_request c meth path body) = path"
  "req_body (client_request c meth path body) = body" "callerCN (client_request c meth path body) = cl_cn c"
  by (simp_all add: client_request_def callerCN_def)

lemma client_do_raw:
  assumes "url_path (cl_base c @ raw) = Some path" "cleanPath path = path" "payload \<noteq> Some None"
    and "dispatch mem_iface L sn now au (client_request c meth path (Option.bind payload (\<lambda>j. j))) s = (s', resp)"
    and "\<nexists>p. resp_body resp = Location p"
  shows "client_do (serving L sn now au) c meth raw payload s =
    (s', if 400 \<le> resp_status resp then Inl (ErrorStatus (resp_status resp) (resp_body resp)) else Inr resp)"
proof -
  have "client_Do n (serving L sn now au) (client_request c meth path (Option.bind payload (\<lambda>j. j))) s =
      (s', Some resp)" for n
    using assms(2,4,5) by (simp add: client_Do.simps serving_def serve_def split: resp_body.splits)
  then show ?thesis
    using assms(1,3) by (simp add: client_do_def client_request_def)
qed

lemma client_do_served:
  assumes "plain_base (cl_base c)" "good_path path" "payload \<noteq> Some None"
    and "dispatch mem_iface L sn now au (client_request c meth path (Option.bind payload (\<lambda>j. j))) s = (s', resp)"
    and "\<nexists>p. resp_body resp = Location p"
  shows "client_do (serving L sn now au) c meth path payload s =
    (s', if 400 \<le> resp_status resp then Inl (ErrorStatus (resp_status resp) (resp_body resp)) else Inr resp)"
proof (rule client_do_raw [OF _ _ assms(3-5)])
  show "url_path (cl_base c @ path) = Some path"
    using assms(1,2) by (intro url_path_plain) (auto simp: good_path_def list_all_iff)
  show "cleanPath path = path"
    using assms(2) by (simp add: good_path_def)
qed

text \<open>The service a POST stores: at least one replica, and that many desired.\<close>

definition posted_service :: "service \<Rightarrow> service" where
  "posted_service v =
     (let v1 = (if service_replicas v <=s 0 then v\<lparr>service_replicas := 1\<rparr> else v)
      in v1\<lparr>service_st := (service_st v1)\<lparr>desired_replicas := service_replicas v1\<rparr>\<rparr>)"

lemma Service_Clone_names [simp]:
  "service_name (Service_Clone v) = service_name v" "service_image (Service_Clone v) = service_image v"
  by (simp_all add: Service_Clone_def)

lemma Job_Clone_names [simp]: "job_name (Job_Clone j) = job_name j" "job_image (Job_Clone j) = job_image j"
  by (simp_all add: Job_Clone_def)

lemma UpsertService_posted: "UpsertService (posted_service (Service_Clone v)) s = UpsertService (posted_service v) s"
  by (simp add: UpsertService_def posted_service_def Let_def Service_Clone_def)

lemma ApplyService_served:
  assumes "plain_base (cl_base c)" "cl_cn c = AdminCN" "service_name v \<noteq> []" "service_image v \<noteq> []"
  shows "ApplyService (serving L sn now au) c v s = (UpsertService (posted_service v) s, Inr ())"
proof -
  let ?r = "client_request c ''POST'' ''/services'' (Some (enc_service v))"
  have "handleServices mem_iface ?r s =
      (UpsertService (posted_service v) s, writeJSON 201 (enc_service (posted_service (Service_Clone v))))"
    using assms(3,4) UpsertService_posted [of v s]
    by (simp add: handleServices_def decodeJSON_def dec_enc_service posted_service_def Let_def)
  then have "dispatch mem_iface L sn now au ?r s =
      (UpsertService (posted_service v) s, writeJSON 201 (enc_service (posted_service (Service_Clone v))))"
    using assms(2) by (simp add: dispatch_def adminOnly_def)
  with client_do_served [OF assms(1) good_paths(1), of "Some (Some (enc_service v))" L sn now au "''POST''" s]
  show ?thesis by (simp add: ApplyService_def postJSON_def discard_def writeJSON_def)
qed

lemma Client_DeleteService_raw:
  assumes "url_path (cl_base c @ ''/services/'' @ raw) = Some (''/services/'' @ nm)" "cl_cn c = AdminCN" "plain_name nm"
  shows "Client_DeleteService (serving L sn now au) c raw s = (fst (DeleteService nm s),
    if snd (DeleteService nm s) then Inr () else Inl (ErrorStatus 404 (Text ''service not found'')))"
proof -
  let ?r = "client_request c ''DELETE'' (''/services/'' @ nm) None"
  let ?resp = "if snd (DeleteService nm s) then \<lparr>resp_status = 204, resp_body = NoBody\<rparr>
      else http_Error ''service not found'' 404"
  have "nm \<noteq> []" "CHR ''/'' \<notin> set nm"
    using assms(3) by (auto simp: plain_name_def plain_char_def list_all_iff)
  then have "handleServices mem_iface ?r s = (fst (DeleteService nm s), ?resp)"
    by (simp add: handleServices_def TrimPrefix_append [of "''/services/''", simplified] Contains_char split_beta)
  then have "dispatch mem_iface L sn now au ?r s = (fst (DeleteService nm s), ?resp)"
    using assms(2) by (simp add: dispatch_def adminOnly_def HasPrefix_def Let_def)
  moreover have "cleanPath (''/services/'' @ nm) = ''/services/'' @ nm"
    using good_path_name(1) [OF assms(3)] by (simp add: good_path_def)
  ultimately show ?thesis
    using client_do_raw [OF assms(1), of None L sn now au "''DELETE''" s]
    by (simp add: Client_DeleteService_def discard_def http_Error_def)
qed

lemma Client_DeleteService_served:
  assumes "plain_base (cl_base c)" "cl_cn c = AdminCN" "plain_name nm"
  shows "Client_DeleteService (serving L sn now au) c nm s = (fst (DeleteService nm s),
    if snd (DeleteService nm s) then Inr () else Inl (ErrorStatus 404 (Text ''service not found'')))"
proof (rule Client_DeleteService_raw [OF _ assms(2,3)])
  show "url_path (cl_base c @ ''/services/'' @ nm) = Some (''/services/'' @ nm)"
    using assms(1) good_path_name(1) [OF assms(3)]
    by (intro url_path_plain) (auto simp: good_path_def list_all_iff)
qed

lemma ApplyJob_served:
  assumes "plain_base (cl_base c)" "cl_cn c = AdminCN" "job_name j \<noteq> []" "job_image j \<noteq> []" "job_encodable j"
  shows "ApplyJob (serving L sn now au) c j s = (UpsertJob j s, Inr ())"
proof -
  let ?r = "client_request c ''POST'' ''/jobs'' (Some (enc_job j))"
  have "UpsertJob (Job_Clone j) s = UpsertJob j s"
    by (simp add: UpsertJob_def)
  then have "handleJobs mem_iface ?r s = (UpsertJob j s, writeJSON 201 (enc_job (Job_Clone j)))"
    using assms(3-5) by (simp add: handleJobs_def decodeJSON_def dec_enc_job)
  then have "dispatch mem_iface L sn now au ?r s = (UpsertJob j s, writeJSON 201 (enc_job (Job_Clone j)))"
    using assms(2) by (simp add: dispatch_def adminOnly_def HasPrefix_def)
  with client_do_served [OF assms(1) good_paths(2), of "Some (Some (enc_job j))" L sn now au "''POST''" s] assms(5)
  show ?thesis by (simp add: ApplyJob_def marshal_job_def postJSON_def discard_def writeJSON_def)
qed

lemma Client_DeleteJob_served:
  assumes "plain_base (cl_base c)" "cl_cn c = AdminCN" "plain_name nm"
  shows "Client_DeleteJob (serving L sn now au) c nm s = (fst (DeleteJob nm s),
    if snd (DeleteJob nm s) then Inr () else Inl (ErrorStatus 404 (Text ''job not found'')))"
proof -
  let ?r = "client_request c ''DELETE'' (''/jobs/'' @ nm) None"
  let ?resp = "if snd (DeleteJob nm s) then \<lparr>resp_status = 204, resp_body = NoBody\<rparr>
      else http_Error ''job not found'' 404"
  have "nm \<noteq> []" "CHR ''/'' \<notin> set nm"
    using assms(3) by (auto simp: plain_name_def plain_char_def list_all_iff)
  then have "handleJobs mem_iface ?r s = (fst (DeleteJob nm s), ?resp)"
    by (simp add: handleJobs_def TrimPrefix_append [of "''/jobs/''", simplified] Contains_char split_beta)
  then have "dispatch mem_iface L sn now au ?r s = (fst (DeleteJob nm s), ?resp)"
    using assms(2) by (simp add: dispatch_def adminOnly_def HasPrefix_def Let_def)
  with client_do_served [OF assms(1) good_path_name(2) [OF assms(3)], of None L sn now au "''DELETE''" s]
  show ?thesis by (simp add: Client_DeleteJob_def discard_def http_Error_def)
qed

lemma RegisterNode_served:
  assumes "plain_base (cl_base c)" "cl_cn c = NodeCN (node_ID n)" "node_ID n \<noteq> []" "rfc3339_ok (last_heartbeat n)"
  shows "RegisterNode (serving L sn now au) c n s = (UpsertNode (n\<lparr>last_heartbeat := now\<rparr>) s, Inr ())"
proof -
  let ?r = "client_request c ''POST'' ''/nodes/register'' (Some (enc_node n))"
  let ?resp = "writeJSON 201 (enc_node ((Node_Clone n)\<lparr>last_heartbeat := now\<rparr>))"
  have "UpsertNode ((Node_Clone n)\<lparr>last_heartbeat := now\<rparr>) s = UpsertNode (n\<lparr>last_heartbeat := now\<rparr>) s"
    by (simp add: UpsertNode_def)
  then have "handleNodeRegister mem_iface now (node_ID n) ?r s = (UpsertNode (n\<lparr>last_heartbeat := now\<rparr>) s, ?resp)"
    using assms(4) by (simp add: handleNodeRegister_def decodeJSON_def dec_enc_node)
  then have "dispatch mem_iface L sn now au ?r s = (UpsertNode (n\<lparr>last_heartbeat := now\<rparr>) s, ?resp)"
    using assms(2,3) by (simp add: dispatch_def nodeOnly_def HasPrefix_def)
  with client_do_served [OF assms(1) good_paths(3), of "Some (Some (enc_node n))" L sn now au "''POST''" s] assms(4)
  show ?thesis by (simp add: RegisterNode_def marshal_node_def postJSON_def discard_def writeJSON_def)
qed

lemma dec_id: "dec_id_payload True (JObj [(''id'', JStr i)]) z = Some \<lparr>pl_id = i\<rparr>"
  by (cases z) (simp add: dec_id_payload_def dec_struct_def find_field_def)

lemma dec_status: "phase_ok p \<Longrightarrow>
  dec_status_payload True (JObj [(''phase'', JStr (phase_string p)), (''message'', JStr m)]) z =
    Some \<lparr>pl_phase = p, pl_message = m\<rparr>"
  by (cases z) (simp add: dec_status_payload_def dec_struct_def find_field_def phase_ok_def)

lemma Heartbeat_served:
  assumes "plain_base (cl_base c)" "cl_cn c = NodeCN i" "i \<noteq> []"
  shows "Heartbeat (serving L sn now au) c i s = (fst (TouchNode i now s),
    if snd (TouchNode i now s) then Inr () else Inl (ErrorStatus 404 (Text ''node not found'')))"
proof -
  let ?r = "client_request c ''POST'' ''/nodes/heartbeat'' (Some (JObj [(''id'', JStr i)]))"
  let ?resp = "if snd (TouchNode i now s) then writeJSON 200 (JObj [(''status'', JStr ''ok'')])
      else http_Error ''node not found'' 404"
  have "handleNodeHeartbeat mem_iface now i ?r s = (fst (TouchNode i now s), ?resp)"
    by (simp add: handleNodeHeartbeat_def decodeJSON_def dec_id split_beta)
  then have "dispatch mem_iface L sn now au ?r s = (fst (TouchNode i now s), ?resp)"
    using assms(2,3) by (simp add: dispatch_def nodeOnly_def HasPrefix_def)
  with client_do_served [OF assms(1) good_paths(4), of "Some (Some (JObj [(''id'', JStr i)]))" L sn now au "''POST''" s]
  show ?thesis by (simp add: Heartbeat_def postJSON_def discard_def writeJSON_def http_Error_def)
qed

text \<open>What an agent is handed: the active assignments stored on the node.\<close>

definition handed_out :: "string \<Rightarrow> mem_store \<Rightarrow> assignment list" where
  "handed_out i s = filter (\<lambda>a. IsActivePhase (asg_phase a)) (ListNodeAssignments i s)"

lemma FetchAssignments_served:
  assumes "plain_base (cl_base c)" "cl_cn c = NodeCN i" "plain_name i" "wf_store s"
    and "\<And>a. a \<in> set (handed_out i s) \<Longrightarrow> assignment_encodable a"
  shows "FetchAssignments (serving L sn now au) c i s = (s, Inr (handed_out i s))"
proof -
  let ?p = "''/nodes/'' @ i @ ''/assignments''"
  let ?r = "client_request c ''GET'' ?p None" and ?resp = "writeJSON 200 (JArr (map enc_assignment (handed_out i s)))"
  have i: "i \<noteq> []" using assms(3) by (simp add: plain_name_def)
  have "handleNodeAssignments mem_iface i ?r s = (s, ?resp)"
    using i TrimSuffix_append [of "''/nodes/'' @ i" "''/assignments''"]
      HasSuffix_append [of "''/nodes/'' @ i" "''/assignments''"] TrimPrefix_append [of "''/nodes/''" i]
    by (simp add: handleNodeAssignments_def handed_out_def)
  then have "dispatch mem_iface L sn now au ?r s = (s, ?resp)"
    using assms(2) i by (auto simp: dispatch_def nodeOnly_def HasPrefix_def Let_def)
  with client_do_served [OF assms(1) good_path_name(3) [OF assms(3)], of None L sn now au "''GET''" s]
  have do_get: "client_do (serving L sn now au) c ''GET'' ?p None s = (s, Inr ?resp)"
    by (simp add: writeJSON_def)
  have "Assignment_Clone a = a" if "a \<in> set (handed_out i s)" for a
    using that assms(4) by (auto simp: handed_out_def mem_ListNodeAssignments [OF assms(4)] wf_store_def)
  then have "dec_elems (dec_assignment False) zero_assignment (map enc_assignment (handed_out i s)) [] =
      Some (handed_out i s)"
    using assms(5) by (intro dec_elems_map) (simp add: dec_enc_assignment)
  then show ?thesis
    using do_get by (simp add: FetchAssignments_def getJSON_def writeJSON_def dec_slice_def elems_def)
qed

lemma Client_UpdateAssignmentStatus_served:
  assumes "plain_base (cl_base c)" "cl_cn c = NodeCN i" "i \<noteq> []" "plain_name k" "wf_store s"
    and "isAgentReportablePhase p" "fmlookup (m_assignments s) k = Some a" "asg_node a = i"
  shows "Client_UpdateAssignmentStatus (serving L sn now au) c k p m s =
    (fst (UpdateAssignmentStatus k p m now s), Inr ())"
proof -
  let ?p = "''/assignments/'' @ k @ ''/status''"
  let ?b = "JObj [(''phase'', JStr (phase_string p)), (''message'', JStr m)]"
  let ?r = "client_request c ''POST'' ?p (Some ?b)"
  have k: "k \<noteq> []" using assms(4) by (simp add: plain_name_def)
  have p: "phase_ok p" using assms(6) by (cases p) simp_all
  obtain b where b: "snd (UpdateAssignmentStatus k p m now s) = Some b"
    using assms(7) by (simp add: UpdateAssignmentStatus_def split_beta Let_def)
  have own: "ownsAssignment mem_iface s i k"
    using ownsAssignment_iff [OF assms(5)] assms(7,8) by blast
  have "handleAssignmentStatus mem_iface now i ?r s =
      (fst (UpdateAssignmentStatus k p m now s), writeJSON 200 (enc_assignment b))"
    using k p b own assms(6) TrimSuffix_append [of "''/assignments/'' @ k" "''/status''"]
      HasSuffix_append [of "''/assignments/'' @ k" "''/status''"] TrimPrefix_append [of "''/assignments/''" k]
    by (cases "UpdateAssignmentStatus k p m now s") (simp add: handleAssignmentStatus_def decodeJSON_def dec_status)
  then have "dispatch mem_iface L sn now au ?r s =
      (fst (UpdateAssignmentStatus k p m now s), writeJSON 200 (enc_assignment b))"
    using assms(2,3) by (simp add: dispatch_def nodeOnly_def HasPrefix_def Let_def)
  with client_do_served [OF assms(1) good_path_name(4) [OF assms(4)], of "Some (Some ?b)" L sn now au "''POST''" s]
  show ?thesis by (simp add: Client_UpdateAssignmentStatus_def postJSON_def discard_def writeJSON_def)
qed

section \<open>Properties\<close>

text \<open>
  With a plain base URL and the admin's certificate, each call of \<open>k8ctl\<close> answered by the
  controller acts on the store exactly as the store operation it is meant for, the service or
  job it sends arriving unchanged but for the defaults of the API, and reports an
  error exactly when a deletion finds nothing.
\<close>

theorem admin_calls:
  assumes "plain_base (cl_base c)" "cl_cn c = AdminCN" "plain_name nm"
    and "service_name v \<noteq> []" "service_image v \<noteq> []" "job_name j \<noteq> []" "job_image j \<noteq> []" "job_encodable j"
  shows "ApplyService (serving L sn now au) c v s = (UpsertService (posted_service v) s, Inr ()) \<and>
    ApplyJob (serving L sn now au) c j s = (UpsertJob j s, Inr ()) \<and>
    Client_DeleteService (serving L sn now au) c nm s = (fst (DeleteService nm s),
      if snd (DeleteService nm s) then Inr () else Inl (ErrorStatus 404 (Text ''service not found''))) \<and>
    Client_DeleteJob (serving L sn now au) c nm s = (fst (DeleteJob nm s),
      if snd (DeleteJob nm s) then Inr () else Inl (ErrorStatus 404 (Text ''job not found'')))"
  using ApplyService_served [OF assms(1,2,4,5)] ApplyJob_served [OF assms(1,2,6-8)]
    Client_DeleteService_served [OF assms(1-3)] Client_DeleteJob_served [OF assms(1-3)]
  by blast

text \<open>
  C21: With a plain base URL and the certificate of its node, an agent's calls answered by the
  controller register its node with the current time, touch it, return its active
  assignments and record a status on one of them, as the store operations do.
\<close>

theorem agent_calls:
  assumes "plain_base (cl_base c)" "cl_cn c = NodeCN (node_ID n)" "plain_name (node_ID n)"
    and "rfc3339_ok (last_heartbeat n)" "wf_store s"
    and "\<And>b. b \<in> set (handed_out (node_ID n) s) \<Longrightarrow> assignment_encodable b"
    and "plain_name k" "isAgentReportablePhase p" "fmlookup (m_assignments s) k = Some a" "asg_node a = node_ID n"
  shows "RegisterNode (serving L sn now au) c n s = (UpsertNode (n\<lparr>last_heartbeat := now\<rparr>) s, Inr ()) \<and>
    Heartbeat (serving L sn now au) c (node_ID n) s = (fst (TouchNode (node_ID n) now s),
      if snd (TouchNode (node_ID n) now s) then Inr () else Inl (ErrorStatus 404 (Text ''node not found''))) \<and>
    FetchAssignments (serving L sn now au) c (node_ID n) s = (s, Inr (handed_out (node_ID n) s)) \<and>
    Client_UpdateAssignmentStatus (serving L sn now au) c k p m s = (fst (UpdateAssignmentStatus k p m now s), Inr ())"
proof -
  have "node_ID n \<noteq> []" using assms(3) by (simp add: plain_name_def)
  then show ?thesis
    using RegisterNode_served [OF assms(1,2) _ assms(4)] Heartbeat_served [OF assms(1,2)]
      FetchAssignments_served [OF assms(1,2,3,5,6)]
      Client_UpdateAssignmentStatus_served [OF assms(1,2) _ assms(7,5,8-10)]
    by blast
qed

text \<open>
  The path of a deletion is the name as it is, not escaped. A service whose name contains a
  question mark is stored like any other; deleting it by that name deletes the
  service named by what precedes the question mark instead, and reports success if there is one.
\<close>

theorem delete_truncates:
  assumes "plain_base (cl_base c)" "cl_cn c = AdminCN" "plain_name nm"
    and "\<And>x. x \<in> set q \<Longrightarrow> \<not> is_ctl x \<and> x \<noteq> CHR ''#''"
    and "service_name v = nm @ CHR ''?'' # q" "service_image v \<noteq> []"
  shows "ApplyService (serving L sn now au) c v s = (UpsertService (posted_service v) s, Inr ()) \<and>
    Client_DeleteService (serving L sn now au) c (service_name v) s = (fst (DeleteService nm s),
      if snd (DeleteService nm s) then Inr () else Inl (ErrorStatus 404 (Text ''service not found'')))"
proof
  show "ApplyService (serving L sn now au) c v s = (UpsertService (posted_service v) s, Inr ())"
    using assms by (intro ApplyService_served) auto
  have "url_path (cl_base c @ (''/services/'' @ nm) @ CHR ''?'' # q) = Some (''/services/'' @ nm)"
    using assms(1,4) good_path_name(1) [OF assms(3)]
    by (intro url_path_query) (auto simp: good_path_def list_all_iff)
  then show "Client_DeleteService (serving L sn now au) c (service_name v) s = (fst (DeleteService nm s),
      if snd (DeleteService nm s) then Inr () else Inl (ErrorStatus 404 (Text ''service not found'')))"
    using assms(2,3,5) by (intro Client_DeleteService_raw) simp_all
qed

end
