(* ===== verification/Runtime.thy ===== *)
theory Runtime
  imports Api Go_Strings
begin

text \<open>
  \<open>internal/runtime\<close>: the \<open>Executor\<close> interface (\<open>runtime.go\<close>) as a record of operations and
  its contract as locales, and the simulated runtime (\<open>sim.go\<close>) that meets it. An operation
  returns the new state, the calls of reporters it makes before it returns, in
  order, and the text of an error. Goroutines an operation leaves behind are steps of their own.
\<close>

section \<open>The interface\<close>

text \<open>A \<open>Reporter\<close> is a closure of the agent; here a value of some type that names it.\<close>

type_synonym 'r report_call = "'r \<times> assignment_phase \<times> string"

record ('e, 'r) executor =
  ex_Start :: "assignment \<Rightarrow> 'r \<Rightarrow> 'e \<Rightarrow> 'e \<times> 'r report_call list \<times> string option"
  ex_Stop :: "string \<Rightarrow> 'e \<Rightarrow> 'e \<times> 'r report_call list \<times> string option"
  ex_List :: "'e \<Rightarrow> string + string list"

text \<open>
  What the agent relies on. \<open>workload e i\<close> identifies the workload the runtime holds for
  assignment \<open>i\<close>: no operation replaces one by another, starting concerns one ID and
  keeps a workload that is there, stopping removes one. \<open>bg\<close> are the runtime's own steps.
\<close>

locale executor_contract =
  fixes X :: "('e, 'r) executor"
    and bg :: "'e \<Rightarrow> 'e \<times> 'r report_call list \<Rightarrow> bool"
    and inv :: "'e \<Rightarrow> bool"
    and workload :: "'e \<Rightarrow> string \<Rightarrow> 'i option"
  assumes Start_inv: "inv e \<Longrightarrow> inv (fst (ex_Start X a r e))"
    and Start_keeps: "inv e \<Longrightarrow> workload e \<subseteq>\<^sub>m workload (fst (ex_Start X a r e))"
    and Start_only: "inv e \<Longrightarrow> i \<noteq> asg_ID a \<Longrightarrow> workload (fst (ex_Start X a r e)) i = workload e i"
    and Stop_inv: "inv e \<Longrightarrow> inv (fst (ex_Stop X i e))"
    and Stop_only: "inv e \<Longrightarrow> k \<noteq> i \<Longrightarrow> workload (fst (ex_Stop X i e)) k = workload e k"
    and Stop_removes: "inv e \<Longrightarrow> snd (snd (ex_Stop X i e)) = None \<Longrightarrow> workload (fst (ex_Stop X i e)) i = None"
    and List_held: "inv e \<Longrightarrow> ex_List X e = Inr ids \<Longrightarrow> set ids = dom (workload e)"
    and bg_inv: "inv e \<Longrightarrow> bg e (e', rs) \<Longrightarrow> inv e'"
    and bg_keeps: "inv e \<Longrightarrow> bg e (e', rs) \<Longrightarrow> workload e \<subseteq>\<^sub>m workload e'"

text \<open>A runtime that starts before it returns, never fails to list or stop, and tells the phase of what it holds.\<close>

locale prompt_executor = executor_contract +
  fixes status :: "'e \<Rightarrow> string \<Rightarrow> (assignment_phase \<times> string) option"
  assumes Start_ok: "inv e \<Longrightarrow> snd (snd (ex_Start X a r e)) = None"
    and Start_holds: "inv e \<Longrightarrow> workload (fst (ex_Start X a r e)) (asg_ID a) \<noteq> None"
    and Start_reports: "inv e \<Longrightarrow> status (fst (ex_Start X a r e)) (asg_ID a) = Some (p, m) \<Longrightarrow>
      fst (snd (ex_Start X a r e)) = [(r, p, m)]"
    and Start_status: "inv e \<Longrightarrow> workload e i \<noteq> None \<Longrightarrow> status (fst (ex_Start X a r e)) i = status e i"
    and Stop_status: "inv e \<Longrightarrow> k \<noteq> i \<Longrightarrow> status (fst (ex_Stop X i e)) k = status e k"
    and Stop_ok: "inv e \<Longrightarrow> snd (snd (ex_Stop X i e)) = None"
    and List_ok: "inv e \<Longrightarrow> \<exists>ids. ex_List X e = Inr ids"
    and status_held: "inv e \<Longrightarrow> workload e i \<noteq> None \<Longrightarrow> status e i \<noteq> None"
    and status_phase: "inv e \<Longrightarrow> status e i = Some (p, m) \<Longrightarrow> p = Running \<or> p = Succeeded \<or> p = Failed"
    and bg_workload: "inv e \<Longrightarrow> bg e (e', rs) \<Longrightarrow> workload e' = workload e"

text \<open>
  What the comments on \<open>Executor\<close> promise of \<open>Start\<close> and \<open>Stop\<close>. A runtime may start in the
  background: \<open>known e i\<close> is an assignment it has been given and not yet forgotten, \<open>shown e i\<close> its
  current phase once there is one, \<open>begun e i\<close> a known one that a step of the runtime will start,
  \<open>in_flight e i\<close> one, known or not, that a step may still create, and \<open>watched e i\<close> one whose exit the
  runtime waits for. \<open>started e i\<close> says that the process of the workload has been started, \<open>half e i\<close>
  that an earlier life of the agent has left one made but not started. \<open>settled\<close> is how such a step
  ends: with a workload whose process has been started, reported as \<open>Running\<close> unless it is found
  to have ended already, or with the report \<open>Failed\<close>.
\<close>

locale documented_executor = executor_contract X bg inv workload
  for X :: "('e, 'r) executor" and bg and inv and workload :: "'e \<Rightarrow> string \<Rightarrow> 'i option" +
  fixes known :: "'e \<Rightarrow> string \<Rightarrow> bool"
    and shown :: "'e \<Rightarrow> string \<Rightarrow> (assignment_phase \<times> string) option"
    and begun in_flight watched started half :: "'e \<Rightarrow> string \<Rightarrow> bool"
    and settled :: "'e \<Rightarrow> 'e \<Rightarrow> 'r report_call list \<Rightarrow> string \<Rightarrow> bool"
  assumes settled: "settled e e' rs i \<longleftrightarrow>
      known e' i \<and> workload e' i \<noteq> None \<and> watched e' i \<and> (started e' i \<or> half e i) \<and>
        (rs = [] \<or> (\<exists>r m. rs = [(r, Running, m)] \<and> shown e' i = Some (Running, m))) \<or>
      \<not> known e' i \<and> (\<exists>r m. rs = [(r, Failed, m)])"
    and Start_again: "inv e \<Longrightarrow> shown e (asg_ID a) = Some (p, m) \<Longrightarrow> snd (ex_Start X a r e) = ([(r, p, m)], None)"
    and Start_known: "inv e \<Longrightarrow> known e (asg_ID a) \<Longrightarrow> workload (fst (ex_Start X a r e)) = workload e \<and>
      shown (fst (ex_Start X a r e)) = shown e \<and> in_flight (fst (ex_Start X a r e)) = in_flight e"
    and Start_new: "inv e \<Longrightarrow> \<not> known e (asg_ID a) \<Longrightarrow> known (fst (ex_Start X a r e)) (asg_ID a) \<and>
      (begun (fst (ex_Start X a r e)) (asg_ID a) \<or>
       workload (fst (ex_Start X a r e)) (asg_ID a) \<noteq> None \<and> started (fst (ex_Start X a r e)) (asg_ID a) \<and>
         (\<exists>p m. shown (fst (ex_Start X a r e)) (asg_ID a) = Some (p, m) \<and> fst (snd (ex_Start X a r e)) = [(r, p, m)]))"
    and begun_runs: "inv e \<Longrightarrow> begun e i \<Longrightarrow> \<exists>e' rs. bg e (e', rs) \<and> settled e e' rs i"
    and begun_ends: "inv e \<Longrightarrow> begun e i \<Longrightarrow> bg e (e', rs) \<Longrightarrow> begun e' i \<or> settled e e' rs i"
    and Stop_forgets: "inv e \<Longrightarrow> \<not> known (fst (ex_Stop X i e)) i"
    and Stop_flight: "inv e \<Longrightarrow> in_flight (fst (ex_Stop X i e)) = in_flight e"
    and bg_idle: "inv e \<Longrightarrow> \<not> in_flight e i \<Longrightarrow> bg e (e', rs) \<Longrightarrow>
      \<not> in_flight e' i \<and> (workload e i = None \<longrightarrow> workload e' i = None)"
begin

text \<open>A workload that was stopped while no start of it was under way does not come back by itself.\<close>

lemma stopped_stays:
  assumes "inv e" "snd (snd (ex_Stop X i e)) = None" "\<not> in_flight e i"
    and "(\<lambda>e e'. \<exists>rs. bg e (e', rs))\<^sup>*\<^sup>* (fst (ex_Stop X i e)) e'"
  shows "workload e' i = None \<and> \<not> in_flight e' i \<and> inv e'"
  using assms(4)
proof (induction rule: rtranclp_induct)
  case base
  then show ?case using Stop_removes Stop_flight Stop_inv assms(1-3) by metis
next
  case (step e1 e2)
  then show ?case using bg_idle bg_inv by blast
qed

end

section \<open>SimExecutor\<close>

text \<open>
  Tasks live on a heap, as the map and the goroutines share them by pointer: a task that
  was stopped is gone from the map while its goroutine still refers to it. \<open>stopped\<close> is whether
  the channel \<open>stop\<close> is closed. \<open>sim_jobs\<close> are the goroutines inside \<open>runJob\<close>.
\<close>

record 'r sim_task =
  tk_stopped :: bool
  tk_phase :: assignment_phase
  tk_message :: string
  tk_report :: 'r

record 'r sim =
  sim_tasks :: "(string, nat) fmap"
  sim_heap :: "'r sim_task list"
  sim_jobs :: "(assignment \<times> nat) list"

definition NewSimExecutor :: "'r sim" where
  "NewSimExecutor = \<lparr>sim_tasks = fmempty, sim_heap = [], sim_jobs = []\<rparr>"

definition shouldFail :: "string list \<Rightarrow> bool" where
  "shouldFail command \<longleftrightarrow> (\<exists>part \<in> set command. Contains (ToLower part) ''fail'')"

definition sim_Start :: "assignment \<Rightarrow> 'r \<Rightarrow> 'r sim \<Rightarrow> 'r sim \<times> 'r report_call list \<times> string option" where
  "sim_Start a report s = (case fmlookup (sim_tasks s) (asg_ID a) of
     Some p \<Rightarrow>
       let task = sim_heap s ! p
       in (s\<lparr>sim_heap := (sim_heap s)[p := task\<lparr>tk_report := report\<rparr>]\<rparr>,
           [(report, tk_phase task, tk_message task)], None)
   | None \<Rightarrow>
       let p = length (sim_heap s);
           task = \<lparr>tk_stopped = False, tk_phase = Running,
             tk_message = ''simulated runtime started assignment'', tk_report = report\<rparr>
       in (\<lparr>sim_tasks = fmupd (asg_ID a) p (sim_tasks s), sim_heap = sim_heap s @ [task],
             sim_jobs = (if owner_kind a = KindJob then sim_jobs s @ [(a, p)] else sim_jobs s)\<rparr>,
           [(report, tk_phase task, tk_message task)], None))"

definition sim_Stop :: "string \<Rightarrow> 'r sim \<Rightarrow> 'r sim \<times> 'r report_call list \<times> string option" where
  "sim_Stop i s = (case fmlookup (sim_tasks s) i of
     None \<Rightarrow> (s\<lparr>sim_tasks := fmdrop i (sim_tasks s)\<rparr>, [], None)
   | Some p \<Rightarrow>
       let task = sim_heap s ! p
       in (s\<lparr>sim_tasks := fmdrop i (sim_tasks s), sim_heap := (sim_heap s)[p := task\<lparr>tk_stopped := True\<rparr>]\<rparr>,
           if IsTerminalPhase (tk_phase task) then [] else [(tk_report task, Stopped, ''stopped by agent'')],
           None))"

definition sim_List :: "'r sim \<Rightarrow> string + string list" where
  "sim_List s = Inr (sort_slice (<) (map fst (sorted_list_of_fmap (sim_tasks s))))"

definition sim_executor :: "('r sim, 'r) executor" where
  "sim_executor = \<lparr>ex_Start = sim_Start, ex_Stop = sim_Stop, ex_List = sim_List\<rparr>"

text \<open>
  \<open>runJob\<close> of the goroutine at position \<open>k\<close> once its timer has fired, and its return when the
  channel is closed. With both ready \<open>select\<close> takes either.
\<close>

definition sim_runJob :: "nat \<Rightarrow> 'r sim \<Rightarrow> 'r sim \<times> 'r report_call list" where
  "sim_runJob k s =
     (let (a, p) = sim_jobs s ! k;
          (phase, message) =
            (if shouldFail (elems (asg_command a)) then (Failed, ''simulated job failed because command contains '' @ [CHR 0x27] @ ''fail'' @ [CHR 0x27])
             else (Succeeded, ''simulated job completed''));
          task = (sim_heap s ! p)\<lparr>tk_phase := phase, tk_message := message\<rparr>
      in (s\<lparr>sim_heap := (sim_heap s)[p := task], sim_jobs := take k (sim_jobs s) @ drop (Suc k) (sim_jobs s)\<rparr>,
          [(tk_report task, phase, message)]))"

inductive sim_step :: "'r sim \<Rightarrow> 'r sim \<times> 'r report_call list \<Rightarrow> bool" where
  timer: "k < length (sim_jobs s) \<Longrightarrow> sim_step s (sim_runJob k s)"
| quit: "k < length (sim_jobs s) \<Longrightarrow> tk_stopped (sim_heap s ! snd (sim_jobs s ! k)) \<Longrightarrow>
    sim_step s (s\<lparr>sim_jobs := take k (sim_jobs s) @ drop (Suc k) (sim_jobs s)\<rparr>, [])"

inductive_cases sim_stepE: "sim_step s x"

lemma sim_ops [simp]:
  "ex_Start sim_executor = sim_Start" "ex_Stop sim_executor = sim_Stop" "ex_List sim_executor = sim_List"
  by (simp_all add: sim_executor_def)

section \<open>The simulated runtime meets the contract\<close>

definition sim_workload :: "'r sim \<Rightarrow> string \<Rightarrow> nat option" where
  "sim_workload s i = fmlookup (sim_tasks s) i"

definition sim_status :: "'r sim \<Rightarrow> string \<Rightarrow> (assignment_phase \<times> string) option" where
  "sim_status s i = map_option (\<lambda>p. (tk_phase (sim_heap s ! p), tk_message (sim_heap s ! p))) (fmlookup (sim_tasks s) i)"

fun sim_phase :: "assignment_phase \<Rightarrow> bool" where
  "sim_phase Running = True"
| "sim_phase Succeeded = True"
| "sim_phase Failed = True"
| "sim_phase _ = False"

definition sim_inv :: "'r sim \<Rightarrow> bool" where
  "sim_inv s \<longleftrightarrow>
     (\<forall>i p. fmlookup (sim_tasks s) i = Some p \<longrightarrow> p < length (sim_heap s)) \<and>
     (\<forall>i k p. fmlookup (sim_tasks s) i = Some p \<and> fmlookup (sim_tasks s) k = Some p \<longrightarrow> i = k) \<and>
     list_all (\<lambda>j. snd j < length (sim_heap s)) (sim_jobs s) \<and>
     list_all (\<lambda>t. sim_phase (tk_phase t)) (sim_heap s)"

lemma sim_inv_new: "sim_inv NewSimExecutor"
  by (simp add: sim_inv_def NewSimExecutor_def)

lemma list_all_update: "list_all P xs \<Longrightarrow> P y \<Longrightarrow> list_all P (xs[n := y])"
  using set_update_subset_insert [of xs n y] by (auto simp: list_all_iff)

lemma sim_invD:
  assumes "sim_inv s"
  shows "fmlookup (sim_tasks s) i = Some p \<Longrightarrow> p < length (sim_heap s)"
    and "fmlookup (sim_tasks s) i = Some p \<Longrightarrow> fmlookup (sim_tasks s) k = Some p \<Longrightarrow> i = k"
    and "list_all (\<lambda>j. snd j < length (sim_heap s)) (sim_jobs s)"
    and "list_all (\<lambda>t. sim_phase (tk_phase t)) (sim_heap s)"
  using assms by (auto simp: sim_inv_def)

lemma sim_inv_phase: "sim_inv s \<Longrightarrow> fmlookup (sim_tasks s) i = Some p \<Longrightarrow> sim_phase (tk_phase (sim_heap s ! p))"
  using sim_invD(1,4) by (fastforce simp: list_all_length)

text \<open>Rewriting one task of the heap.\<close>

lemma sim_inv_update:
  assumes "sim_inv s" "sim_phase (tk_phase t)"
  shows "sim_inv (s\<lparr>sim_heap := (sim_heap s)[p := t]\<rparr>)"
  using assms list_all_update by (auto simp: sim_inv_def)

lemma sim_inv_tasks:
  assumes "sim_inv s"
  shows "sim_inv (s\<lparr>sim_tasks := fmdrop i (sim_tasks s)\<rparr>)"
  using assms by (auto simp: sim_inv_def split: if_splits)

lemma sim_inv_jobs:
  assumes "sim_inv s"
  shows "sim_inv (s\<lparr>sim_jobs := take k (sim_jobs s) @ drop n (sim_jobs s)\<rparr>)"
  using assms by (auto simp: sim_inv_def list_all_iff dest: in_set_takeD in_set_dropD)

lemma sim_Start_inv:
  assumes "sim_inv s"
  shows "sim_inv (fst (sim_Start a r s))"
proof (cases "fmlookup (sim_tasks s) (asg_ID a)")
  case (Some p)
  then show ?thesis
    using sim_inv_update [OF assms] sim_inv_phase [OF assms Some] by (simp add: sim_Start_def Let_def)
next
  case None
  have old: "p < length (sim_heap s)" if "fmlookup (sim_tasks s) i = Some p" for i p
    using sim_invD(1) [OF assms that] .
  have "list_all (\<lambda>j. snd j < Suc (length (sim_heap s))) (sim_jobs s)"
    using sim_invD(3) [OF assms] by (auto simp: list_all_iff less_Suc_eq)
  with None assms old show ?thesis
    by (auto simp: sim_Start_def Let_def sim_inv_def split: if_splits) (use old in fastforce)+
qed

lemma sim_Stop_inv:
  assumes "sim_inv s"
  shows "sim_inv (fst (sim_Stop i s))"
proof (cases "fmlookup (sim_tasks s) i")
  case (Some p)
  with sim_inv_update [OF sim_inv_tasks [OF assms, of i], where p = p and t = "(sim_heap s ! p)\<lparr>tk_stopped := True\<rparr>"]
    sim_inv_phase [OF assms Some]
  show ?thesis by (simp add: sim_Stop_def Let_def)
next
  case None
  with sim_inv_tasks [OF assms, of i] show ?thesis by (simp add: sim_Stop_def)
qed

lemma sim_runJob_inv:
  assumes "sim_inv s"
  shows "sim_inv (fst (sim_runJob k s))"
proof -
  obtain a p where j: "sim_jobs s ! k = (a, p)" by (cases "sim_jobs s ! k")
  have "sim_inv (s\<lparr>sim_heap := (sim_heap s)[p := t]\<rparr>)" if "sim_phase (tk_phase t)" for t
    using sim_inv_update [OF assms that] .
  from sim_inv_jobs [OF this, where k = k and n = "Suc k"] show ?thesis
    by (simp add: sim_runJob_def Let_def j)
qed

lemma sim_step_inv: "sim_step s (s', rs) \<Longrightarrow> sim_inv s \<Longrightarrow> sim_inv s'"
  by (erule sim_stepE) (metis fst_conv sim_runJob_inv, simp add: sim_inv_jobs)

lemma sim_step_workload: "sim_step s (s', rs) \<Longrightarrow> sim_workload s' = sim_workload s"
  by (auto elim!: sim_stepE simp: sim_runJob_def Let_def sim_workload_def split: prod.splits)

lemma sim_List_ids: "sim_List s = Inr ids \<Longrightarrow> set ids = dom (sim_workload s)"
  by (auto simp: sim_List_def map_fst_sorted_list_of_fmap sim_workload_def fmlookup_dom_iff)

lemma sim_Start_workload: "sim_workload (fst (sim_Start a r s)) i =
    (if i = asg_ID a \<and> fmlookup (sim_tasks s) i = None then Some (length (sim_heap s)) else sim_workload s i)"
  by (auto simp: sim_Start_def sim_workload_def Let_def split: option.splits)

lemma sim_Stop_workload: "sim_workload (fst (sim_Stop k s)) i = (if i = k then None else sim_workload s i)"
  by (auto simp: sim_Stop_def sim_workload_def Let_def split: option.splits)

lemma sim_Start_result: "sim_inv s \<Longrightarrow> sim_status (fst (sim_Start a r s)) (asg_ID a) = Some (p, m) \<Longrightarrow>
    snd (sim_Start a r s) = ([(r, p, m)], None)"
  by (auto simp: sim_Start_def sim_status_def Let_def dest: sim_invD(1) split: option.splits)

lemma sim_Start_status:
  assumes "sim_inv s" "sim_workload s i \<noteq> None"
  shows "sim_status (fst (sim_Start a r s)) i = sim_status s i"
proof -
  obtain q where q: "fmlookup (sim_tasks s) i = Some q" using assms(2) by (auto simp: sim_workload_def)
  then show ?thesis
    using sim_invD(1) [OF assms(1)]
    by (auto simp: sim_Start_def sim_status_def Let_def nth_list_update nth_append split: option.splits)
qed

lemma sim_Stop_status:
  assumes "sim_inv s" "k \<noteq> i"
  shows "sim_status (fst (sim_Stop i s)) k = sim_status s k"
proof (cases "fmlookup (sim_tasks s) i")
  case (Some p)
  have "p \<noteq> q" if "fmlookup (sim_tasks s) k = Some q" for q
    using sim_invD(2) [OF assms(1)] Some that assms(2) by blast
  with Some assms(2) show ?thesis
    by (cases "fmlookup (sim_tasks s) k") (simp_all add: sim_Stop_def sim_status_def Let_def)
qed (use assms(2) in \<open>simp add: sim_Stop_def sim_status_def\<close>)

lemma sim_status_phase: "sim_inv s \<Longrightarrow> sim_status s i = Some (p, m) \<Longrightarrow> p = Running \<or> p = Succeeded \<or> p = Failed"
  using sim_inv_phase [of s i] by (auto simp: sim_status_def elim!: sim_phase.elims)

interpretation sim: prompt_executor sim_executor sim_step sim_inv sim_workload sim_status
proof unfold_locales
  fix e :: "'r sim" and a r i k ids e' rs p m
  assume inv: "sim_inv e"
  show "sim_inv (fst (ex_Start sim_executor a r e))" "sim_inv (fst (ex_Stop sim_executor i e))"
    using inv by (simp_all add: sim_Start_inv sim_Stop_inv)
  show "sim_workload e \<subseteq>\<^sub>m sim_workload (fst (ex_Start sim_executor a r e))"
    by (simp add: map_le_def dom_def sim_Start_workload) (simp add: sim_workload_def)
  show "i \<noteq> asg_ID a \<Longrightarrow> sim_workload (fst (ex_Start sim_executor a r e)) i = sim_workload e i"
    by (simp add: sim_Start_workload)
  show "k \<noteq> i \<Longrightarrow> sim_workload (fst (ex_Stop sim_executor i e)) k = sim_workload e k"
    "sim_workload (fst (ex_Stop sim_executor i e)) i = None"
    by (simp_all add: sim_Stop_workload)
  show "ex_List sim_executor e = Inr ids \<Longrightarrow> set ids = dom (sim_workload e)"
    by (simp add: sim_List_ids)
  show "sim_step e (e', rs) \<Longrightarrow> sim_inv e'"
    using inv by (rule sim_step_inv [rotated])
  show step: "sim_step e (e', rs) \<Longrightarrow> sim_workload e' = sim_workload e"
    by (rule sim_step_workload)
  show "sim_step e (e', rs) \<Longrightarrow> sim_workload e \<subseteq>\<^sub>m sim_workload e'"
    using step by simp
  show "snd (snd (ex_Start sim_executor a r e)) = None" "snd (snd (ex_Stop sim_executor i e)) = None"
    by (simp_all add: sim_Start_def sim_Stop_def Let_def split: option.splits)
  show "sim_workload (fst (ex_Start sim_executor a r e)) (asg_ID a) \<noteq> None"
    by (simp add: sim_Start_workload) (simp add: sim_workload_def)
  show "sim_status (fst (ex_Start sim_executor a r e)) (asg_ID a) = Some (p, m) \<Longrightarrow>
      fst (snd (ex_Start sim_executor a r e)) = [(r, p, m)]"
    using sim_Start_result [OF inv] by simp
  show "sim_workload e i \<noteq> None \<Longrightarrow> sim_status (fst (ex_Start sim_executor a r e)) i = sim_status e i"
    using sim_Start_status [OF inv] by simp
  show "k \<noteq> i \<Longrightarrow> sim_status (fst (ex_Stop sim_executor i e)) k = sim_status e k"
    using sim_Stop_status [OF inv] by simp
  show "\<exists>ids. ex_List sim_executor e = Inr ids" by (simp add: sim_List_def)
  show "sim_workload e i \<noteq> None \<Longrightarrow> sim_status e i \<noteq> None"
    by (simp add: sim_workload_def sim_status_def)
  show "sim_status e i = Some (p, m) \<Longrightarrow> p = Running \<or> p = Succeeded \<or> p = Failed"
    using sim_status_phase [OF inv] .
qed

text \<open>It also keeps what the interface documents; no start is ever left to a goroutine.\<close>

definition sim_settled :: "'r sim \<Rightarrow> 'r sim \<Rightarrow> 'r report_call list \<Rightarrow> string \<Rightarrow> bool" where
  "sim_settled s s' rs i \<longleftrightarrow> sim_workload s' i = None \<and> (\<exists>r m. rs = [(r, Failed, m)])"

interpretation sim_doc: documented_executor sim_executor sim_step sim_inv sim_workload
  "\<lambda>s i. sim_workload s i \<noteq> None" sim_status "\<lambda>s i. False" "\<lambda>s i. False" "\<lambda>s i. False"
  "\<lambda>s i. sim_workload s i \<noteq> None" "\<lambda>s i. False" sim_settled
proof unfold_locales
  fix e e' :: "'r sim" and a r i rs p m
  assume inv: "sim_inv e"
  show "sim_status e (asg_ID a) = Some (p, m) \<Longrightarrow> snd (ex_Start sim_executor a r e) = ([(r, p, m)], None)"
    by (auto simp: sim_Start_def sim_status_def Let_def)
  show "sim_workload e (asg_ID a) \<noteq> None \<Longrightarrow> sim_workload (fst (ex_Start sim_executor a r e)) = sim_workload e \<and>
      sim_status (fst (ex_Start sim_executor a r e)) = sim_status e \<and> (\<lambda>i. False) = (\<lambda>i. False)"
    using sim_invD(1) [OF inv]
    by (auto simp: fun_eq_iff sim_Start_workload sim_workload_def sim_Start_def sim_status_def Let_def nth_list_update intro!: option.map_cong0)
  show "\<not> sim_workload e (asg_ID a) \<noteq> None \<Longrightarrow>
      sim_workload (fst (ex_Start sim_executor a r e)) (asg_ID a) \<noteq> None \<and>
      (False \<or> sim_workload (fst (ex_Start sim_executor a r e)) (asg_ID a) \<noteq> None \<and>
        sim_workload (fst (ex_Start sim_executor a r e)) (asg_ID a) \<noteq> None \<and>
        (\<exists>p m. sim_status (fst (ex_Start sim_executor a r e)) (asg_ID a) = Some (p, m) \<and>
          fst (snd (ex_Start sim_executor a r e)) = [(r, p, m)]))"
    by (auto simp: sim_workload_def sim_Start_def sim_status_def Let_def)
  show "\<not> sim_workload (fst (ex_Stop sim_executor i e)) i \<noteq> None" by (simp add: sim_Stop_workload)
  show "sim_step e (e', rs) \<Longrightarrow> \<not> False \<and> (sim_workload e i = None \<longrightarrow> sim_workload e' i = None)"
    by (simp add: sim_step_workload)
qed (simp_all add: sim_settled_def)

end
