(* ===== verification/Agent.thy ===== *)
theory Agent
  imports Client Runtime
begin

text \<open>
  \<open>internal/agent\<close>: the agent of a node (\<open>agent.go\<close>) and its synchronisation (\<open>sync.go\<close>), over
  any runtime and any network. The lemmas on what a synchronisation does to the runtime are
  proved once from the runtime's contract.
\<close>

section \<open>State\<close>

text \<open>
  \<open>tracked\<close> is the keys of the map of that name. A reporter is the closure \<open>reporter(id)\<close> of
  some agent process: the number of the process and the ID. \<open>machine\<close> puts the agent process next to
  the node's runtime and the world its network reaches.
\<close>

type_synonym reporter = "nat \<times> string"

record agent =
  ag_self :: nat
  ag_node :: node
  ag_client :: client
  tracked :: "string fset"

record ('e, 'w) machine =
  the_agent :: agent
  the_exec :: 'e
  the_world :: 'w

definition New_Agent :: "nat \<Rightarrow> node \<Rightarrow> client \<Rightarrow> agent" where
  "New_Agent self n c = \<lparr>ag_self = self, ag_node = n, ag_client = c, tracked = {||}\<rparr>"

definition track :: "string \<Rightarrow> agent \<Rightarrow> agent \<times> bool" where
  "track i ag = (if i |\<in>| tracked ag then (ag, False) else (ag\<lparr>tracked := finsert i (tracked ag)\<rparr>, True))"

definition untrack :: "string \<Rightarrow> agent \<Rightarrow> agent" where
  "untrack i ag = ag\<lparr>tracked := tracked ag |-| {|i|}\<rparr>"

section \<open>sync.go\<close>

text \<open>
  A call of a reporter tells the controller and forgets the assignment if it has finished. A
  reporter of an earlier process of the agent still tells the controller, but forgets it in the
  map of that process. A failure to tell is only logged.
\<close>

definition call_reporter :: "'w transport \<Rightarrow> reporter report_call \<Rightarrow> agent \<times> 'w \<Rightarrow> agent \<times> 'w" where
  "call_reporter send rc aw =
     (let ((self, i), phase, message) = rc;
          (ag, w) = aw;
          w1 = fst (Client_UpdateAssignmentStatus send (ag_client ag) i phase message w)
      in (if IsTerminalPhase phase \<and> self = ag_self ag then untrack i ag else ag, w1))"

definition call_reporters :: "'w transport \<Rightarrow> reporter report_call list \<Rightarrow> agent \<times> 'w \<Rightarrow> agent \<times> 'w" where
  "call_reporters send rs aw = fold (call_reporter send) rs aw"

text \<open>An operation of the runtime, with the reporters it calls.\<close>

definition executor_call ::
  "'w transport \<Rightarrow> ('e \<Rightarrow> 'e \<times> reporter report_call list \<times> string option) \<Rightarrow>
     ('e, 'w) machine \<Rightarrow> ('e, 'w) machine \<times> string option" where
  "executor_call send f m =
     (let (e1, rs, err) = f (the_exec m);
          (ag1, w1) = call_reporters send rs (the_agent m, the_world m)
      in (\<lparr>the_agent = ag1, the_exec = e1, the_world = w1\<rparr>, err))"

definition desired_assignments :: "assignment list \<Rightarrow> (string, assignment) fmap" where
  "desired_assignments as =
     fold (\<lambda>a d. if IsActivePhase (asg_phase a) then fmupd (asg_ID a) a d else d) as fmempty"

text \<open>The two loops: stopping what is not desired, and starting what is and is not tracked.\<close>

definition stop_one ::
  "('e, reporter) executor \<Rightarrow> 'w transport \<Rightarrow> (string, assignment) fmap \<Rightarrow> string \<Rightarrow>
     ('e, 'w) machine \<Rightarrow> ('e, 'w) machine" where
  "stop_one X send desired i m =
     (if fmlookup desired i \<noteq> None then m
      else case executor_call send (ex_Stop X i) m of
        (m1, Some err) \<Rightarrow> m1
      | (m1, None) \<Rightarrow> m1\<lparr>the_agent := untrack i (the_agent m1)\<rparr>)"

definition start_one ::
  "('e, reporter) executor \<Rightarrow> 'w transport \<Rightarrow> assignment \<Rightarrow> ('e, 'w) machine \<Rightarrow> ('e, 'w) machine" where
  "start_one X send a m = (case track (asg_ID a) (the_agent m) of
     (ag, False) \<Rightarrow> m
   | (ag, True) \<Rightarrow>
       (case executor_call send (ex_Start X a (ag_self ag, asg_ID a)) (m\<lparr>the_agent := ag\<rparr>) of
          (m1, None) \<Rightarrow> m1
        | (m1, Some err) \<Rightarrow>
            let ag1 = untrack (asg_ID a) (the_agent m1);
                w1 = fst (Client_UpdateAssignmentStatus send (ag_client ag1) (asg_ID a) Failed err (the_world m1))
            in m1\<lparr>the_agent := ag1, the_world := w1\<rparr>))"

datatype sync_error = FetchFailed client_error | ListFailed string

text \<open>
  \<open>syncAssignments\<close>. Go visits the map \<open>desired\<close> in any order: \<open>order\<close> arranges its entries.
\<close>

definition syncAssignments ::
  "('e, reporter) executor \<Rightarrow> 'w transport \<Rightarrow> (assignment list \<Rightarrow> assignment list) \<Rightarrow>
     ('e, 'w) machine \<Rightarrow> ('e, 'w) machine \<times> sync_error option" where
  "syncAssignments X send order m =
     (let ag = the_agent m in
      case FetchAssignments send (ag_client ag) (node_ID (ag_node ag)) (the_world m) of
        (w1, Inl err) \<Rightarrow> (m\<lparr>the_world := w1\<rparr>, Some (FetchFailed err))
      | (w1, Inr assignments) \<Rightarrow>
          let m1 = m\<lparr>the_world := w1\<rparr>; desired = desired_assignments assignments in
          (case ex_List X (the_exec m1) of
             Inl err \<Rightarrow> (m1, Some (ListFailed err))
           | Inr existing \<Rightarrow>
               let m2 = fold (stop_one X send desired) existing m1
               in (fold (start_one X send) (order (fm_values desired)) m2, None)))"

section \<open>agent.go\<close>

text \<open>
  \<open>Run\<close>: registration, a first synchronisation, then one action per tick of the two tickers; the
  errors of the loop are only logged. When its context ends \<open>Run\<close> returns and touches nothing.
\<close>

definition Run_start ::
  "('e, reporter) executor \<Rightarrow> 'w transport \<Rightarrow> (assignment list \<Rightarrow> assignment list) \<Rightarrow>
     ('e, 'w) machine \<Rightarrow> ('e, 'w) machine \<times> client_error option" where
  "Run_start X send order m =
     (let ag = the_agent m in
      case RegisterNode send (ag_client ag) (ag_node ag) (the_world m) of
        (w1, Inl err) \<Rightarrow> (m\<lparr>the_world := w1\<rparr>, Some err)
      | (w1, Inr _) \<Rightarrow> (fst (syncAssignments X send order (m\<lparr>the_world := w1\<rparr>)), None))"

datatype tick = HeartbeatTick | PollTick

fun Run_tick ::
  "('e, reporter) executor \<Rightarrow> 'w transport \<Rightarrow> (assignment list \<Rightarrow> assignment list) \<Rightarrow> tick \<Rightarrow>
     ('e, 'w) machine \<Rightarrow> ('e, 'w) machine" where
  "Run_tick X send order HeartbeatTick m =
     m\<lparr>the_world := fst (Heartbeat send (ag_client (the_agent m)) (node_ID (ag_node (the_agent m))) (the_world m))\<rparr>"
| "Run_tick X send order PollTick m = fst (syncAssignments X send order m)"

section \<open>Lemmas\<close>

definition map_order :: "('a list \<Rightarrow> 'a list) \<Rightarrow> bool" where
  "map_order order \<longleftrightarrow> (\<forall>xs. mset (order xs) = mset xs)"

lemma map_order_set [simp]: "map_order order \<Longrightarrow> set (order xs) = set xs"
  unfolding map_order_def by (metis set_mset_mset)

lemma untrack_simps [simp]:
  "ag_self (untrack i ag) = ag_self ag" "ag_node (untrack i ag) = ag_node ag" "ag_client (untrack i ag) = ag_client ag"
  "tracked (untrack i ag) = tracked ag |-| {|i|}"
  by (simp_all add: untrack_def)

text \<open>The same agent, tracking no more than before.\<close>

definition same_agent :: "agent \<Rightarrow> agent \<Rightarrow> bool" where
  "same_agent ag ag' \<longleftrightarrow> ag_self ag' = ag_self ag \<and> ag_node ag' = ag_node ag \<and> ag_client ag' = ag_client ag"

definition forgets :: "agent \<Rightarrow> agent \<Rightarrow> bool" where
  "forgets ag ag' \<longleftrightarrow> same_agent ag ag' \<and> fset (tracked ag') \<subseteq> fset (tracked ag)"

lemma same_agent_refl [simp]: "same_agent ag ag"
  by (simp add: same_agent_def)

lemma same_agent_trans: "same_agent a b \<Longrightarrow> same_agent b c \<Longrightarrow> same_agent a c"
  by (simp add: same_agent_def)

lemma forgets_refl [simp]: "forgets ag ag"
  by (simp add: forgets_def)

lemma forgets_trans: "forgets a b \<Longrightarrow> forgets b c \<Longrightarrow> forgets a c"
  by (auto simp: forgets_def intro: same_agent_trans)

lemma forgets_untrack: "forgets a b \<Longrightarrow> forgets a (untrack i b)"
  by (auto simp: forgets_def same_agent_def)

lemma call_reporters_agent: "forgets (fst aw) (fst (call_reporters send rs aw))"
proof (induction rs arbitrary: aw)
  case Nil
  then show ?case by (simp add: call_reporters_def)
next
  case (Cons r rs)
  have "forgets (fst aw) (fst (call_reporter send r aw))"
    by (auto simp: call_reporter_def Let_def forgets_untrack split: prod.split)
  with Cons.IH [of "call_reporter send r aw"] show ?case
    by (auto simp: call_reporters_def intro: forgets_trans)
qed

lemma executor_call_parts:
  assumes "executor_call send f m = (m', err)"
  shows "the_exec m' = fst (f (the_exec m))" "err = snd (snd (f (the_exec m)))"
    "forgets (the_agent m) (the_agent m')"
    "(the_agent m', the_world m') = call_reporters send (fst (snd (f (the_exec m)))) (the_agent m, the_world m)"
  using assms call_reporters_agent [of "(the_agent m, the_world m)" send "fst (snd (f (the_exec m)))"]
  by (auto simp: executor_call_def Let_def split: prod.splits)

lemma desired_lookup:
  "fmlookup (desired_assignments as) i =
    map_of (rev (map (\<lambda>a. (asg_ID a, a)) (filter (\<lambda>a. IsActivePhase (asg_phase a)) as))) i"
proof -
  have "fmlookup (fold (\<lambda>a d. if IsActivePhase (asg_phase a) then fmupd (asg_ID a) a d else d) as d) i =
      (case map_of (rev (map (\<lambda>a. (asg_ID a, a)) (filter (\<lambda>a. IsActivePhase (asg_phase a)) as))) i of
         Some a \<Rightarrow> Some a | None \<Rightarrow> fmlookup d i)" for d
    by (induction as arbitrary: d) (auto simp: map_add_def split: option.splits)
  then show ?thesis by (simp add: desired_assignments_def split: option.split)
qed

lemma desired_Some: "fmlookup (desired_assignments as) i = Some a \<Longrightarrow> a \<in> set as \<and> asg_ID a = i \<and> active a"
  by (auto simp: desired_lookup dest: map_of_SomeD)

lemma desired_dom: "fmlookup (desired_assignments as) i \<noteq> None \<longleftrightarrow> (\<exists>a \<in> set as. asg_ID a = i \<and> active a)"
  by (force simp: desired_lookup map_of_eq_None_iff image_iff)

lemma desired_values: "set (fm_values (desired_assignments as)) = {a. \<exists>i. fmlookup (desired_assignments as) i = Some a}"
  by (simp add: set_fm_values)

lemma desired_values_IDs:
  "asg_ID ` set (fm_values (desired_assignments as)) = {i. fmlookup (desired_assignments as) i \<noteq> None}" (is "?L = ?R")
proof (intro equalityI subsetI)
  fix i
  assume "i \<in> ?R"
  then obtain a where "fmlookup (desired_assignments as) i = Some a" by blast
  then show "i \<in> ?L" using desired_Some [of as i a] by (force simp: desired_values)
next
  fix i
  assume "i \<in> ?L"
  then show "i \<in> ?R" by (auto simp: desired_values dest: desired_Some)
qed

section \<open>Any runtime\<close>

locale node_runtime = executor_contract X bg inv workload
  for X :: "('e, reporter) executor" and bg inv workload

context node_runtime
begin

lemma stop_one_effect:
  assumes "inv (the_exec m)"
  shows "inv (the_exec (stop_one X send d i m)) \<and> forgets (the_agent m) (the_agent (stop_one X send d i m)) \<and>
    (\<forall>k. k \<noteq> i \<or> fmlookup d k \<noteq> None \<longrightarrow> workload (the_exec (stop_one X send d i m)) k = workload (the_exec m) k)"
proof (cases "fmlookup d i")
  case (Some a)
  with assms show ?thesis by (simp add: stop_one_def)
next
  case None
  obtain m1 err where c: "executor_call send (ex_Stop X i) m = (m1, err)" by fastforce
  then have "stop_one X send d i m = m1 \<or> stop_one X send d i m = m1\<lparr>the_agent := untrack i (the_agent m1)\<rparr>"
    using None by (auto simp: stop_one_def split: option.split)
  then show ?thesis
    using executor_call_parts [OF c] Stop_inv [OF assms] Stop_only [OF assms] None
    by (auto simp: forgets_untrack)
qed

lemma stops_effect:
  assumes "inv (the_exec m)"
  shows "inv (the_exec (fold (stop_one X send d) ids m)) \<and>
    forgets (the_agent m) (the_agent (fold (stop_one X send d) ids m)) \<and>
    (\<forall>k. fmlookup d k \<noteq> None \<longrightarrow> workload (the_exec (fold (stop_one X send d) ids m)) k = workload (the_exec m) k)"
  using assms
proof (induction ids arbitrary: m)
  case Nil
  then show ?case by simp
next
  case (Cons i ids)
  from stop_one_effect [OF Cons.prems, of send d i] Cons.IH [of "stop_one X send d i m"]
  show ?case by (auto intro: forgets_trans)
qed

lemma start_one_effect:
  assumes "inv (the_exec m)"
  shows "inv (the_exec (start_one X send a m)) \<and> same_agent (the_agent m) (the_agent (start_one X send a m)) \<and>
    fset (tracked (the_agent (start_one X send a m))) \<subseteq> insert (asg_ID a) (fset (tracked (the_agent m))) \<and>
    workload (the_exec m) \<subseteq>\<^sub>m workload (the_exec (start_one X send a m)) \<and>
    (\<forall>k. k \<noteq> asg_ID a \<longrightarrow> workload (the_exec (start_one X send a m)) k = workload (the_exec m) k)"
proof (cases "asg_ID a |\<in>| tracked (the_agent m)")
  case True
  with assms show ?thesis by (auto simp: start_one_def track_def)
next
  case False
  let ?ag = "(the_agent m)\<lparr>tracked := finsert (asg_ID a) (tracked (the_agent m))\<rparr>"
  obtain m1 err where c: "executor_call send (ex_Start X a (ag_self ?ag, asg_ID a)) (m\<lparr>the_agent := ?ag\<rparr>) = (m1, err)"
    by fastforce
  have m': "the_exec (start_one X send a m) = the_exec m1" "forgets (the_agent m1) (the_agent (start_one X send a m))"
    using c False by (auto simp: start_one_def track_def Let_def forgets_untrack split: option.split)
  have e: "the_exec m1 = fst (ex_Start X a (ag_self ?ag, asg_ID a) (the_exec m))" "forgets ?ag (the_agent m1)"
    using executor_call_parts [OF c] by simp_all
  from forgets_trans [OF e(2) m'(2)] show ?thesis
    unfolding m' e(1) using Start_inv [OF assms] Start_keeps [OF assms] Start_only [OF assms]
    by (auto simp: forgets_def same_agent_def)
qed

lemma starts_effect:
  assumes "inv (the_exec m)"
  shows "inv (the_exec (fold (start_one X send) as m)) \<and>
    same_agent (the_agent m) (the_agent (fold (start_one X send) as m)) \<and>
    fset (tracked (the_agent (fold (start_one X send) as m))) \<subseteq> asg_ID ` set as \<union> fset (tracked (the_agent m)) \<and>
    workload (the_exec m) \<subseteq>\<^sub>m workload (the_exec (fold (start_one X send) as m)) \<and>
    (\<forall>k. k \<notin> asg_ID ` set as \<longrightarrow> workload (the_exec (fold (start_one X send) as m)) k = workload (the_exec m) k)"
  using assms
proof (induction as arbitrary: m)
  case Nil
  then show ?case by simp
next
  case (Cons a as)
  from start_one_effect [OF Cons.prems, of send a] Cons.IH [of "start_one X send a m"]
  show ?case by (auto intro: same_agent_trans map_le_trans)
qed

text \<open>A synchronisation that gets through, taken apart.\<close>

lemma sync_parts:
  assumes "FetchAssignments send (ag_client (the_agent m)) (node_ID (ag_node (the_agent m))) (the_world m) = (w1, Inr as)"
    and "ex_List X (the_exec m) = Inr ids"
  shows "syncAssignments X send order m = (fold (start_one X send) (order (fm_values (desired_assignments as)))
    (fold (stop_one X send (desired_assignments as)) ids (m\<lparr>the_world := w1\<rparr>)), None)"
  using assms by (simp add: syncAssignments_def Let_def)

lemma sync_keeps:
  assumes "inv (the_exec m)"
    and "FetchAssignments send (ag_client (the_agent m)) (node_ID (ag_node (the_agent m))) (the_world m) = (w1, Inr as)"
    and "a \<in> set as" "active a" "workload (the_exec m) (asg_ID a) = Some x"
  shows "workload (the_exec (fst (syncAssignments X send order m))) (asg_ID a) = Some x"
proof (cases "ex_List X (the_exec m)")
  case (Inl err)
  with assms(2,5) show ?thesis by (simp add: syncAssignments_def Let_def)
next
  case (Inr ids)
  let ?d = "desired_assignments as"
  let ?m2 = "fold (stop_one X send ?d) ids (m\<lparr>the_world := w1\<rparr>)"
  have "fmlookup ?d (asg_ID a) \<noteq> None"
    using assms(3,4) desired_dom by blast
  then have "workload (the_exec ?m2) (asg_ID a) = Some x" "inv (the_exec ?m2)"
    using stops_effect [of "m\<lparr>the_world := w1\<rparr>" send ?d ids] assms(1,5) by simp_all
  then show ?thesis
    using starts_effect [of ?m2 send "order (fm_values ?d)"] sync_parts [OF assms(2) Inr, of order]
    by (auto simp: map_le_def dom_def)
qed

lemma sync_inv:
  assumes "inv (the_exec m)"
  shows "inv (the_exec (fst (syncAssignments X send order m))) \<and>
    same_agent (the_agent m) (the_agent (fst (syncAssignments X send order m)))"
proof -
  have "inv (the_exec (fold (start_one X send) bs (fold (stop_one X send d) ids (m\<lparr>the_world := w1\<rparr>)))) \<and>
      same_agent (the_agent m) (the_agent (fold (start_one X send) bs (fold (stop_one X send d) ids (m\<lparr>the_world := w1\<rparr>))))"
    for bs d ids w1
    using stops_effect [of "m\<lparr>the_world := w1\<rparr>" send d ids] starts_effect [of "fold (stop_one X send d) ids (m\<lparr>the_world := w1\<rparr>)" send bs]
      assms by (auto simp: forgets_def intro: same_agent_trans)
  with assms show ?thesis by (auto simp: syncAssignments_def Let_def split: sum.split prod.split)
qed

end

section \<open>A prompt runtime\<close>

text \<open>The agent tracks only what the runtime holds.\<close>

definition attached :: "('e \<Rightarrow> bool) \<Rightarrow> ('e \<Rightarrow> string \<Rightarrow> 'i option) \<Rightarrow> ('e, 'w) machine \<Rightarrow> bool" where
  "attached ok held m \<longleftrightarrow> ok (the_exec m) \<and> fset (tracked (the_agent m)) \<subseteq> dom (held (the_exec m))"

lemma attached_world [simp]: "attached ok held (m\<lparr>the_world := w\<rparr>) = attached ok held m"
  by (simp add: attached_def)

locale prompt_runtime = node_runtime X bg inv workload + prompt_executor X bg inv workload status
  for X :: "('e, reporter) executor" and bg inv workload status

context prompt_runtime
begin

lemma stop_one_prompt:
  assumes "attached inv workload m"
  shows "attached inv workload (stop_one X send d i m)"
    and "fmlookup d i = None \<Longrightarrow> workload (the_exec (stop_one X send d i m)) i = None"
proof -
  have inv: "inv (the_exec m)" using assms by (simp add: attached_def)
  have "attached inv workload (stop_one X send d i m) \<and>
    (fmlookup d i = None \<longrightarrow> workload (the_exec (stop_one X send d i m)) i = None)"
  proof (cases "fmlookup d i")
    case (Some a)
    with assms show ?thesis by (simp add: stop_one_def)
  next
    case None
    obtain m1 err where c: "executor_call send (ex_Stop X i) m = (m1, err)" by fastforce
    from executor_call_parts [OF c] Stop_ok [OF inv]
    have m1: "err = None" "the_exec m1 = fst (ex_Stop X i (the_exec m))" "forgets (the_agent m) (the_agent m1)"
      by simp_all
    have gone: "workload (the_exec m1) i = None" "\<And>k. k \<noteq> i \<Longrightarrow> workload (the_exec m1) k = workload (the_exec m) k"
      unfolding m1(2) using Stop_removes [OF inv] Stop_ok [OF inv] Stop_only [OF inv] by auto
    have "k \<in> dom (workload (the_exec m1))" if "k |\<in>| tracked (the_agent m1)" "k \<noteq> i" for k
      using that m1(3) assms gone(2) by (auto simp: attached_def forgets_def)
    then show ?thesis
      using c None m1 gone(1) Stop_inv [OF inv] by (auto simp: stop_one_def attached_def)
  qed
  then show "attached inv workload (stop_one X send d i m)"
    "fmlookup d i = None \<Longrightarrow> workload (the_exec (stop_one X send d i m)) i = None" by auto
qed

lemma stops_prompt:
  assumes "attached inv workload m"
  shows "attached inv workload (fold (stop_one X send d) ids m)"
    and "dom (workload (the_exec m)) - dom (fmlookup d) \<subseteq> set ids \<Longrightarrow>
      dom (workload (the_exec (fold (stop_one X send d) ids m))) \<subseteq> dom (fmlookup d)"
proof -
  show "attached inv workload (fold (stop_one X send d) ids m)"
    using assms by (induction ids arbitrary: m) (simp_all add: stop_one_prompt)
  show "dom (workload (the_exec m)) - dom (fmlookup d) \<subseteq> set ids \<Longrightarrow>
      dom (workload (the_exec (fold (stop_one X send d) ids m))) \<subseteq> dom (fmlookup d)"
    using assms
  proof (induction ids arbitrary: m)
    case Nil
    then show ?case by auto
  next
    case (Cons i ids)
    have "dom (workload (the_exec (stop_one X send d i m))) - dom (fmlookup d) \<subseteq> set ids"
    proof
      fix k
      assume k: "k \<in> dom (workload (the_exec (stop_one X send d i m))) - dom (fmlookup d)"
      then have "k \<noteq> i" using stop_one_prompt(2) [OF Cons.prems(2), of d i send] by auto
      then have "k \<in> dom (workload (the_exec m))"
        using k stop_one_effect [of m send d i] Cons.prems(2) by (auto simp: attached_def)
      with k \<open>k \<noteq> i\<close> Cons.prems(1) show "k \<in> set ids" by auto
    qed
    with Cons.IH stop_one_prompt(1) [OF Cons.prems(2)] show ?case by simp
  qed
qed

lemma start_one_prompt:
  assumes "attached inv workload m"
  shows "attached inv workload (start_one X send a m)" and "workload (the_exec (start_one X send a m)) (asg_ID a) \<noteq> None"
proof -
  have inv: "inv (the_exec m)" using assms by (simp add: attached_def)
  have held: "workload (the_exec (start_one X send a m)) (asg_ID a) \<noteq> None"
  proof (cases "asg_ID a |\<in>| tracked (the_agent m)")
    case True
    with assms show ?thesis by (auto simp: start_one_def track_def attached_def)
  next
    case False
    let ?ag = "(the_agent m)\<lparr>tracked := finsert (asg_ID a) (tracked (the_agent m))\<rparr>"
    obtain m1 err where c: "executor_call send (ex_Start X a (ag_self ?ag, asg_ID a)) (m\<lparr>the_agent := ?ag\<rparr>) = (m1, err)"
      by fastforce
    then have "the_exec (start_one X send a m) = the_exec m1"
      using False by (auto simp: start_one_def track_def Let_def split: option.split)
    with executor_call_parts(1) [OF c] Start_holds [OF inv] show ?thesis by simp
  qed
  then show "workload (the_exec (start_one X send a m)) (asg_ID a) \<noteq> None" .
  have "dom (workload (the_exec m)) \<subseteq> dom (workload (the_exec (start_one X send a m)))"
    using start_one_effect [OF inv, of send a] map_le_implies_dom_le by blast
  moreover have "asg_ID a \<in> dom (workload (the_exec (start_one X send a m)))" using held by blast
  ultimately have "insert (asg_ID a) (fset (tracked (the_agent m))) \<subseteq> dom (workload (the_exec (start_one X send a m)))"
    using assms unfolding attached_def by blast
  with start_one_effect [OF inv, of send a] show "attached inv workload (start_one X send a m)"
    unfolding attached_def by blast
qed

lemma starts_prompt:
  assumes "attached inv workload m"
  shows "attached inv workload (fold (start_one X send) as m)"
    and "dom (workload (the_exec (fold (start_one X send) as m))) = dom (workload (the_exec m)) \<union> asg_ID ` set as"
proof -
  show "attached inv workload (fold (start_one X send) as m)"
    using assms by (induction as arbitrary: m) (simp_all add: start_one_prompt)
  show "dom (workload (the_exec (fold (start_one X send) as m))) = dom (workload (the_exec m)) \<union> asg_ID ` set as"
    using assms
  proof (induction as arbitrary: m)
    case Nil
    then show ?case by simp
  next
    case (Cons a as)
    have "dom (workload (the_exec (start_one X send a m))) = insert (asg_ID a) (dom (workload (the_exec m)))"
      using start_one_prompt(2) [OF Cons.prems, of send a] start_one_effect [of m send a] Cons.prems
      by (auto simp: attached_def dom_def) metis+
    with Cons.IH [OF start_one_prompt(1) [OF Cons.prems]] show ?case by auto
  qed
qed

lemma sync_attached:
  assumes "attached inv workload m"
  shows "attached inv workload (fst (syncAssignments X send order m))"
proof -
  have "attached inv workload (fold (start_one X send) bs (fold (stop_one X send d) ids (m\<lparr>the_world := w1\<rparr>)))" for bs d ids w1
    using assms by (intro stops_prompt(1) starts_prompt(1)) simp
  with assms show ?thesis
    by (auto simp: syncAssignments_def Let_def split: sum.split prod.split)
qed

text \<open>After a synchronisation that reached the controller the runtime holds what was handed out.\<close>

lemma sync_exact:
  assumes "attached inv workload m" "map_order order"
    and "FetchAssignments send (ag_client (the_agent m)) (node_ID (ag_node (the_agent m))) (the_world m) = (w1, Inr as)"
  shows "snd (syncAssignments X send order m) = None \<and>
    dom (workload (the_exec (fst (syncAssignments X send order m)))) = asg_ID ` {a \<in> set as. active a}"
proof -
  let ?d = "desired_assignments as" and ?m1 = "m\<lparr>the_world := w1\<rparr>"
  have inv: "inv (the_exec m)" using assms(1) by (simp add: attached_def)
  obtain ids where ids: "ex_List X (the_exec m) = Inr ids" using List_ok [OF inv] by blast
  let ?m2 = "fold (stop_one X send ?d) ids ?m1"
  have "dom (workload (the_exec ?m2)) \<subseteq> dom (fmlookup ?d)"
    using List_held [OF inv ids] assms(1) by (intro stops_prompt(2)) auto
  moreover have "asg_ID ` set (order (fm_values ?d)) = dom (fmlookup ?d)"
    using desired_values_IDs [of as] assms(2) by (auto simp: dom_def)
  ultimately have "dom (workload (the_exec (fold (start_one X send) (order (fm_values ?d)) ?m2))) = dom (fmlookup ?d)"
    using starts_prompt(2) [of ?m2 send "order (fm_values ?d)"] stops_prompt(1) [of ?m1 send ?d ids] assms(1) by auto
  moreover have "dom (fmlookup ?d) = asg_ID ` {a \<in> set as. active a}"
    using desired_dom [of as] by (force simp: dom_def)
  ultimately show ?thesis
    using sync_parts [OF assms(3) ids, of order] by simp
qed

lemma background_attached:
  assumes "attached inv workload m" "bg (the_exec m) (e', rs)"
    and "call_reporters send rs (the_agent m, the_world m) = (ag', w')"
  shows "attached inv workload \<lparr>the_agent = ag', the_exec = e', the_world = w'\<rparr>"
  using assms bg_inv [of "the_exec m"] bg_workload [of "the_exec m"]
    call_reporters_agent [of "(the_agent m, the_world m)" send rs]
  by (auto simp: attached_def forgets_def)

end

text \<open>
  What may happen on a node: the agent runs over whatever network there is, the runtime's
  goroutines report, the agent's process is replaced by a new one, and the world changes.
\<close>

inductive node_step ::
  "('e, reporter) executor \<Rightarrow> ('e \<Rightarrow> 'e \<times> reporter report_call list \<Rightarrow> bool) \<Rightarrow>
     ('e, 'w) machine \<Rightarrow> ('e, 'w) machine \<Rightarrow> bool" for X bg where
  start: "node_step X bg m (fst (Run_start X send order m))"
| tick: "node_step X bg m (Run_tick X send order t m)"
| background: "bg (the_exec m) (e', rs) \<Longrightarrow> call_reporters send rs (the_agent m, the_world m) = (ag', w') \<Longrightarrow>
    node_step X bg m \<lparr>the_agent = ag', the_exec = e', the_world = w'\<rparr>"
| restart: "node_step X bg m (m\<lparr>the_agent := New_Agent self (ag_node (the_agent m)) (ag_client (the_agent m))\<rparr>)"
| elsewhere: "node_step X bg m (m\<lparr>the_world := w\<rparr>)"

abbreviation node_steps where "node_steps X bg \<equiv> (node_step X bg)\<^sup>*\<^sup>*"

context prompt_runtime
begin

lemma node_step_attached: "node_step X bg m m' \<Longrightarrow> attached inv workload m \<Longrightarrow> attached inv workload m'"
proof (induction rule: node_step.induct)
  case (start m send order)
  then have "attached inv workload (fst (syncAssignments X send order (m\<lparr>the_world := w\<rparr>)))" for w
    by (intro sync_attached) simp
  with start show ?case by (auto simp: Run_start_def Let_def split: sum.split prod.split)
next
  case (tick m send order t)
  then show ?case by (cases t) (simp_all add: sync_attached)
next
  case (background m e' rs send ag' w')
  from background_attached [OF background(3,1,2)] show ?case .
next
  case (restart m self)
  then show ?case by (simp add: attached_def New_Agent_def)
next
  case (elsewhere m w)
  then show ?case by simp
qed

lemma node_steps_attached: "node_steps X bg m m' \<Longrightarrow> attached inv workload m \<Longrightarrow> attached inv workload m'"
  by (induction rule: rtranclp_induct) (auto dest: node_step_attached)

end

interpretation sim_node: prompt_runtime sim_executor sim_step sim_inv sim_workload sim_status
  by unfold_locales

section \<open>Properties of a node\<close>

definition booted :: "nat \<Rightarrow> node \<Rightarrow> client \<Rightarrow> 'w \<Rightarrow> (reporter sim, 'w) machine" where
  "booted self n c w = \<lparr>the_agent = New_Agent self n c, the_exec = NewSimExecutor, the_world = w\<rparr>"

lemma booted_attached: "attached sim_inv sim_workload (booted self n c w)"
  by (simp add: attached_def booted_def New_Agent_def sim_inv_new)

text \<open>
  C22: However the node got where it is, with lost requests, restarts of the agent and jobs
  ending at any time, a synchronisation that gets an answer from the controller leaves the
  simulated runtime holding exactly the active assignments of that answer.
\<close>

theorem sync_converges:
  assumes "node_steps sim_executor sim_step (booted self n c w) m" and "map_order order"
    and "FetchAssignments send (ag_client (the_agent m)) (node_ID (ag_node (the_agent m))) (the_world m) = (w1, Inr as)"
  shows "snd (syncAssignments sim_executor send order m) = None \<and>
    dom (sim_workload (the_exec (fst (syncAssignments sim_executor send order m)))) = asg_ID ` {a \<in> set as. active a}"
  using sim_node.sync_exact [OF sim_node.node_steps_attached [OF assms(1) booted_attached] assms(2,3)] .

text \<open>
  C23: Workloads outlive the agent. Whatever the agent tracks, nothing after a restart
  included, the start of a new agent process that gets an answer keeps every workload of the
  answer's active assignments as it is: the very task is re-attached to, not a second one created.
\<close>

theorem restart_keeps_workloads:
  assumes "sim_inv (the_exec m)" "the_agent m = New_Agent self n c"
    and "RegisterNode send c n (the_world m) = (w1, Inr ())"
    and "FetchAssignments send c (node_ID n) w1 = (w2, Inr as)"
    and "a \<in> set as" "active a" "sim_workload (the_exec m) (asg_ID a) = Some task"
  shows "sim_workload (the_exec (fst (Run_start sim_executor send order m))) (asg_ID a) = Some task"
  using sim_node.sync_keeps [of "m\<lparr>the_world := w1\<rparr>" send w2 as a task order] assms
  by (simp add: Run_start_def New_Agent_def)

end
