(* ===== verification/Agent_Reports.thy ===== *)
theory Agent_Reports
  imports Agent
begin

text \<open>
  The agent with the simulated runtime against the controller's own API: what a
  synchronisation makes the controller know. An assignment the agent did not track is
  reported in the phase its workload has; one it tracks is not reported again.
\<close>

section \<open>The whole node\<close>

definition connected :: "agent \<Rightarrow> bool" where
  "connected ag \<longleftrightarrow> plain_base (cl_base (ag_client ag)) \<and> plain_name (node_ID (ag_node ag)) \<and>
     cl_cn (ag_client ag) = NodeCN (node_ID (ag_node ag))"

text \<open>Assignments of a node that survive being sent to it.\<close>

definition shippable :: "string \<Rightarrow> mem_store \<Rightarrow> bool" where
  "shippable i s \<longleftrightarrow> wf_store s \<and>
     (\<forall>k a. fmlookup (m_assignments s) k = Some a \<and> asg_node a = i \<longrightarrow> plain_name k \<and> assignment_encodable a)"

text \<open>Every task reports under the ID it was started for, and that ID is plain.\<close>

definition addressed :: "reporter sim \<Rightarrow> bool" where
  "addressed s \<longleftrightarrow> (\<forall>i p. fmlookup (sim_tasks s) i = Some p \<longrightarrow> plain_name i \<and> snd (tk_report (sim_heap s ! p)) = i)"

definition node_ready :: "(reporter sim, mem_store) machine \<Rightarrow> bool" where
  "node_ready m \<longleftrightarrow> sim_inv (the_exec m) \<and> addressed (the_exec m) \<and> connected (the_agent m) \<and>
     shippable (node_ID (ag_node (the_agent m))) (the_world m)"

section \<open>One report\<close>

lemma Client_UpdateAssignmentStatus_any:
  assumes "connected ag" "plain_name k" "wf_store s" "phase_ok p"
  shows "fst (Client_UpdateAssignmentStatus (serving L sn now au) (ag_client ag) k p msg s) =
    (if isAgentReportablePhase p \<and> (\<exists>a. fmlookup (m_assignments s) k = Some a \<and> asg_node a = node_ID (ag_node ag))
     then fst (UpdateAssignmentStatus k p msg now s) else s)"
proof (cases "isAgentReportablePhase p \<and> (\<exists>a. fmlookup (m_assignments s) k = Some a \<and> asg_node a = node_ID (ag_node ag))")
  case True
  then obtain a where a: "isAgentReportablePhase p" "fmlookup (m_assignments s) k = Some a" "asg_node a = node_ID (ag_node ag)"
    by blast
  have ag: "plain_base (cl_base (ag_client ag))" "cl_cn (ag_client ag) = NodeCN (node_ID (ag_node ag))" "node_ID (ag_node ag) \<noteq> []"
    using assms(1) by (simp_all add: connected_def plain_name_def)
  from a show ?thesis by (simp add: Client_UpdateAssignmentStatus_served [OF ag assms(2,3) a])
next
  case False
  let ?c = "ag_client ag" and ?i = "node_ID (ag_node ag)"
  let ?p = "''/assignments/'' @ k @ ''/status''"
  let ?b = "JObj [(''phase'', JStr (phase_string p)), (''message'', JStr msg)]"
  let ?r = "client_request ?c ''POST'' ?p (Some ?b)"
  have k: "k \<noteq> []" and i: "?i \<noteq> []" "cl_cn ?c = NodeCN ?i" and base: "plain_base (cl_base ?c)"
    using assms by (simp_all add: connected_def plain_name_def)
  have own: "\<not> (isAgentReportablePhase p \<and> ownsAssignment mem_iface s ?i k)"
    using False ownsAssignment_iff [OF assms(3)] by blast
  define resp where "resp = (if \<not> isAgentReportablePhase p
      then http_Error ''agents may report Running, Succeeded, Failed or Stopped'' 400
      else http_Error ''assignment not found on this node'' 404)"
  have "handleAssignmentStatus mem_iface now ?i ?r s = (s, resp)"
    using k own assms(4) TrimSuffix_append [of "''/assignments/'' @ k" "''/status''"]
      HasSuffix_append [of "''/assignments/'' @ k" "''/status''"] TrimPrefix_append [of "''/assignments/''" k]
    by (simp add: handleAssignmentStatus_def decodeJSON_def dec_status resp_def)
  then have "dispatch mem_iface L sn now au ?r s = (s, resp)"
    using i by (simp add: dispatch_def nodeOnly_def HasPrefix_def Let_def)
  with client_do_served [OF base good_path_name(4) [OF assms(2)], of "Some (Some ?b)" L sn now au "''POST''" s] False
  show ?thesis
    by (auto simp: Client_UpdateAssignmentStatus_def postJSON_def discard_def resp_def http_Error_def split: if_splits)
qed

text \<open>A report concerns its own assignment only.\<close>

lemma one_report:
  assumes "connected ag" "plain_name k" "shippable (node_ID (ag_node ag)) s" "phase_ok p" "rfc3339_ok now"
    and "s' = fst (Client_UpdateAssignmentStatus (serving L sn now au) (ag_client ag) k p msg s)"
  shows "shippable (node_ID (ag_node ag)) s'"
    and "j \<noteq> k \<Longrightarrow> fmlookup (m_assignments s') j = fmlookup (m_assignments s) j"
    and "fmlookup (m_assignments s) k = Some a \<Longrightarrow> asg_node a = node_ID (ag_node ag) \<Longrightarrow> isAgentReportablePhase p \<Longrightarrow>
      fmlookup (m_assignments s') k = Some (fst (applyStatus p msg now a))"
proof -
  have wf: "wf_store s" using assms(3) by (simp add: shippable_def)
  note s' = assms(6) [unfolded Client_UpdateAssignmentStatus_any [OF assms(1,2) wf assms(4)]]
  have "assignment_encodable (fst (applyStatus p msg now a))" if "assignment_encodable a" for a
    using that assms(4,5) by (auto simp: assignment_encodable_def applyStatus_def Let_def phase_ok_def)
  then show "shippable (node_ID (ag_node ag)) s'"
    using assms(3) unfolding s' shippable_def
    by (auto simp: m_assignments_status wf_UpdateAssignmentStatus applyStatus_fields split: if_splits)
  show "j \<noteq> k \<Longrightarrow> fmlookup (m_assignments s') j = fmlookup (m_assignments s) j"
    unfolding s' by (simp add: m_assignments_status)
  show "fmlookup (m_assignments s) k = Some a \<Longrightarrow> asg_node a = node_ID (ag_node ag) \<Longrightarrow> isAgentReportablePhase p \<Longrightarrow>
      fmlookup (m_assignments s') k = Some (fst (applyStatus p msg now a))"
    unfolding s' by (simp add: m_assignments_status)
qed

section \<open>The loops of a synchronisation\<close>

lemma connected_same: "same_agent ag ag' \<Longrightarrow> connected ag \<Longrightarrow> connected ag'"
  by (simp add: connected_def same_agent_def)

lemma call_no_reporters [simp]: "call_reporters send [] aw = aw"
  by (simp add: call_reporters_def)

lemma sim_phase_reportable: "p = Running \<or> p = Succeeded \<or> p = Failed \<Longrightarrow> isAgentReportablePhase p \<and> phase_ok p"
  by auto

lemma addressed_Start: "sim_inv s \<Longrightarrow> addressed s \<Longrightarrow> plain_name (asg_ID a) \<Longrightarrow> snd r = asg_ID a \<Longrightarrow>
    addressed (fst (sim_Start a r s))"
  using sim_invD(1,2) [of s]
  by (auto simp: addressed_def sim_Start_def Let_def nth_list_update nth_append split: option.splits if_splits)

lemma addressed_Stop: "sim_inv s \<Longrightarrow> addressed s \<Longrightarrow> addressed (fst (sim_Stop i s))"
  using sim_invD(1,2) [of s]
  by (auto simp: addressed_def sim_Stop_def Let_def nth_list_update split: option.splits if_splits)

text \<open>Stopping an assignment that is not wanted any more leaves the others' records and tracking alone.\<close>

lemma stop_one_reports:
  assumes "node_ready m" "rfc3339_ok now" "m' = stop_one sim_executor (serving L sn now au) d i m"
  shows "node_ready m'" and "same_agent (the_agent m) (the_agent m')"
    and "fmlookup d k \<noteq> None \<Longrightarrow> fmlookup (m_assignments (the_world m')) k = fmlookup (m_assignments (the_world m)) k"
    and "fmlookup d k \<noteq> None \<Longrightarrow> k |\<in>| tracked (the_agent m') \<longleftrightarrow> k |\<in>| tracked (the_agent m)"
proof -
  let ?send = "serving L sn now au" and ?ag = "the_agent m" and ?e = "the_exec m" and ?w = "the_world m"
  have ready: "sim_inv ?e" "addressed ?e" "connected ?ag" "shippable (node_ID (ag_node ?ag)) ?w"
    using assms(1) by (simp_all add: node_ready_def)
  have e': "sim_inv (fst (sim_Stop i ?e))" "addressed (fst (sim_Stop i ?e))"
    using sim_Stop_inv addressed_Stop ready by auto
  have "node_ready m' \<and> same_agent ?ag (the_agent m') \<and>
    (fmlookup d k \<noteq> None \<longrightarrow> fmlookup (m_assignments (the_world m')) k = fmlookup (m_assignments ?w) k) \<and>
    (fmlookup d k \<noteq> None \<longrightarrow> (k |\<in>| tracked (the_agent m') \<longleftrightarrow> k |\<in>| tracked ?ag))"
  proof (cases "fmlookup d i")
    case (Some b)
    with assms show ?thesis by (simp add: stop_one_def)
  next
    case None
    show ?thesis
    proof (cases "fst (snd (sim_Stop i ?e))")
      case Nil
      have "executor_call ?send (ex_Stop sim_executor i) m = (m\<lparr>the_exec := fst (sim_Stop i ?e)\<rparr>, None)"
        using Nil sim.Stop_ok [OF ready(1), of i]
        by (cases "sim_Stop i ?e") (simp add: executor_call_def)
      then have m': "m' = m\<lparr>the_exec := fst (sim_Stop i ?e), the_agent := untrack i ?ag\<rparr>"
        using None assms(3) by (simp add: stop_one_def)
      show ?thesis
        using ready e' None connected_same [of ?ag "untrack i ?ag"]
        by (auto simp: m' node_ready_def same_agent_def connected_def)
    next
      case (Cons r rs)
      then obtain p where p: "fmlookup (sim_tasks ?e) i = Some p" "rs = []"
          "r = (tk_report (sim_heap ?e ! p), Stopped, ''stopped by agent'')"
        by (auto simp: sim_Stop_def Let_def split: option.splits if_splits)
      then have pl: "plain_name i" and "snd (fst r) = i"
        using ready(2) by (simp_all add: addressed_def)
      then obtain self where r: "r = ((self, i), Stopped, ''stopped by agent'')"
        using p(3) by (cases "tk_report (sim_heap ?e ! p)") simp
      let ?w' = "fst (Client_UpdateAssignmentStatus ?send (ag_client ?ag) i Stopped ''stopped by agent'' ?w)"
      have w': "shippable (node_ID (ag_node ?ag)) ?w'" "k \<noteq> i \<Longrightarrow> fmlookup (m_assignments ?w') k = fmlookup (m_assignments ?w) k"
        using one_report(1,2) [OF ready(3) pl ready(4) _ assms(2) refl, of Stopped] by simp_all
      obtain ag1 where ag1: "call_reporters ?send [r] (?ag, ?w) = (ag1, ?w')" "ag1 = ?ag \<or> ag1 = untrack i ?ag"
        by (auto simp: r call_reporters_def call_reporter_def Let_def)
      then have "executor_call ?send (ex_Stop sim_executor i) m =
          (\<lparr>the_agent = ag1, the_exec = fst (sim_Stop i ?e), the_world = ?w'\<rparr>, None)"
        using Cons p(2) sim.Stop_ok [OF ready(1), of i]
        by (cases "sim_Stop i ?e") (simp add: executor_call_def)
      then have m': "m' = \<lparr>the_agent = untrack i ag1, the_exec = fst (sim_Stop i ?e), the_world = ?w'\<rparr>"
        using None assms(3) by (simp add: stop_one_def)
      have "same_agent ?ag (untrack i ag1)" "tracked (untrack i ag1) = tracked ?ag |-| {|i|}"
        using ag1(2) by (auto simp: same_agent_def)
      moreover from this have "connected (untrack i ag1)" "ag_node (untrack i ag1) = ag_node ?ag"
        using connected_same [OF _ ready(3)] by (simp_all only: same_agent_def)
      moreover have "k \<noteq> i" if "fmlookup d k \<noteq> None" using that None by blast
      ultimately show ?thesis
        using e' w' unfolding m' by (simp only: node_ready_def machine.simps) fastforce
    qed
  qed
  then show "node_ready m'" and "same_agent (the_agent m) (the_agent m')"
    and "fmlookup d k \<noteq> None \<Longrightarrow> fmlookup (m_assignments (the_world m')) k = fmlookup (m_assignments (the_world m)) k"
    and "fmlookup d k \<noteq> None \<Longrightarrow> k |\<in>| tracked (the_agent m') \<longleftrightarrow> k |\<in>| tracked (the_agent m)"
    by auto
qed

text \<open>Starting an assignment reports it and leaves the others alone.\<close>

lemma start_one_reports:
  assumes "node_ready m" "rfc3339_ok now" "plain_name (asg_ID a)" "m' = start_one sim_executor (serving L sn now au) a m"
  shows "node_ready m'" and "same_agent (the_agent m) (the_agent m')"
    and "k \<noteq> asg_ID a \<Longrightarrow> fmlookup (m_assignments (the_world m')) k = fmlookup (m_assignments (the_world m)) k \<and>
      (k |\<in>| tracked (the_agent m') \<longleftrightarrow> k |\<in>| tracked (the_agent m))"
    and "asg_ID a |\<notin>| tracked (the_agent m) \<Longrightarrow> fmlookup (m_assignments (the_world m)) (asg_ID a) = Some b \<Longrightarrow>
      asg_node b = node_ID (ag_node (the_agent m)) \<Longrightarrow>
      \<exists>p msg. sim_status (the_exec m') (asg_ID a) = Some (p, msg) \<and> isAgentReportablePhase p \<and>
        fmlookup (m_assignments (the_world m')) (asg_ID a) = Some (fst (applyStatus p msg now b))"
proof -
  let ?send = "serving L sn now au" and ?ag = "the_agent m" and ?e = "the_exec m" and ?w = "the_world m" and ?i = "asg_ID a"
  have ready: "sim_inv ?e" "addressed ?e" "connected ?ag" "shippable (node_ID (ag_node ?ag)) ?w"
    using assms(1) by (simp_all add: node_ready_def)
  have "node_ready m' \<and> same_agent ?ag (the_agent m') \<and>
    (k \<noteq> ?i \<longrightarrow> fmlookup (m_assignments (the_world m')) k = fmlookup (m_assignments ?w) k \<and>
      (k |\<in>| tracked (the_agent m') \<longleftrightarrow> k |\<in>| tracked ?ag)) \<and>
    (?i |\<notin>| tracked ?ag \<longrightarrow> fmlookup (m_assignments ?w) ?i = Some b \<longrightarrow> asg_node b = node_ID (ag_node ?ag) \<longrightarrow>
      (\<exists>p msg. sim_status (the_exec m') ?i = Some (p, msg) \<and> isAgentReportablePhase p \<and>
        fmlookup (m_assignments (the_world m')) ?i = Some (fst (applyStatus p msg now b))))"
  proof (cases "?i |\<in>| tracked ?ag")
    case True
    with assms show ?thesis by (simp add: start_one_def track_def)
  next
    case False
    let ?agt = "?ag\<lparr>tracked := finsert ?i (tracked ?ag)\<rparr>"
    let ?r = "(ag_self ?agt, ?i)"
    let ?e' = "fst (sim_Start a ?r ?e)"
    have e': "sim_inv ?e'" "addressed ?e'"
      using sim_Start_inv ready(1) addressed_Start [OF ready(1,2) assms(3), of ?r] by simp_all
    have "sim_status ?e' ?i \<noteq> None"
      using sim.status_held [OF e'(1)] sim.Start_holds [OF ready(1), of a ?r] by simp
    then obtain p msg where st: "sim_status ?e' ?i = Some (p, msg)" by auto
    have p: "isAgentReportablePhase p" "phase_ok p"
      using sim_phase_reportable [OF sim_status_phase [OF e'(1) st]] by simp_all
    have run: "sim_Start a ?r ?e = (?e', [(?r, p, msg)], None)"
      using sim_Start_result [OF ready(1) st] by (metis prod.collapse)
    let ?w' = "fst (Client_UpdateAssignmentStatus ?send (ag_client ?ag) ?i p msg ?w)"
    have w': "shippable (node_ID (ag_node ?ag)) ?w'"
      "k \<noteq> ?i \<longrightarrow> fmlookup (m_assignments ?w') k = fmlookup (m_assignments ?w) k"
      "fmlookup (m_assignments ?w) ?i = Some b \<longrightarrow> asg_node b = node_ID (ag_node ?ag) \<longrightarrow>
        fmlookup (m_assignments ?w') ?i = Some (fst (applyStatus p msg now b))"
      using one_report [OF ready(3) assms(3) ready(4) p(2) assms(2) refl] p(1) by blast+
    obtain ag1 where ag1: "call_reporters ?send [(?r, p, msg)] (?agt, ?w) = (ag1, ?w')" "ag1 = ?agt \<or> ag1 = untrack ?i ?agt"
      by (auto simp: call_reporters_def call_reporter_def Let_def)
    then have "executor_call ?send (ex_Start sim_executor a ?r) (m\<lparr>the_agent := ?agt\<rparr>) =
        (\<lparr>the_agent = ag1, the_exec = ?e', the_world = ?w'\<rparr>, None)"
      using run by (cases "sim_Start a ?r ?e") (simp add: executor_call_def)
    then have m': "m' = \<lparr>the_agent = ag1, the_exec = ?e', the_world = ?w'\<rparr>"
      using False assms(4) by (simp add: start_one_def track_def)
    have ag: "same_agent ?ag ag1" "k \<noteq> ?i \<longrightarrow> (k |\<in>| tracked ag1 \<longleftrightarrow> k |\<in>| tracked ?ag)"
      using ag1(2) by (auto simp: same_agent_def)
    then have "connected ag1" "ag_node ag1 = ag_node ?ag"
      using connected_same [OF _ ready(3)] by (simp_all only: same_agent_def)
    with ag e' w' st p(1) show ?thesis
      unfolding m' by (simp only: node_ready_def machine.simps) blast
  qed
  then show "node_ready m'" and "same_agent (the_agent m) (the_agent m')"
    and "k \<noteq> asg_ID a \<Longrightarrow> fmlookup (m_assignments (the_world m')) k = fmlookup (m_assignments (the_world m)) k \<and>
      (k |\<in>| tracked (the_agent m') \<longleftrightarrow> k |\<in>| tracked (the_agent m))"
    and "asg_ID a |\<notin>| tracked (the_agent m) \<Longrightarrow> fmlookup (m_assignments (the_world m)) (asg_ID a) = Some b \<Longrightarrow>
      asg_node b = node_ID (ag_node (the_agent m)) \<Longrightarrow>
      \<exists>p msg. sim_status (the_exec m') (asg_ID a) = Some (p, msg) \<and> isAgentReportablePhase p \<and>
        fmlookup (m_assignments (the_world m')) (asg_ID a) = Some (fst (applyStatus p msg now b))"
    by blast+
qed

lemma stops_reports:
  assumes "node_ready m" "rfc3339_ok now" "m' = fold (stop_one sim_executor (serving L sn now au) d) ids m"
  shows "node_ready m' \<and> same_agent (the_agent m) (the_agent m') \<and>
    (\<forall>k. fmlookup d k \<noteq> None \<longrightarrow> fmlookup (m_assignments (the_world m')) k = fmlookup (m_assignments (the_world m)) k \<and>
      (k |\<in>| tracked (the_agent m') \<longleftrightarrow> k |\<in>| tracked (the_agent m)))"
  using assms(1,3)
proof (induction ids arbitrary: m)
  case Nil
  then show ?case by simp
next
  case (Cons i ids)
  note one = stop_one_reports [where L = L and sn = sn and au = au and d = d and i = i, OF Cons.prems(1) assms(2) refl]
  have "m' = fold (stop_one sim_executor (serving L sn now au) d) ids (stop_one sim_executor (serving L sn now au) d i m)"
    using Cons.prems(2) by simp
  note rest = Cons.IH [OF one(1) this]
  show ?case
  proof (intro conjI allI impI)
    show "node_ready m'" "same_agent (the_agent m) (the_agent m')"
      using rest same_agent_trans [OF one(2)] by blast+
    fix k
    assume k: "fmlookup d k \<noteq> None"
    show "fmlookup (m_assignments (the_world m')) k = fmlookup (m_assignments (the_world m)) k"
      "k |\<in>| tracked (the_agent m') \<longleftrightarrow> k |\<in>| tracked (the_agent m)"
      using rest one(3,4) [OF k] k by simp_all
  qed
qed

text \<open>A task keeps its status while other tasks are started.\<close>

lemma start_one_status:
  assumes "sim_inv (the_exec m)" "sim_workload (the_exec m) i \<noteq> None"
  shows "sim_status (the_exec (start_one sim_executor send a m)) i = sim_status (the_exec m) i \<and>
    sim_workload (the_exec (start_one sim_executor send a m)) i \<noteq> None \<and>
    sim_inv (the_exec (start_one sim_executor send a m))"
proof (cases "asg_ID a |\<in>| tracked (the_agent m)")
  case True
  with assms show ?thesis by (simp add: start_one_def track_def)
next
  case False
  let ?agt = "(the_agent m)\<lparr>tracked := finsert (asg_ID a) (tracked (the_agent m))\<rparr>"
  obtain m1 err where c: "executor_call send (ex_Start sim_executor a (ag_self ?agt, asg_ID a)) (m\<lparr>the_agent := ?agt\<rparr>) = (m1, err)"
    by fastforce
  then have "the_exec (start_one sim_executor send a m) = the_exec m1"
    using False by (auto simp: start_one_def track_def Let_def split: option.split)
  then have e: "the_exec (start_one sim_executor send a m) = fst (sim_Start a (ag_self ?agt, asg_ID a) (the_exec m))"
    using executor_call_parts(1) [OF c] by simp
  show ?thesis
    unfolding e using assms sim_Start_status [OF assms] sim_Start_inv [OF assms(1)]
    by (auto simp: sim_Start_workload)
qed

lemma starts_status:
  assumes "sim_inv (the_exec m)" "sim_workload (the_exec m) i \<noteq> None"
  shows "sim_status (the_exec (fold (start_one sim_executor send) as m)) i = sim_status (the_exec m) i"
  using assms
proof (induction as arbitrary: m)
  case Nil
  then show ?case by simp
next
  case (Cons a as)
  from start_one_status [OF Cons.prems, of send a] Cons.IH [of "start_one sim_executor send a m"]
  show ?case by simp
qed

lemma starts_reports:
  assumes "node_ready m" "rfc3339_ok now" "\<And>a. a \<in> set as \<Longrightarrow> plain_name (asg_ID a)"
    and "m' = fold (start_one sim_executor (serving L sn now au)) as m"
  shows "node_ready m' \<and> same_agent (the_agent m) (the_agent m') \<and>
    (\<forall>k. k \<notin> asg_ID ` set as \<or> k |\<in>| tracked (the_agent m) \<longrightarrow>
      fmlookup (m_assignments (the_world m')) k = fmlookup (m_assignments (the_world m)) k \<and>
      (k |\<in>| tracked (the_agent m') \<longleftrightarrow> k |\<in>| tracked (the_agent m)))"
  using assms(1,3,4)
proof (induction as arbitrary: m)
  case Nil
  then show ?case by simp
next
  case (Cons a as)
  let ?m1 = "start_one sim_executor (serving L sn now au) a m"
  note one = start_one_reports [where L = L and sn = sn and au = au,
      OF Cons.prems(1) assms(2) Cons.prems(2) [OF list.set_intros(1)] refl]
  have same: "fmlookup (m_assignments (the_world ?m1)) k = fmlookup (m_assignments (the_world m)) k \<and>
      (k |\<in>| tracked (the_agent ?m1) \<longleftrightarrow> k |\<in>| tracked (the_agent m))" if "k \<noteq> asg_ID a \<or> k |\<in>| tracked (the_agent m)" for k
    using that one(3) [of k] by (cases "k = asg_ID a") (auto simp: start_one_def track_def)
  have rest: "node_ready m' \<and> same_agent (the_agent ?m1) (the_agent m') \<and>
    (\<forall>k. k \<notin> asg_ID ` set as \<or> k |\<in>| tracked (the_agent ?m1) \<longrightarrow>
      fmlookup (m_assignments (the_world m')) k = fmlookup (m_assignments (the_world ?m1)) k \<and>
      (k |\<in>| tracked (the_agent m') \<longleftrightarrow> k |\<in>| tracked (the_agent ?m1)))"
    using Cons.prems by (intro Cons.IH one(1)) simp_all
  show ?case
  proof (intro conjI allI impI)
    show "node_ready m'" "same_agent (the_agent m) (the_agent m')"
      using rest same_agent_trans [OF one(2)] by blast+
    fix k
    assume k: "k \<notin> asg_ID ` set (a # as) \<or> k |\<in>| tracked (the_agent m)"
    then have "k \<noteq> asg_ID a \<or> k |\<in>| tracked (the_agent m)" by auto
    note this = same [OF this]
    then have "k \<notin> asg_ID ` set as \<or> k |\<in>| tracked (the_agent ?m1)" using k by auto
    with this rest show "fmlookup (m_assignments (the_world m')) k = fmlookup (m_assignments (the_world m)) k"
      "k |\<in>| tracked (the_agent m') \<longleftrightarrow> k |\<in>| tracked (the_agent m)"
      using same [of k] k by auto
  qed
qed

lemma started_reported:
  assumes "node_ready m" "rfc3339_ok now" "\<And>a. a \<in> set as \<Longrightarrow> plain_name (asg_ID a)" "distinct (map asg_ID as)"
    and "a \<in> set as" "asg_ID a |\<notin>| tracked (the_agent m)"
    and "fmlookup (m_assignments (the_world m)) (asg_ID a) = Some b" "asg_node b = node_ID (ag_node (the_agent m))"
    and "m' = fold (start_one sim_executor (serving L sn now au)) as m"
  shows "\<exists>p msg. sim_status (the_exec m') (asg_ID a) = Some (p, msg) \<and> isAgentReportablePhase p \<and>
    fmlookup (m_assignments (the_world m')) (asg_ID a) = Some (fst (applyStatus p msg now b))"
proof -
  let ?S = "start_one sim_executor (serving L sn now au)" and ?k = "asg_ID a"
  obtain xs ys where as: "as = xs @ a # ys" using split_list [OF assms(5)] by blast
  then have k: "?k \<notin> asg_ID ` set xs" "?k \<notin> asg_ID ` set ys"
    using assms(4) by (auto simp: as)
  define m1 where "m1 = fold ?S xs m"
  define m2 where "m2 = ?S a m1"
  have m': "m' = fold ?S ys m2" using assms(9) by (simp add: as m1_def m2_def)
  have pl: "\<And>x. x \<in> set xs \<Longrightarrow> plain_name (asg_ID x)" "plain_name ?k" "\<And>x. x \<in> set ys \<Longrightarrow> plain_name (asg_ID x)"
    using assms(3) by (auto simp: as)
  from starts_reports [OF assms(1,2) pl(1) m1_def] k(1)
  have 1: "node_ready m1" "same_agent (the_agent m) (the_agent m1)"
      "fmlookup (m_assignments (the_world m1)) ?k = Some b" "?k |\<notin>| tracked (the_agent m1)"
    using assms(6,7) by simp_all
  have "asg_node b = node_ID (ag_node (the_agent m1))"
    using assms(8) 1(2) by (simp add: same_agent_def)
  from start_one_reports(1,4) [OF 1(1) assms(2) pl(2) m2_def] this 1(3,4)
  obtain p msg where 2: "node_ready m2" "sim_status (the_exec m2) ?k = Some (p, msg)" "isAgentReportablePhase p"
      "fmlookup (m_assignments (the_world m2)) ?k = Some (fst (applyStatus p msg now b))"
    by blast
  have "sim_workload (the_exec m2) ?k \<noteq> None" "sim_inv (the_exec m2)"
    using 2(1,2) by (auto simp: sim_status_def sim_workload_def node_ready_def)
  then have "sim_status (the_exec m') ?k = Some (p, msg)"
    unfolding m' using starts_status 2(2) by metis
  moreover have "fmlookup (m_assignments (the_world m')) ?k = Some (fst (applyStatus p msg now b))"
    using starts_reports [OF 2(1) assms(2) pl(3) m'] k(2) 2(4) by simp
  ultimately show ?thesis using 2(3) by blast
qed

section \<open>A synchronisation\<close>

lemma handed_out_iff: "wf_store s \<Longrightarrow> a \<in> set (handed_out i s) \<longleftrightarrow>
    fmlookup (m_assignments s) (asg_ID a) = Some a \<and> asg_node a = i \<and> active a"
  by (auto simp: handed_out_def mem_ListNodeAssignments)

lemma sync_served:
  assumes "node_ready m"
  shows "syncAssignments sim_executor (serving L sn now au) order m =
    (fold (start_one sim_executor (serving L sn now au))
       (order (fm_values (desired_assignments (handed_out (node_ID (ag_node (the_agent m))) (the_world m)))))
       (fold (stop_one sim_executor (serving L sn now au)
           (desired_assignments (handed_out (node_ID (ag_node (the_agent m))) (the_world m))))
         (projr (sim_List (the_exec m))) m), None)"
proof -
  let ?ag = "the_agent m" and ?i = "node_ID (ag_node (the_agent m))"
  have ag: "plain_base (cl_base (ag_client ?ag))" "cl_cn (ag_client ?ag) = NodeCN ?i" "plain_name ?i"
    and wf: "wf_store (the_world m)"
    using assms by (simp_all add: node_ready_def connected_def shippable_def)
  have "assignment_encodable a" if "a \<in> set (handed_out ?i (the_world m))" for a
    using that assms handed_out_iff [OF wf] by (auto simp: node_ready_def shippable_def)
  then have "FetchAssignments (serving L sn now au) (ag_client ?ag) ?i (the_world m) =
      (the_world m, Inr (handed_out ?i (the_world m)))"
    by (rule FetchAssignments_served [OF ag wf])
  moreover obtain ids where ids: "sim_List (the_exec m) = Inr ids" by (simp add: sim_List_def)
  ultimately show ?thesis
    using sim_node.sync_parts [of "serving L sn now au" m "the_world m" "handed_out ?i (the_world m)" ids order] by simp
qed

lemma desired_handed_out:
  assumes "wf_store s" "map_order order"
  shows "set (order (fm_values (desired_assignments (handed_out i s)))) = set (handed_out i s)"
    and "distinct (map asg_ID (order (fm_values (desired_assignments (handed_out i s)))))"
    and "a \<in> set (handed_out i s) \<Longrightarrow> fmlookup (desired_assignments (handed_out i s)) (asg_ID a) \<noteq> None"
proof -
  let ?d = "desired_assignments (handed_out i s)"
  have unique: "a = b" if "a \<in> set (handed_out i s)" "b \<in> set (handed_out i s)" "asg_ID a = asg_ID b" for a b
    using that handed_out_iff [OF assms(1)] by (metis option.inject)
  have act: "a \<in> set (handed_out i s) \<Longrightarrow> active a" for a by (simp add: handed_out_def)
  show some: "a \<in> set (handed_out i s) \<Longrightarrow> fmlookup ?d (asg_ID a) \<noteq> None" for a
    using desired_dom act by blast
  have "set (fm_values ?d) = set (handed_out i s)"
  proof (intro equalityI subsetI)
    fix a
    assume "a \<in> set (fm_values ?d)"
    then show "a \<in> set (handed_out i s)" by (auto simp: desired_values dest: desired_Some)
  next
    fix a
    assume a: "a \<in> set (handed_out i s)"
    then obtain b where b: "fmlookup ?d (asg_ID a) = Some b" using some by blast
    then have "b = a" using desired_Some [OF b] unique a by blast
    with b show "a \<in> set (fm_values ?d)" by (auto simp: desired_values)
  qed
  then show "set (order (fm_values ?d)) = set (handed_out i s)" using assms(2) by simp
  have "distinct (map asg_ID (fm_values ?d))"
    by (rule distinct_fm_values_keys) (auto dest: desired_Some)
  moreover have "mset (map asg_ID (order (fm_values ?d))) = mset (map asg_ID (fm_values ?d))"
    using assms(2) by (simp add: map_order_def)
  ultimately show "distinct (map asg_ID (order (fm_values ?d)))"
    using mset_eq_imp_distinct_iff by metis
qed

lemma sync_ready:
  assumes "node_ready m" "map_order order" "rfc3339_ok now" "m' = fst (syncAssignments sim_executor (serving L sn now au) order m)"
    and "a \<in> set (handed_out (node_ID (ag_node (the_agent m))) (the_world m))"
  shows "node_ready m' \<and> same_agent (the_agent m) (the_agent m') \<and>
    (asg_ID a |\<in>| tracked (the_agent m) \<longrightarrow> asg_ID a |\<in>| tracked (the_agent m') \<and>
      fmlookup (m_assignments (the_world m')) (asg_ID a) = Some a) \<and>
    (asg_ID a |\<notin>| tracked (the_agent m) \<longrightarrow>
      (\<exists>p msg. sim_status (the_exec m') (asg_ID a) = Some (p, msg) \<and> isAgentReportablePhase p \<and>
        fmlookup (m_assignments (the_world m')) (asg_ID a) = Some (fst (applyStatus p msg now a))))"
proof -
  let ?i = "node_ID (ag_node (the_agent m))"
  let ?hs = "handed_out ?i (the_world m)"
  let ?as = "order (fm_values (desired_assignments ?hs))"
  define m1 where "m1 = fold (stop_one sim_executor (serving L sn now au) (desired_assignments ?hs)) (projr (sim_List (the_exec m))) m"
  have m': "m' = fold (start_one sim_executor (serving L sn now au)) ?as m1"
    using assms(4) by (simp add: sync_served [OF assms(1)] m1_def)
  have wf: "wf_store (the_world m)" using assms(1) by (simp add: node_ready_def shippable_def)
  note d = desired_handed_out [OF wf assms(2), where i = ?i]
  have a: "fmlookup (m_assignments (the_world m)) (asg_ID a) = Some a" "asg_node a = ?i"
    using assms(5) handed_out_iff [OF wf] by auto
  from stops_reports [OF assms(1,3) m1_def] d(3) [OF assms(5)]
  have 1: "node_ready m1" "same_agent (the_agent m) (the_agent m1)"
      "fmlookup (m_assignments (the_world m1)) (asg_ID a) = Some a"
      "asg_ID a |\<in>| tracked (the_agent m1) \<longleftrightarrow> asg_ID a |\<in>| tracked (the_agent m)"
    using a by simp_all
  have pl: "plain_name (asg_ID b)" if "b \<in> set ?as" for b
    using that assms(1) handed_out_iff [OF wf] by (auto simp: d node_ready_def shippable_def)
  note 2 = starts_reports [OF 1(1) assms(3) pl m']
  have node: "asg_node a = node_ID (ag_node (the_agent m1))" using a(2) 1(2) by (simp add: same_agent_def)
  have 3: "asg_ID a |\<notin>| tracked (the_agent m1) \<Longrightarrow>
      \<exists>p msg. sim_status (the_exec m') (asg_ID a) = Some (p, msg) \<and> isAgentReportablePhase p \<and>
        fmlookup (m_assignments (the_world m')) (asg_ID a) = Some (fst (applyStatus p msg now a))"
    using assms(5) by (intro started_reported [OF 1(1) assms(3) pl d(2) _ _ 1(3) node m']) (simp_all add: d(1))
  from 2 same_agent_trans [OF 1(2)] have "node_ready m'" "same_agent (the_agent m) (the_agent m')" by blast+
  with 2 3 1(3,4) show ?thesis by simp
qed

section \<open>Properties\<close>

text \<open>
  C24: When the controller can be reached, a synchronisation tells it about everything it starts or
  re-attaches to: an assignment handed out to an agent that does not track it, newly
  placed, found after a restart or finished with its report lost, is stored afterwards with the
  phase and message its workload has, so it is no longer Pending.
\<close>

theorem sync_reports:
  assumes "node_ready m" "map_order order" "rfc3339_ok now"
    and "a \<in> set (handed_out (node_ID (ag_node (the_agent m))) (the_world m))" "asg_ID a |\<notin>| tracked (the_agent m)"
    and "m' = fst (syncAssignments sim_executor (serving L sn now au) order m)"
  shows "\<exists>b. fmlookup (m_assignments (the_world m')) (asg_ID a) = Some b \<and>
    sim_status (the_exec m') (asg_ID a) = Some (asg_phase b, status_message b) \<and> asg_phase b \<noteq> Pending"
proof -
  have "\<not> terminal a"
    using assms(4) by (auto simp: handed_out_def active_not_terminal)
  then have "asg_phase (fst (applyStatus p msg now a)) = p \<and> status_message (fst (applyStatus p msg now a)) = msg" for p msg
    by (simp add: applyStatus_def Let_def)
  moreover obtain p msg where "sim_status (the_exec m') (asg_ID a) = Some (p, msg)" "isAgentReportablePhase p"
      "fmlookup (m_assignments (the_world m')) (asg_ID a) = Some (fst (applyStatus p msg now a))"
    using sync_ready [OF assms(1-3,6,4)] assms(5) by blast
  ultimately show ?thesis by auto
qed

definition run_ticks ::
  "('c, 'k, 'p, 'r) crypto \<Rightarrow> int \<Rightarrow> ('c, 'k) auth \<Rightarrow> (assignment list \<Rightarrow> assignment list) \<Rightarrow> (time \<times> tick) list \<Rightarrow>
     (reporter sim, mem_store) machine \<Rightarrow> (reporter sim, mem_store) machine" where
  "run_ticks L sn au order ts m = fold (\<lambda>(now, t). Run_tick sim_executor (serving L sn now au) order t) ts m"

lemma heartbeat_tick:
  assumes "node_ready m" "m' = Run_tick sim_executor (serving L sn now au) order HeartbeatTick m"
  shows "node_ready m' \<and> the_agent m' = the_agent m \<and> m_assignments (the_world m') = m_assignments (the_world m)"
proof -
  let ?ag = "the_agent m" and ?i = "node_ID (ag_node (the_agent m))"
  have "plain_base (cl_base (ag_client ?ag))" "cl_cn (ag_client ?ag) = NodeCN ?i" "?i \<noteq> []"
    using assms(1) by (simp_all add: node_ready_def connected_def plain_name_def)
  then have "m' = m\<lparr>the_world := fst (TouchNode ?i now (the_world m))\<rparr>"
    using assms(2) by (simp add: Heartbeat_served)
  moreover have "wf_store (fst (TouchNode ?i now (the_world m)))"
    using assms(1) by (intro wf_intros) (simp add: node_ready_def shippable_def)
  ultimately show ?thesis
    using assms(1) by (auto simp: node_ready_def shippable_def store_simps)
qed

lemma poll_tick:
  assumes "node_ready m" "map_order order" "rfc3339_ok now" "m' = Run_tick sim_executor (serving L sn now au) order t m"
    and "k |\<in>| tracked (the_agent m)" "fmlookup (m_assignments (the_world m)) k = Some a" "active a"
    and "asg_node a = node_ID (ag_node (the_agent m))"
  shows "node_ready m' \<and> same_agent (the_agent m) (the_agent m') \<and> k |\<in>| tracked (the_agent m') \<and>
    fmlookup (m_assignments (the_world m')) k = Some a"
proof (cases t)
  case HeartbeatTick
  then have m': "m' = Run_tick sim_executor (serving L sn now au) order HeartbeatTick m" using assms(4) by simp
  from heartbeat_tick [OF assms(1) m'] assms(5,6) show ?thesis by simp
next
  case PollTick
  have wf: "wf_store (the_world m)" using assms(1) by (simp add: node_ready_def shippable_def)
  then have k: "asg_ID a = k" using assms(6) by (simp add: wf_assignment)
  then have "a \<in> set (handed_out (node_ID (ag_node (the_agent m))) (the_world m))"
    using assms(6-8) by (simp add: handed_out_iff [OF wf])
  note a = this
  have "m' = fst (syncAssignments sim_executor (serving L sn now au) order m)" using PollTick assms(4) by simp
  from sync_ready [OF assms(1-3) this a] assms(5) k show ?thesis by simp
qed

text \<open>
  A report of \<open>Running\<close> that gets lost is not repeated. As long as the agent tracks an active
  assignment, none of its heartbeats and synchronisations changes what the controller
  stores for it, however well the network works from then on.
\<close>

theorem running_report_not_repeated:
  assumes "node_ready m" "map_order order" "\<And>now t. (now, t) \<in> set ts \<Longrightarrow> rfc3339_ok now"
    and "k |\<in>| tracked (the_agent m)" "fmlookup (m_assignments (the_world m)) k = Some a" "active a"
    and "asg_node a = node_ID (ag_node (the_agent m))"
  shows "fmlookup (m_assignments (the_world (run_ticks L sn au order ts m))) k = Some a"
  using assms(1,3-5,7)
proof (induction ts arbitrary: m)
  case Nil
  then show ?case by (simp add: run_ticks_def)
next
  case (Cons x ts)
  obtain now t where x: "x = (now, t)" by (cases x)
  let ?m1 = "Run_tick sim_executor (serving L sn now au) order t m"
  have "rfc3339_ok now" using Cons.prems(2) x by auto
  note poll_tick [where L = L and sn = sn and au = au, OF Cons.prems(1) assms(2) this refl Cons.prems(3,4) assms(6) Cons.prems(5), of t]
  then have 1: "node_ready ?m1" "same_agent (the_agent m) (the_agent ?m1)" "k |\<in>| tracked (the_agent ?m1)"
      "fmlookup (m_assignments (the_world ?m1)) k = Some a"
    by blast+
  have "fmlookup (m_assignments (the_world (run_ticks L sn au order ts ?m1))) k = Some a"
    using Cons.prems(2,5) 1(2) by (intro Cons.IH 1) (auto simp: same_agent_def)
  then show ?case by (simp add: run_ticks_def x)
qed

end
