(* ===== verification/Examples_Agent.thy ===== *)
theory Examples_Agent
  imports Examples_Api Agent_Reports
begin

text \<open>
  Calls of clients, and an agent with the simulated runtime on node \<open>node-a\<close>: the properties of
  the client and the agent applied at these values.
\<close>

section \<open>Clients\<close>

definition admin_client :: client where
  "admin_client = New_Client ''https://ctl:8443/'' AdminCN"

definition client_a :: client where
  "client_a = New_Client ''https://ctl:8443/'' (NodeCN ''node-a'')"

lemma clients: "plain_base (cl_base admin_client)" "cl_cn admin_client = AdminCN"
  "plain_base (cl_base client_a)" "cl_cn client_a = NodeCN ''node-a''" "plain_name ''node-a''"
  by code_simp+

lemma admin_calls_witness:
  "ApplyService (serving toy 1 t0 au0) admin_client web store1 = (UpsertService (posted_service web) store1, Inr ()) \<and>
    Client_DeleteService (serving toy 1 t0 au0) admin_client ''web'' store1 =
      (fst (DeleteService ''web'' store1), Inr ())"
proof -
  have names: "plain_name ''web''" "service_name web \<noteq> []" "service_image web \<noteq> []" "job_name batch \<noteq> []"
    "job_image batch \<noteq> []" "job_encodable batch" and there: "snd (DeleteService ''web'' store1)"
    by code_simp+
  from admin_calls [OF clients(1,2) names, of toy 1 t0 au0 store1] there show ?thesis by simp
qed

definition queried :: service where
  "queried = web\<lparr>service_name := ''web?v2''\<rparr>"

lemma delete_truncates_witness:
  "fmlookup (m_services (fst (Client_DeleteService (serving toy 1 t0 au0) admin_client ''web?v2'' store1))) ''web'' = None"
proof -
  have v: "plain_name ''web''" "service_name queried = ''web'' @ CHR ''?'' # ''v2''" "service_image queried \<noteq> []"
    by code_simp+
  have q: "\<not> is_ctl x \<and> x \<noteq> CHR ''#''" if "x \<in> set ''v2''" for x
    using that by (auto simp: is_ctl_def)
  from delete_truncates [OF clients(1,2) v(1) q v(2,3), of toy 1 t0 au0 store1]
  have "fst (Client_DeleteService (serving toy 1 t0 au0) admin_client ''web?v2'' store1) = fst (DeleteService ''web'' store1)"
    by (simp add: v(2))
  then show ?thesis by (simp add: DeleteService_def)
qed

section \<open>An agent\<close>

definition replica_store :: mem_store where
  "replica_store = SaveAssignment db_replica (UpsertNode node_a NewMemoryStore)"

lemma replica_store: "wf_store replica_store" "fmlookup (m_assignments replica_store) ''db-1-cdfgh'' = Some db_replica"
proof -
  show "wf_store replica_store"
    unfolding replica_store_def by (intro wf_intros)
  show "fmlookup (m_assignments replica_store) ''db-1-cdfgh'' = Some db_replica"
    by code_simp
qed

definition boot :: "(reporter sim, mem_store) machine" where
  "boot = booted 0 node_a client_a replica_store"

text \<open>A network that loses the reports, and the first synchronisation over it.\<close>

definition lossy :: "mem_store transport" where
  "lossy r w = (if HasPrefix (req_path r) ''/assignments/'' then (w, None) else serving toy 1 t0 au0 r w)"

definition unreported :: "(reporter sim, mem_store) machine" where
  "unreported = fst (syncAssignments sim_executor lossy (\<lambda>xs. xs) boot)"

lemma replica_shippable: "shippable ''node-a'' replica_store"
proof -
  have "m_assignments replica_store = fmap_of_list [(''db-1-cdfgh'', db_replica)]" "plain_name ''db-1-cdfgh''"
    "assignment_encodable db_replica"
    by code_simp+
  then show ?thesis using replica_store(1) by (auto simp: shippable_def)
qed

lemma connected_a: "connected (New_Agent 0 node_a client_a)"
  using clients by (simp add: connected_def New_Agent_def node_a_def)

lemma boot_ready: "node_ready boot"
  using replica_shippable connected_a sim_inv_new
  by (simp add: node_ready_def boot_def booted_def addressed_def NewSimExecutor_def New_Agent_def node_a_def)

lemma identity_order: "map_order (\<lambda>xs. xs)"
  by (simp add: map_order_def)

lemma handed_out_replica: "db_replica \<in> set (handed_out ''node-a'' replica_store)"
proof -
  have "asg_ID db_replica = ''db-1-cdfgh''" "asg_node db_replica = ''node-a''" "active db_replica"
    by code_simp+
  then show ?thesis using replica_store by (simp add: handed_out_iff)
qed

lemma boot_parts: "ag_node (the_agent boot) = node_a" "ag_client (the_agent boot) = client_a" "the_world boot = replica_store"
    "tracked (the_agent boot) = {||}" "node_ID node_a = ''node-a''"
  by (simp_all add: boot_def booted_def New_Agent_def node_a_def)

lemma sync_converges_witness:
  "dom (sim_workload (the_exec (fst (syncAssignments sim_executor lossy (\<lambda>xs. xs) boot)))) = {''db-1-cdfgh''}"
proof -
  have steps: "node_steps sim_executor sim_step (booted 0 node_a client_a replica_store) boot"
    by (simp add: boot_def)
  have fetch: "FetchAssignments lossy (ag_client (the_agent boot)) (node_ID (ag_node (the_agent boot))) (the_world boot) =
      (replica_store, Inr [db_replica])"
    by code_simp
  have "asg_ID db_replica = ''db-1-cdfgh''" "active db_replica"
    by code_simp+
  then have "asg_ID ` {a \<in> set [db_replica]. active a} = {''db-1-cdfgh''}"
    by auto
  with sync_converges [OF steps identity_order fetch] show ?thesis by simp
qed

lemma sync_reports_witness:
  "\<exists>b. fmlookup (m_assignments (the_world (fst (syncAssignments sim_executor (serving toy 1 t0 au0) (\<lambda>xs. xs) boot)))) ''db-1-cdfgh'' = Some b \<and>
    asg_phase b \<noteq> Pending"
proof -
  have "rfc3339_ok t0" and i: "asg_ID db_replica = ''db-1-cdfgh''"
    by code_simp+
  from sync_reports [OF boot_ready identity_order this(1) _ _ refl, of db_replica toy 1 au0] handed_out_replica
  show ?thesis by (auto simp: boot_parts i)
qed

text \<open>The loss: the replica runs and is tracked, and the controller has it Pending, for good.\<close>

lemma unreported_parts:
  "the_agent unreported = (New_Agent 0 node_a client_a)\<lparr>tracked := {|''db-1-cdfgh''|}\<rparr>"
  "the_world unreported = replica_store"
  "the_exec unreported = \<lparr>sim_tasks = fmap_of_list [(''db-1-cdfgh'', 0)],
     sim_heap = [\<lparr>tk_stopped = False, tk_phase = Running, tk_message = ''simulated runtime started assignment'',
       tk_report = (0, ''db-1-cdfgh'')\<rparr>], sim_jobs = []\<rparr>"
  by code_simp+

lemma unreported_ready: "node_ready unreported"
proof -
  have "plain_name ''db-1-cdfgh''" by code_simp
  moreover have "connected (the_agent unreported)"
    using connected_a by (simp add: unreported_parts connected_def New_Agent_def)
  ultimately show ?thesis
    using replica_shippable
    by (auto simp: node_ready_def unreported_parts sim_inv_def addressed_def New_Agent_def node_a_def split: if_splits)
qed

lemma running_report_not_repeated_witness:
  "fmlookup (m_assignments (the_world (run_ticks toy 1 au0 (\<lambda>xs. xs)
      [(t0, PollTick), (t0 + second, HeartbeatTick), (t0 + second, PollTick)] unreported))) ''db-1-cdfgh'' = Some db_replica \<and>
    asg_phase db_replica = Pending \<and>
    sim_status (the_exec unreported) ''db-1-cdfgh'' = Some (Running, ''simulated runtime started assignment'')"
proof -
  have a: "rfc3339_ok t0" "rfc3339_ok (t0 + second)" "active db_replica" "asg_node db_replica = ''node-a''"
    "asg_phase db_replica = Pending"
    by code_simp+
  have "''db-1-cdfgh'' |\<in>| tracked (the_agent unreported)"
    "fmlookup (m_assignments (the_world unreported)) ''db-1-cdfgh'' = Some db_replica"
    "asg_node db_replica = node_ID (ag_node (the_agent unreported))"
    using replica_store(2) a(4) by (simp_all add: unreported_parts New_Agent_def node_a_def)
  note k = this
  have now: "rfc3339_ok now" if "(now, t) \<in> set [(t0, PollTick), (t0 + second, HeartbeatTick), (t0 + second, PollTick)]" for now t
    using that a(1,2) by auto
  have "fmlookup (m_assignments (the_world (run_ticks toy 1 au0 (\<lambda>xs. xs)
      [(t0, PollTick), (t0 + second, HeartbeatTick), (t0 + second, PollTick)] unreported))) ''db-1-cdfgh'' = Some db_replica"
    by (rule running_report_not_repeated [OF unreported_ready identity_order now k(1,2) a(3) k(3)])
  then show ?thesis using a(5) by (simp add: unreported_parts sim_status_def)
qed

text \<open>The agent restarts and finds its replica running.\<close>

definition restarted :: "(reporter sim, mem_store) machine" where
  "restarted = unreported\<lparr>the_agent := New_Agent 1 node_a client_a\<rparr>"

lemma restart_keeps_workloads_witness:
  "sim_workload (the_exec (fst (Run_start sim_executor (serving toy 1 t0 au0) (\<lambda>xs. xs) restarted))) ''db-1-cdfgh'' = Some 0"
proof -
  let ?w = "UpsertNode (node_a\<lparr>last_heartbeat := t0\<rparr>) replica_store"
  have "rfc3339_ok (last_heartbeat node_a)" by code_simp
  then have reg: "RegisterNode (serving toy 1 t0 au0) client_a node_a (the_world restarted) = (?w, Inr ())"
    using clients by (simp add: RegisterNode_served restarted_def unreported_parts node_a_def)
  have fetch: "FetchAssignments (serving toy 1 t0 au0) client_a (node_ID node_a) ?w = (?w, Inr [db_replica])"
    by code_simp
  have a: "asg_ID db_replica = ''db-1-cdfgh''" "active db_replica"
    by code_simp+
  have "sim_inv (the_exec restarted)" "the_agent restarted = New_Agent 1 node_a client_a"
      "sim_workload (the_exec restarted) (asg_ID db_replica) = Some 0"
    using unreported_ready by (simp_all add: restarted_def node_ready_def unreported_parts sim_workload_def a)
  from restart_keeps_workloads [OF this(1,2) reg fetch _ a(2) this(3), of "\<lambda>xs. xs"] show ?thesis
    by (simp add: a)
qed

lemma agent_calls_witness:
  "FetchAssignments (serving toy 1 t0 au0) client_a ''node-a'' replica_store = (replica_store, Inr (handed_out ''node-a'' replica_store)) \<and>
    Client_UpdateAssignmentStatus (serving toy 1 t0 au0) client_a ''db-1-cdfgh'' Running [] replica_store =
      (fst (UpdateAssignmentStatus ''db-1-cdfgh'' Running [] t0 replica_store), Inr ())"
proof -
  have base: "plain_base (cl_base client_a)" "cl_cn client_a = NodeCN (node_ID node_a)" "plain_name (node_ID node_a)"
    "rfc3339_ok (last_heartbeat node_a)" and k: "plain_name ''db-1-cdfgh''" "isAgentReportablePhase Running"
    "asg_node db_replica = node_ID node_a"
    by code_simp+
  have "assignment_encodable b" if "b \<in> set (handed_out (node_ID node_a) replica_store)" for b
    using that replica_shippable handed_out_iff [OF replica_store(1)] by (auto simp: shippable_def node_a_def)
  from agent_calls [OF base replica_store(1) this k(1,2) replica_store(2) k(3), of toy 1 t0 au0 "[]"]
  show ?thesis by (simp add: node_a_def)
qed

end
