(* ===== verification/Backup.thy ===== *)
theory Backup
  imports Sqlite_Store Files Rfc3339 Http
begin

text \<open>
  \<open>store/backup.go\<close>: snapshots of the database in a directory, pruning the oldest, and
  restoring the newest one when the database is gone. The directory is a clean path other than \<open>/\<close>
  and \<open>.\<close>, so \<open>filepath.Join\<close> puts a slash behind it. Every system call may fail.
\<close>

section \<open>filepath.Glob\<close>

text \<open>
  The elements of a pattern: a star, a question mark, a class of ranges, a character; \<open>None\<close> is
  \<open>ErrBadPattern\<close>. \<open>get_esc\<close> reads one bound of a range.
\<close>

datatype glob_tok = GStar | GAny | GClass bool "(char \<times> char) list" | GChar char

fun get_esc :: "string \<Rightarrow> (char \<times> string) option" where
  "get_esc [] = None"
| "get_esc (c # s) =
     (if c = CHR ''-'' \<or> c = CHR '']'' then None
      else if c = CHR 0x5C then (case s of x # y # t \<Rightarrow> Some (x, y # t) | _ \<Rightarrow> None)
      else if s = [] then None else Some (c, s))"

fun glob_class :: "nat \<Rightarrow> (char \<times> char) list \<Rightarrow> string \<Rightarrow> ((char \<times> char) list \<times> string) option" where
  "glob_class 0 acc s = None"
| "glob_class (Suc n) acc s =
     (if s \<noteq> [] \<and> hd s = CHR '']'' \<and> acc \<noteq> [] then Some (rev acc, tl s)
      else case get_esc s of None \<Rightarrow> None
      | Some (lo, t) \<Rightarrow>
          if hd t = CHR ''-'' then
            (case get_esc (tl t) of None \<Rightarrow> None | Some (hi, u) \<Rightarrow> glob_class n ((lo, hi) # acc) u)
          else glob_class n ((lo, lo) # acc) t)"

fun glob_parse :: "nat \<Rightarrow> string \<Rightarrow> glob_tok list option" where
  "glob_parse 0 s = None"
| "glob_parse (Suc n) s = (case s of [] \<Rightarrow> Some []
   | c # t \<Rightarrow>
       if c = CHR ''*'' then map_option (Cons GStar) (glob_parse n t)
       else if c = CHR ''?'' then map_option (Cons GAny) (glob_parse n t)
       else if c = CHR ''['' then
         (let neg = (t \<noteq> [] \<and> hd t = CHR ''^'')
          in case glob_class (length t + 1) [] (if neg then tl t else t) of None \<Rightarrow> None
             | Some (rs, u) \<Rightarrow> map_option (Cons (GClass neg rs)) (glob_parse n u))
       else if c = CHR 0x5C then
         (case t of [] \<Rightarrow> None | x # u \<Rightarrow> map_option (Cons (GChar x)) (glob_parse n u))
       else map_option (Cons (GChar c)) (glob_parse n t))"

text \<open>Every step consumes something, so the length of the component is fuel enough.\<close>

definition glob_component :: "string \<Rightarrow> glob_tok list option" where
  "glob_component w = glob_parse (length w + 1) w"

text \<open>The match of one path component; a name has no slash in it.\<close>

fun glob_match :: "glob_tok list \<Rightarrow> string \<Rightarrow> bool" where
  "glob_match [] s = (s = [])"
| "glob_match (GStar # p) [] = glob_match p []"
| "glob_match (GStar # p) (c # s) = (glob_match p (c # s) \<or> glob_match (GStar # p) s)"
| "glob_match (GAny # p) s = (s \<noteq> [] \<and> glob_match p (tl s))"
| "glob_match (GClass neg rs # p) s =
     (s \<noteq> [] \<and> list_ex (\<lambda>(lo, hi). lo \<le> hd s \<and> hd s \<le> hi) rs \<noteq> neg \<and> glob_match p (tl s))"
| "glob_match (GChar c # p) s = (s \<noteq> [] \<and> hd s = c \<and> glob_match p (tl s))"

text \<open>
  The existing paths that match a pattern component by component. A pattern with no special
  character in it is looked up as it is, which is the same.
\<close>

definition filepath_Glob :: "string \<Rightarrow> fs \<Rightarrow> string list option" where
  "filepath_Glob pattern d =
     map_option (\<lambda>ps. filter (\<lambda>f. list_all2 glob_match ps (split_on (CHR ''/'') f)) (sorted_list_of_fset (fmdom d)))
       (those (map glob_component (split_on (CHR ''/'') pattern)))"

section \<open>backup.go\<close>

definition backupPattern :: string where
  "backupPattern = ''state-*.db''"

text \<open>The layout \<open>20060102T150405Z\<close>, for the years 0 to 9999.\<close>

definition backup_stamp :: "time \<Rightarrow> string" where
  "backup_stamp t =
     (let day = t div 86400000000000;
          sec = nat (t mod 86400000000000) div 1000000000;
          y = year_of day;
          doy = day - year_start y;
          m = month_of (leap y) doy
      in pad 4 (nat y) @ pad 2 m @ pad 2 (nat (doy - month_start (leap y) m + 1)) @ ''T'' @
         pad 2 (sec div 3600) @ pad 2 (sec div 60 mod 60) @ pad 2 (sec mod 60) @ ''Z'')"

definition backup_path :: "string \<Rightarrow> time \<Rightarrow> string" where
  "backup_path dir now = dir @ ''/state-'' @ backup_stamp now @ ''.db''"

datatype backup_error = MkdirFailed | VacuumFailed | SyncFailed | PublishFailed | PruneFailed | BadPattern
  | StatFailed | ReadFailed | RestoreWriteFailed

definition listBackups :: "string \<Rightarrow> fs \<Rightarrow> backup_error + string list" where
  "listBackups dir d = (case filepath_Glob (dir @ ''/'' @ backupPattern) d of
     None \<Rightarrow> Inl BadPattern
   | Some backups \<Rightarrow> Inr (sort_slice (<) backups))"

text \<open>The loop of \<open>pruneBackups\<close>; \<open>bad\<close> is the file that cannot be removed, if there is one.\<close>

fun prune_loop :: "string option \<Rightarrow> int \<Rightarrow> string list \<Rightarrow> fs \<Rightarrow> fs \<times> backup_error option" where
  "prune_loop bad keep [] d = (d, None)"
| "prune_loop bad keep (b # bs) d =
     (if int (length (b # bs)) > keep
      then if bad = Some b then (d, Some PruneFailed) else prune_loop bad keep bs (fmdrop b d)
      else (d, None))"

definition pruneBackups :: "string option \<Rightarrow> string \<Rightarrow> int \<Rightarrow> fs \<Rightarrow> fs \<times> backup_error option" where
  "pruneBackups bad dir keep d =
     (if keep \<le> 0 then (d, None)
      else case listBackups dir d of
        Inl e \<Rightarrow> (d, Some e)
      | Inr backups \<Rightarrow> prune_loop bad keep backups d)"

text \<open>
  Which call of \<open>Backup\<close> fails. \<open>vacuum\<close> is what \<open>VACUUM INTO\<close> writes for a database, a failing
  one leaves some bytes or no file. The removal of the temporary file is taken to succeed.
\<close>

datatype backup_fault = AllWell | MkdirFault | VacuumFault "string option" | SyncFault | PublishFault | PruneFault string

definition Backup ::
  "(sqlite_store \<Rightarrow> string) \<Rightarrow> backup_fault \<Rightarrow> sqlite_store \<Rightarrow> string \<Rightarrow> int \<Rightarrow> time \<Rightarrow> fs \<Rightarrow>
     fs \<times> string \<times> backup_error option" where
  "Backup vacuum flt st dir keep now d =
     (if flt = MkdirFault then (d, [], Some MkdirFailed)
      else
        let final = backup_path dir now; tmp = final @ ''.tmp''; d1 = fmdrop tmp d
        in case flt of
          VacuumFault part \<Rightarrow>
            (fmdrop tmp (case part of None \<Rightarrow> d1 | Some b \<Rightarrow> fmupd tmp (Plain b) d1), [], Some VacuumFailed)
        | _ \<Rightarrow>
            (let d2 = fmupd tmp (Plain (vacuum st)) d1 in
             if flt = SyncFault then (fmdrop tmp d2, [], Some SyncFailed)
             else if flt = PublishFault then (fmdrop tmp d2, [], Some PublishFailed)
             else
               let (d3, err) = pruneBackups (case flt of PruneFault b \<Rightarrow> Some b | _ \<Rightarrow> None) dir keep (os_Rename tmp final d2)
               in (d3, final, err)))"

definition LatestBackup :: "string \<Rightarrow> fs \<Rightarrow> backup_error + string" where
  "LatestBackup dir d = (case listBackups dir d of
     Inl e \<Rightarrow> Inl e
   | Inr backups \<Rightarrow> if backups = [] then Inr [] else Inr (last backups))"

datatype restore_fault = NoRestoreFault | StatFault | RestoreMkdirFault | RestoreWriteFault nat | RestoreSyncFault | RestoreRenameFault

definition RestoreIfMissing ::
  "restore_fault \<Rightarrow> string \<Rightarrow> string \<Rightarrow> fs \<Rightarrow> fs \<times> (backup_error + string)" where
  "RestoreIfMissing flt dbPath backupDir d =
     (if flt = StatFault then (d, Inl StatFailed)
      else if fmlookup d dbPath \<noteq> None then (d, Inr [])
      else case LatestBackup backupDir d of
        Inl e \<Rightarrow> (d, Inl e)
      | Inr latest \<Rightarrow>
          if latest = [] then (d, Inr [])
          else if flt = RestoreMkdirFault then (d, Inl MkdirFailed)
          else case os_ReadFile d latest of
            Contents data \<Rightarrow>
              (let tmp = dbPath @ ''.restore'' in
               case flt of
                 RestoreWriteFault k \<Rightarrow> (fmupd tmp (Plain (take k data)) d, Inl RestoreWriteFailed)
               | _ \<Rightarrow>
                 (let d1 = fmupd tmp (Plain data) d
                  in if flt = RestoreSyncFault then (d1, Inl SyncFailed)
                     else if flt = RestoreRenameFault then (d1, Inl PublishFailed)
                     else (os_Rename tmp dbPath d1, Inr latest)))
          | _ \<Rightarrow> (d, Inl ReadFailed))"

section \<open>Names\<close>

lemma append_less_append:
  fixes x x' s s' :: string
  assumes "length x = length x'"
  shows "x @ s < x' @ s' \<longleftrightarrow> x < x' \<or> x = x' \<and> s < s'"
  using assms by (induction x x' rule: list_induct2) auto

lemma digit_less: "m < n \<Longrightarrow> n < 10 \<Longrightarrow> digit m < digit n"
  by (simp add: less_char_def digit_def)

lemma pad_less: "a < b \<Longrightarrow> b < 10 ^ w \<Longrightarrow> pad w a < pad w b"
proof (induction w arbitrary: a b)
  case 0
  then show ?case by simp
next
  case (Suc w)
  have ten: "x = x div 10 * 10 + x mod 10" for x :: nat by simp
  have "a div 10 \<le> b div 10" using Suc.prems(1) by (simp add: div_le_mono)
  then consider "a div 10 < b div 10" | "a div 10 = b div 10" by linarith
  then show ?case
  proof cases
    case 1
    then have "pad w (a div 10) < pad w (b div 10)" using Suc by (intro Suc.IH) auto
    then show ?thesis by (simp add: append_less_append)
  next
    case 2
    then have "a mod 10 < b mod 10" using Suc.prems(1) ten [of a] ten [of b] by linarith
    with 2 show ?thesis by (simp add: append_less_append digit_less)
  qed
qed

text \<open>The fields of a name, and their order.\<close>

definition date_of :: "int \<Rightarrow> nat list" where
  "date_of day = (let y = year_of day; doy = day - year_start y; m = month_of (leap y) doy
     in [nat y, m, nat (doy - month_start (leap y) m + 1)])"

definition clock_of :: "nat \<Rightarrow> nat list" where
  "clock_of sec = [sec div 3600, sec div 60 mod 60, sec mod 60]"

lemma clock_of_less:
  assumes "s < s'"
  shows "clock_of s < clock_of s'"
proof -
  have c: "x div 3600 = x div 60 div 60" "x = x div 60 * 60 + x mod 60" "x div 60 = x div 60 div 60 * 60 + x div 60 mod 60" for x :: nat
    by (simp add: div_mult2_eq [symmetric], rule div_mult_mod_eq [symmetric], rule div_mult_mod_eq [symmetric])
  have "s div 60 \<le> s' div 60" using assms by (simp add: div_le_mono)
  then consider "s div 60 < s' div 60" | "s div 60 = s' div 60" "s mod 60 < s' mod 60"
    using assms c(2) [of s] c(2) [of s'] by linarith
  then show ?thesis
  proof cases
    case 1
    then have "s div 60 div 60 \<le> s' div 60 div 60" by (simp add: div_le_mono)
    then consider "s div 60 div 60 < s' div 60 div 60" | "s div 60 div 60 = s' div 60 div 60" "s div 60 mod 60 < s' div 60 mod 60"
      using 1 c(3) [of s] c(3) [of s'] by linarith
    then show ?thesis by cases (simp_all add: clock_of_def c(1))
  next
    case 2
    then show ?thesis by (simp add: clock_of_def c(1))
  qed
qed

lemma date_facts:
  assumes "0 \<le> year_of day"
  defines "y \<equiv> year_of day"
  defines "m \<equiv> month_of (leap y) (day - year_start y)"
  shows "year_start y \<le> day" "day < year_start (y + 1)" "1 \<le> m" "m \<le> 12"
    "month_start (leap y) m \<le> day - year_start y" "day - year_start y < month_start (leap y) (m + 1)"
proof -
  show y: "year_start y \<le> day" "day < year_start (y + 1)"
    using year_of_bounds [OF year_of_lower [OF assms(1)]] by (simp_all add: y_def)
  have "day - year_start y < (if leap y then 366 else 365)"
    using y by (simp add: year_start_Suc)
  from month_of_bounds [OF _ this] y(1) show "1 \<le> m" "m \<le> 12" "month_start (leap y) m \<le> day - year_start y"
      "day - year_start y < month_start (leap y) (m + 1)"
    by (simp_all add: m_def)
qed

lemma month_of_mono: "d \<le> d' \<Longrightarrow> month_of lp d \<le> month_of lp d'"
proof -
  assume "d \<le> d'"
  then have "filter (\<lambda>m. month_start lp m \<le> d) [1..<13] = filter (\<lambda>m. month_start lp m \<le> d) (filter (\<lambda>m. month_start lp m \<le> d') [1..<13])"
    by (auto simp: intro!: filter_cong)
  then show ?thesis unfolding month_of_def by (metis length_filter_le)
qed

lemma date_of_less:
  assumes "0 \<le> year_of day" "day < day'" "0 \<le> year_of day'"
  shows "date_of day < date_of day'"
proof -
  let ?y = "year_of day" and ?z = "year_of day'"
  note f = date_facts [OF assms(1)] and g = date_facts [OF assms(3)]
  have "?y \<le> ?z"
  proof (rule ccontr)
    assume "\<not> ?y \<le> ?z"
    then have "year_start (?z + 1) \<le> year_start ?y" by (intro year_start_mono) simp
    with f(1) g(2) assms(2) show False by simp
  qed
  then consider "?y < ?z" | "?y = ?z" by linarith
  then show ?thesis
  proof cases
    case 1
    then show ?thesis using assms(1) by (simp add: date_of_def Let_def)
  next
    case 2
    have "month_of (leap ?y) (day - year_start ?y) \<le> month_of (leap ?y) (day' - year_start ?y)"
      using assms(2) by (intro month_of_mono) simp
    with 2 f(5) assms(2) show ?thesis by (auto simp: date_of_def Let_def)
  qed
qed

lemma pads_less:
  assumes "[a, b, c] < [a', b', c'] \<or> [a, b, c] = [a', b', c'] \<and> s < s'"
    and "a' < 10 ^ k" "b' < 100" "c' < 100"
  shows "pad k a @ pad 2 b @ pad 2 c @ s < pad k a' @ pad 2 b' @ pad 2 c' @ s'"
  using assms by (auto simp: append_less_append pad_less simp del: pad.simps)

lemma stamp_parts:
  assumes "date_of (t div 86400000000000) = [y, m, d]"
  shows "backup_stamp t = pad 4 y @ pad 2 m @ pad 2 d @ ''T'' @
    (case clock_of (nat (t mod 86400000000000) div 1000000000) of [h, i, s] \<Rightarrow> pad 2 h @ pad 2 i @ pad 2 s @ ''Z'')"
  using assms by (auto simp: backup_stamp_def date_of_def clock_of_def Let_def simp del: pad.simps)

lemma split_day:
  fixes t :: int
  shows "t div 86400000000000 = t div 1000000000 div 86400"
    and "nat (t mod 86400000000000) div 1000000000 = nat (t div 1000000000 mod 86400)"
proof -
  show "t div 86400000000000 = t div 1000000000 div 86400"
    by (simp add: zdiv_zmult2_eq [symmetric])
  have "t mod (1000000000 * 86400) = 1000000000 * (t div 1000000000 mod 86400) + t mod 1000000000"
    by (rule zmod_zmult2_eq) simp
  then have "t mod 86400000000000 div 1000000000 = t div 1000000000 mod 86400" by simp
  then show "nat (t mod 86400000000000) div 1000000000 = nat (t div 1000000000 mod 86400)"
    by (metis nat_div_distrib' nat_numeral zero_le_numeral)
qed

lemma day_split:
  fixes a b :: int
  assumes "a < b"
  shows "a div 86400 < b div 86400 \<or> a div 86400 = b div 86400 \<and> nat (a mod 86400) < nat (b mod 86400)"
proof (cases "a div 86400 = b div 86400")
  case True
  then have "a mod 86400 < b mod 86400"
    using assms by (simp add: minus_div_mult_eq_mod [symmetric])
  with True show ?thesis by (simp add: nat_less_eq_zless)
next
  case False
  with zdiv_mono1 [of a b 86400] assms show ?thesis by simp
qed

lemma date_of_cases:
  assumes "rfc3339_ok t"
  obtains y m d where "date_of (t div 86400000000000) = [y, m, d]" "y < 10 ^ 4" "m < 100" "d < 100"
proof -
  let ?day = "t div 86400000000000"
  have ok: "0 \<le> year_of ?day" "year_of ?day \<le> 9999" using assms by (simp_all add: rfc3339_ok_def Let_def)
  let ?y = "year_of ?day" and ?doy = "?day - year_start (year_of ?day)"
  let ?m = "month_of (leap ?y) ?doy"
  note f = date_facts [OF ok(1)]
  from month_length [OF f(3,4), of "leap ?y"] f(5,6) have "nat (?doy - month_start (leap ?y) ?m + 1) < 100" by linarith
  moreover have "nat ?y < 10 ^ 4" using ok by simp
  ultimately show thesis
    using that [of "nat ?y" ?m "nat (?doy - month_start (leap ?y) ?m + 1)"] f(4)
    by (simp add: date_of_def Let_def)
qed

text \<open>Names of backups are ordered as their times are, to the second.\<close>

lemma backup_stamp_less:
  assumes "rfc3339_ok t" "rfc3339_ok u" "t div 1000000000 < u div 1000000000"
  shows "backup_stamp t < backup_stamp u"
proof -
  obtain y m d where t: "date_of (t div 86400000000000) = [y, m, d]"
    using date_of_cases [OF assms(1)] .
  obtain y' m' d' where u: "date_of (u div 86400000000000) = [y', m', d']" "y' < 10 ^ 4" "m' < 100" "d' < 100"
    using date_of_cases [OF assms(2)] .
  let ?s = "nat (t mod 86400000000000) div 1000000000" and ?s' = "nat (u mod 86400000000000) div 1000000000"
  have ok: "0 \<le> year_of (t div 86400000000000)" "0 \<le> year_of (u div 86400000000000)"
    using assms(1,2) by (simp_all add: rfc3339_ok_def Let_def)
  have s': "?s' < 86400" unfolding split_day(2) by simp
  consider "t div 86400000000000 < u div 86400000000000" |
      "t div 86400000000000 = u div 86400000000000" "?s < ?s'"
    using day_split [OF assms(3)] unfolding split_day by blast
  then have "[y, m, d] < [y', m', d'] \<or> [y, m, d] = [y', m', d'] \<and> clock_of ?s < clock_of ?s'"
  proof cases
    case 1
    from date_of_less [OF ok(1) this ok(2)] show ?thesis by (simp only: t u(1) simp_thms)
  next
    case 2
    then show ?thesis using t u(1) clock_of_less by simp
  qed
  moreover have "clock_of ?s < clock_of ?s' \<Longrightarrow>
      ''T'' @ (case clock_of ?s of [h, i, s] \<Rightarrow> pad 2 h @ pad 2 i @ pad 2 s @ ''Z'') <
      ''T'' @ (case clock_of ?s' of [h, i, s] \<Rightarrow> pad 2 h @ pad 2 i @ pad 2 s @ ''Z'')"
    using s' by (simp add: clock_of_def pads_less [of _ _ _ _ _ _ "''Z''" "''Z''" 2] del: pad.simps)
  ultimately show ?thesis
    unfolding stamp_parts [OF t] stamp_parts [OF u(1)] using u(2-4) by (intro pads_less) auto
qed

lemma backup_stamp_cong: "t div 1000000000 = u div 1000000000 \<Longrightarrow> backup_stamp t = backup_stamp u"
  unfolding backup_stamp_def split_day by simp

lemma backup_path_less:
  assumes "backup_stamp t < backup_stamp u"
  shows "backup_path dir t < backup_path dir u"
proof -
  have l: "length (backup_stamp t) = length (backup_stamp u)"
    by (simp add: backup_stamp_def Let_def)
  show ?thesis
    using assms unfolding backup_path_def by (simp add: append_less_append append_less_append [OF l])
qed

section \<open>The snapshots of a directory\<close>

definition plain_dir :: "string \<Rightarrow> bool" where
  "plain_dir dir \<longleftrightarrow> list_all (\<lambda>c. c \<notin> {CHR ''*'', CHR ''?'', CHR ''['', CHR 0x5C}) dir"

definition is_backup :: "string \<Rightarrow> string \<Rightarrow> bool" where
  "is_backup dir f \<longleftrightarrow> (\<exists>x. f = dir @ ''/state-'' @ x @ ''.db'' \<and> CHR ''/'' \<notin> set x)"

lemma glob_parse_plain: "plain_dir w \<Longrightarrow> length w < n \<Longrightarrow> glob_parse n w = Some (map GChar w)"
proof (induction w arbitrary: n)
  case Nil
  then show ?case by (cases n) simp_all
next
  case (Cons c w)
  then show ?case by (cases n) (simp_all add: plain_dir_def)
qed

lemma glob_match_chars: "glob_match (map GChar w @ p) s \<longleftrightarrow> (\<exists>t. s = w @ t \<and> glob_match p t)"
proof (induction w arbitrary: s)
  case Nil
  then show ?case by simp
next
  case (Cons c w)
  then show ?case by (cases s) auto
qed

lemma glob_match_star: "glob_match (GStar # p) s \<longleftrightarrow> (\<exists>a b. s = a @ b \<and> glob_match p b)"
proof (induction s)
  case Nil
  then show ?case by simp
next
  case (Cons c s)
  have "(\<exists>a b. c # s = a @ b \<and> glob_match p b) \<longleftrightarrow> glob_match p (c # s) \<or> (\<exists>a b. s = a @ b \<and> glob_match p b)"
    by (metis append_Cons append_eq_Cons_conv)
  with Cons.IH show ?case by simp
qed

lemma parse_backupPattern: "glob_component backupPattern = Some (map GChar ''state-'' @ GStar # map GChar ''.db'')"
  by code_simp

lemma match_backupPattern:
  "glob_match (map GChar ''state-'' @ GStar # map GChar ''.db'') f \<longleftrightarrow> (\<exists>x. f = ''state-'' @ x @ ''.db'')"
  using glob_match_chars [of "''.db''" "[]"] by (auto simp: glob_match_chars glob_match_star simp del: list.map)

lemma split_on_elem: "w \<in> set (split_on c s) \<Longrightarrow> c \<notin> set w"
  by (induction s arbitrary: w) (auto split: if_splits list.splits)

lemma split_on_nonempty [simp]: "split_on c s \<noteq> []"
  by (induction s) (auto split: list.split)

lemma split_on_snoc: "c \<notin> set w \<Longrightarrow> split_on c (d @ c # w) = split_on c d @ [w]"
  by (induction d) (auto simp: split_on_last split: list.split)

lemma split_on_join: "concat (map (Cons c) (split_on c s)) = c # s"
proof (induction s)
  case (Cons x s)
  then show ?case by (cases "split_on c s") auto
qed simp

lemma split_on_eq_snoc: "split_on c f = split_on c d @ [w] \<longleftrightarrow> f = d @ c # w \<and> c \<notin> set w"
proof
  assume l: "split_on c f = split_on c d @ [w]"
  then have "c # f = concat (map (Cons c) (split_on c d)) @ c # w"
    using split_on_join [of c f] by simp
  then have "f = d @ c # w" by (simp add: split_on_join)
  moreover have "c \<notin> set w" using split_on_elem [of w c f] l by simp
  ultimately show "f = d @ c # w \<and> c \<notin> set w" ..
qed (simp add: split_on_snoc)

lemma glob_component_plain: "plain_dir w \<Longrightarrow> glob_component w = Some (map GChar w)"
  unfolding glob_component_def by (rule glob_parse_plain) simp_all

lemma those_plain: "list_all plain_dir ws \<Longrightarrow> those (map glob_component ws) = Some (map (map GChar) ws)"
  by (induction ws) (simp_all add: glob_component_plain)

text \<open>\<open>sort.Strings\<close> leaves a sorted slice alone.\<close>

lemma sink_id: "\<forall>y \<in> set ys. \<not> lt x y \<Longrightarrow> sink lt x ys = x # ys"
  by (cases ys) simp_all

lemma sort_slice_id:
  fixes xs :: "'a::linorder list"
  assumes "sorted xs"
  shows "sort_slice (<) xs = xs"
proof -
  have "fold (sink (<)) xs acc = rev xs @ acc" if "\<forall>x \<in> set xs. \<forall>y \<in> set acc. y \<le> x" for acc
    using that assms
  proof (induction xs arbitrary: acc)
    case (Cons x xs)
    then have "sink (<) x acc = x # acc" by (intro sink_id) force
    with Cons show ?case by simp
  qed simp
  from this [of "[]"] show ?thesis by (simp add: sort_slice_def)
qed

lemma those_append: "those (xs @ ys) = Option.bind (those xs) (\<lambda>a. map_option (append a) (those ys))"
proof (induction xs)
  case Nil
  then show ?case by (cases "those ys") simp_all
next
  case (Cons x xs)
  then show ?case by (cases x; cases "those xs"; cases "those ys") simp_all
qed

lemma split_on_plain: "plain_dir d \<Longrightarrow> list_all plain_dir (split_on c d)"
  by (induction d) (auto simp: plain_dir_def split: list.split)

definition snapshots :: "string \<Rightarrow> fs \<Rightarrow> string list" where
  "snapshots dir d = filter (is_backup dir) (sorted_list_of_fset (fmdom d))"

lemma listBackups_plain:
  assumes "plain_dir dir"
  shows "listBackups dir d = Inr (snapshots dir d)"
proof -
  let ?star = "map GChar ''state-'' @ GStar # map GChar ''.db''" and ?ds = "map (map GChar) (split_on (CHR ''/'') dir)"
  have "CHR ''/'' \<notin> set backupPattern" by code_simp
  then have split: "split_on (CHR ''/'') (dir @ ''/'' @ backupPattern) = split_on (CHR ''/'') dir @ [backupPattern]"
    by (simp add: split_on_snoc)
  have pat: "those (map glob_component (split_on (CHR ''/'') (dir @ ''/'' @ backupPattern))) = Some (?ds @ [?star])"
    unfolding split map_append those_append those_plain [OF split_on_plain [OF assms]] using parse_backupPattern by simp
  have m: "list_all2 glob_match (?ds @ [?star]) ws \<longleftrightarrow> (\<exists>w. ws = split_on (CHR ''/'') dir @ [w] \<and> glob_match ?star w)" for ws
  proof -
    have "list_all2 glob_match (map (map GChar) us) vs \<longleftrightarrow> vs = us" for us vs
      using glob_match_chars [of _ "[]"] by (induction us arbitrary: vs) (auto simp: list_all2_Cons1)
    then show ?thesis by (auto simp: list_all2_append1 list_all2_Cons1 simp del: list.map)
  qed
  have "list_all2 glob_match (?ds @ [?star]) (split_on (CHR ''/'') f) \<longleftrightarrow> is_backup dir f" for f
    unfolding m split_on_eq_snoc match_backupPattern is_backup_def by auto
  then have g: "filepath_Glob (dir @ ''/'' @ backupPattern) d = Some (filter (is_backup dir) (sorted_list_of_fset (fmdom d)))"
    unfolding filepath_Glob_def pat by (simp del: list.map)
  let ?fs = "filter (is_backup dir) (sorted_list_of_fset (fmdom d))"
  have "sort_slice (<) ?fs = ?fs"
    by (rule sort_slice_id) (simp_all add: sorted_list_of_fset.rep_eq sorted_wrt_filter)
  then show ?thesis unfolding listBackups_def g snapshots_def by simp
qed

lemma set_snapshots: "set (snapshots dir d) = {f. is_backup dir f \<and> fmlookup d f \<noteq> None}"
  by (auto simp: snapshots_def sorted_list_of_fset.rep_eq fmlookup_dom_iff)

lemma sorted_snapshots [simp]: "sorted (snapshots dir d)" "distinct (snapshots dir d)"
  by (simp_all add: snapshots_def sorted_list_of_fset.rep_eq sorted_wrt_filter)

lemma snapshots_eqI: "sorted xs \<Longrightarrow> distinct xs \<Longrightarrow> set xs = set (snapshots dir d) \<Longrightarrow> snapshots dir d = xs"
  using sorted_distinct_set_unique [of "snapshots dir d" xs] by simp

lemma pad_no_slash: "c \<in> set (pad w n) \<Longrightarrow> is_digit c"
  using all_digits_pad [of w n] by (simp add: list_all_iff)

lemma is_backup_path: "is_backup dir (backup_path dir now)"
proof -
  have "CHR ''/'' \<notin> set (pad w n)" for w n
    using pad_no_slash [of "CHR ''/''" w n] by (auto simp: is_digit_def)
  then have "CHR ''/'' \<notin> set (backup_stamp now)"
    by (simp add: backup_stamp_def Let_def del: pad.simps)
  then show ?thesis by (auto simp: is_backup_def backup_path_def)
qed

lemma tmp_no_backup: "\<not> is_backup dir (backup_path dir now @ ''.tmp'')"
proof
  assume "is_backup dir (backup_path dir now @ ''.tmp'')"
  then obtain x where "backup_path dir now @ ''.tmp'' = (dir @ ''/state-'' @ x @ ''.d'') @ [CHR ''b'']"
    by (auto simp: is_backup_def)
  then have "last (backup_path dir now @ ''.tmp'') = CHR ''b''" by (metis last_snoc)
  then show False by simp
qed

section \<open>Pruning\<close>

lemma prune_loop_result:
  "prune_loop None keep bs d = (fold fmdrop (take (length bs - nat keep) bs) d, None)"
proof (induction bs arbitrary: d)
  case (Cons b bs)
  show ?case
  proof (cases "int (length (b # bs)) > keep")
    case True
    then have "length (b # bs) - nat keep = Suc (length bs - nat keep)"
      by (cases "0 \<le> keep") auto
    with True Cons.IH show ?thesis by simp
  next
    case False
    then have "length (b # bs) - nat keep = 0" by linarith
    with False show ?thesis by simp
  qed
qed simp

lemma fold_fmdrop_lookup [simp]: "fmlookup (fold fmdrop bs d) f = (if f \<in> set bs then None else fmlookup d f)"
  by (induction bs arbitrary: d) auto

lemma prune_snapshots:
  assumes "plain_dir dir"
  shows "pruneBackups None dir keep d =
    (fold fmdrop (take (if keep \<le> 0 then 0 else length (snapshots dir d) - nat keep) (snapshots dir d)) d, None)"
  by (simp add: pruneBackups_def listBackups_plain [OF assms] prune_loop_result)

lemma snapshots_dropped: "snapshots dir (fold fmdrop (take k (snapshots dir d)) d) = drop k (snapshots dir d)"
proof (rule snapshots_eqI)
  show "sorted (drop k (snapshots dir d))" "distinct (drop k (snapshots dir d))"
    by (simp_all add: sorted_wrt_drop)
  have "set (drop k (snapshots dir d)) = set (snapshots dir d) - set (take k (snapshots dir d))"
    using set_take_disj_set_drop_if_distinct [OF sorted_snapshots(2), of k k dir d]
      set_append [of "take k (snapshots dir d)" "drop k (snapshots dir d)"] by auto
  then show "set (drop k (snapshots dir d)) = set (snapshots dir (fold fmdrop (take k (snapshots dir d)) d))"
    by (auto simp: set_snapshots dest: in_set_takeD)
qed

text \<open>The snapshots there are once the new one is published, and what remains of them.\<close>

definition published :: "string \<Rightarrow> time \<Rightarrow> fs \<Rightarrow> string list" where
  "published dir now d = insort_insert (backup_path dir now) (snapshots dir d)"

lemma set_published [simp]: "set (published dir now d) = insert (backup_path dir now) (set (snapshots dir d))"
  by (simp add: published_def set_insort_insert)

lemma sorted_published [simp]: "sorted (published dir now d)" "distinct (published dir now d)"
  by (simp_all add: published_def sorted_insort_insert distinct_insort_insert)

definition kept :: "int \<Rightarrow> string list \<Rightarrow> string list" where
  "kept keep bs = drop (if keep \<le> 0 then 0 else length bs - nat keep) bs"

lemma Backup_result:
  assumes "plain_dir dir" and final_def: "final = backup_path dir now"
    and d'_def: "d' = fold fmdrop (take (if keep \<le> 0 then 0 else length (published dir now d) - nat keep) (published dir now d))
      (fmupd final (Plain (vacuum st)) (fmdrop (final @ ''.tmp'') d))"
  shows "Backup vacuum AllWell st dir keep now d = (d', final, None)" and "snapshots dir d' = kept keep (published dir now d)"
proof -
  let ?tmp = "final @ ''.tmp''"
  let ?d2 = "fmupd final (Plain (vacuum st)) (fmdrop ?tmp d)"
  have ren: "os_Rename ?tmp final (fmupd ?tmp (Plain (vacuum st)) (fmdrop ?tmp d)) = ?d2"
    by (auto simp: os_Rename_def intro!: fmap_ext)
  have pub: "snapshots dir ?d2 = published dir now d"
  proof (rule snapshots_eqI)
    show "sorted (published dir now d)" "distinct (published dir now d)"
      by (rule sorted_published)+
    show "set (published dir now d) = set (snapshots dir ?d2)"
      using is_backup_path [of dir now] tmp_no_backup [of dir now]
      by (auto simp: set_snapshots final_def)
  qed
  show "Backup vacuum AllWell st dir keep now d = (d', final, None)"
    unfolding Backup_def d'_def
    by (simp add: Let_def final_def [symmetric] ren prune_snapshots [OF assms(1)] pub)
  show "snapshots dir d' = kept keep (published dir now d)"
    unfolding d'_def kept_def pub [symmetric] snapshots_dropped ..
qed

section \<open>Properties\<close>

lemma Backup_kept:
  assumes "plain_dir dir" "Backup vacuum AllWell st dir keep now d = (d', final, err)"
  shows "err = None \<and> snapshots dir d' = kept keep (published dir now d) \<and>
    (\<forall>f. f \<noteq> final @ ''.tmp'' \<and> f \<notin> set (published dir now d) - set (snapshots dir d') \<longrightarrow>
      fmlookup d' f = (if f = final then Some (Plain (vacuum st)) else fmlookup d f))"
proof -
  let ?n = "if keep \<le> 0 then 0 else length (published dir now d) - nat keep"
  let ?p = "published dir now d"
  note r = Backup_result [where vacuum = vacuum and st = st and keep = keep and now = now and d = d, OF assms(1) refl refl]
  have d': "d' = fold fmdrop (take ?n ?p) (fmupd final (Plain (vacuum st)) (fmdrop (final @ ''.tmp'') d))"
    and e: "err = None" "final = backup_path dir now" "snapshots dir d' = drop ?n ?p"
    using assms(2) r by (auto simp: kept_def)
  have "f \<notin> set (take ?n ?p)" if "f \<notin> set ?p - set (snapshots dir d')" for f
  proof
    assume f: "f \<in> set (take ?n ?p)"
    then have "f \<in> set (drop ?n ?p)" using that e(3) by (auto dest: in_set_takeD)
    with f show False
      using set_take_disj_set_drop_if_distinct [of ?p ?n ?n] by auto
  qed
  then show ?thesis using e by (auto simp: kept_def d')
qed

text \<open>A snapshot of no earlier second than the others is the last of them by name.\<close>

lemma last_published:
  assumes "rfc3339_ok now"
    and "\<And>f. f \<in> set (snapshots dir d) \<Longrightarrow>
      \<exists>t. rfc3339_ok t \<and> t div 1000000000 \<le> now div 1000000000 \<and> f = backup_path dir t"
  shows "last (published dir now d) = backup_path dir now" "published dir now d \<noteq> []"
proof -
  let ?p = "published dir now d" and ?final = "backup_path dir now"
  have le: "f \<le> ?final" if f: "f \<in> set ?p" for f
  proof (cases "f = ?final")
    case False
    then obtain t where t: "rfc3339_ok t" "t div 1000000000 \<le> now div 1000000000" "f = backup_path dir t"
      using f assms(2) by auto
    then consider "t div 1000000000 = now div 1000000000" | "t div 1000000000 < now div 1000000000" by linarith
    then show ?thesis
    proof cases
      case 1
      then show ?thesis using backup_stamp_cong [of t now] by (simp add: t(3) backup_path_def)
    next
      case 2
      then have "backup_stamp t < backup_stamp now" using t(1) assms(1) by (rule backup_stamp_less [rotated 2])
      then show ?thesis by (simp add: t(3) backup_path_less less_imp_le)
    qed
  qed simp
  have mem: "?final \<in> set ?p" by simp
  then have ne: "?p \<noteq> []" by force
  obtain ys z where "?p = ys @ [z]" using ne by (metis rev_exhaust)
  then have "?final \<le> last ?p" using sorted_published(1) [of dir now d] mem by (auto simp: sorted_append simp del: sorted_published)
  then show "last ?p = ?final" using le [of "last ?p"] last_in_set [OF ne] by simp
  show "?p \<noteq> []" by (rule ne)
qed

lemma backup_path_later:
  assumes "rfc3339_ok t" "rfc3339_ok u" "backup_path dir t < backup_path dir u"
  shows "t div 1000000000 < u div 1000000000"
proof (rule ccontr)
  assume "\<not> t div 1000000000 < u div 1000000000"
  then consider "u div 1000000000 = t div 1000000000" | "u div 1000000000 < t div 1000000000" by linarith
  then have "backup_path dir u \<le> backup_path dir t"
  proof cases
    case 1
    then show ?thesis using backup_stamp_cong [of u t] by (simp add: backup_path_def)
  next
    case 2
    then show ?thesis using backup_path_less backup_stamp_less [OF assms(2,1) 2] by (simp add: less_imp_le)
  qed
  with assms(3) show False by simp
qed

lemma kept_last: "p \<noteq> [] \<Longrightarrow> kept keep p \<noteq> [] \<and> last (kept keep p) = last p"
  by (cases p) (auto simp: kept_def last_drop)

lemma length_kept: "length (kept keep p) = (if keep \<le> 0 then length p else min (nat keep) (length p))"
  by (auto simp: kept_def)

lemma kept_above:
  assumes "sorted p" "distinct p" "f \<in> set (kept keep p)" "g \<in> set p" "g \<notin> set (kept keep p)"
  shows "g < f"
proof -
  let ?n = "if keep \<le> 0 then 0 else length p - nat keep"
  have p: "p = take ?n p @ kept keep p" by (simp add: kept_def)
  then have g: "g \<in> set (take ?n p)" using assms(4,5) by (metis Un_iff set_append)
  have "sorted (take ?n p @ kept keep p)" using p assms(1) by simp
  then have "g \<le> f" using g assms(3) by (simp add: sorted_append)
  with assms(3,5) show ?thesis by (metis order.not_eq_order_implies_strict)
qed

text \<open>
  C26: As long as the clock has not gone back behind a snapshot that is there, a backup that
  succeeds leaves in the directory the newest \<open>keep\<close> snapshots, or all of them when \<open>keep\<close> is not
  positive: the new one, with the bytes of the database, and of the old ones, unchanged, only
  those taken at a later second than every one that is gone. No other file changes but for the
  temporary one. \<open>taken\<close> tells when a snapshot was taken; \<open>backup_discarded\<close> below shows what
  happens when the clock has gone back.
\<close>

theorem Backup_keeps_newest:
  assumes "plain_dir dir" "rfc3339_ok now"
    and "\<And>f. f \<in> set (snapshots dir d) \<Longrightarrow>
      rfc3339_ok (taken f) \<and> taken f div 1000000000 \<le> now div 1000000000 \<and> f = backup_path dir (taken f)"
    and "Backup vacuum AllWell st dir keep now d = (d', final, err)"
  shows "err = None \<and> final = backup_path dir now \<and>
    final \<in> set (snapshots dir d') \<and> fmlookup d' final = Some (Plain (vacuum st)) \<and>
    length (snapshots dir d') = (let n = card (insert final (set (snapshots dir d))) in if keep \<le> 0 then n else min (nat keep) n) \<and>
    (\<forall>f \<in> set (snapshots dir d') - {final}. f \<in> set (snapshots dir d) \<and> fmlookup d' f = fmlookup d f \<and>
      (\<forall>g \<in> set (snapshots dir d) - set (snapshots dir d'). taken g div 1000000000 < taken f div 1000000000)) \<and>
    (\<forall>f. \<not> is_backup dir f \<and> f \<noteq> final @ ''.tmp'' \<longrightarrow> fmlookup d' f = fmlookup d f)"
proof -
  let ?p = "published dir now d"
  have final: "final = backup_path dir now"
    using Backup_result(1) [where vacuum = vacuum and st = st and keep = keep and now = now and d = d, OF assms(1) refl refl] assms(4) by simp
  note r = Backup_kept [OF assms(1,4)]
  have snaps: "snapshots dir d' = kept keep ?p" using r by blast
  have "\<exists>t. rfc3339_ok t \<and> t div 1000000000 \<le> now div 1000000000 \<and> f = backup_path dir t" if "f \<in> set (snapshots dir d)" for f
    using assms(3) [OF that] by blast
  note last = last_published [OF assms(2) this]
  have mem: "final \<in> set (snapshots dir d')"
    using kept_last [where keep = keep, OF last(2)] last(1) last_in_set unfolding snaps final by metis
  have sub: "set (snapshots dir d') \<subseteq> insert final (set (snapshots dir d))"
    using set_drop_subset [of _ ?p] unfolding snaps kept_def final by (metis set_published)
  have n: "length ?p = card (insert final (set (snapshots dir d)))"
    using distinct_card [OF sorted_published(2) [of dir now d]] by (simp add: final)
  have later: "taken g div 1000000000 < taken f div 1000000000"
    if f: "f \<in> set (snapshots dir d')" "f \<in> set (snapshots dir d)" and g: "g \<in> set (snapshots dir d)" "g \<notin> set (snapshots dir d')" for f g
  proof -
    have "g < f" using kept_above [where keep = keep and f = f and g = g, OF sorted_published [of dir now d]] f g by (simp add: snaps)
    then show ?thesis using backup_path_later [of "taken g" "taken f" dir] assms(3) [OF f(2)] assms(3) [OF g(1)] by simp
  qed
  have same: "fmlookup d' f = fmlookup d f" if "f \<noteq> final" "f \<noteq> final @ ''.tmp''" "f \<in> set (snapshots dir d') \<or> \<not> is_backup dir f" for f
  proof -
    have "f \<notin> set ?p - set (snapshots dir d')" using that(1,3) by (auto simp: final set_snapshots)
    then show ?thesis using r that(1,2) by simp
  qed
  have tmp: "final @ ''.tmp'' \<notin> set (snapshots dir d')" using tmp_no_backup [of dir now] by (auto simp: set_snapshots final)
  have bytes: "fmlookup d' final = Some (Plain (vacuum st))" using r mem by auto
  have final_backup: "is_backup dir final" by (simp add: final is_backup_path)
  have other: "fmlookup d' f = fmlookup d f" if "\<not> is_backup dir f" "f \<noteq> final @ ''.tmp''" for f
    using that final_backup by (intro same) auto
  show ?thesis
    using mem sub later same tmp bytes r other by (auto simp: final [symmetric] snaps length_kept n Let_def)
qed

text \<open>
  C25: A controller that lost its disk comes back with the state of the last backup: when no
  snapshot in the directory carries a later second than the backup, restoring into a file
  system that has the same snapshots and no database leaves a database that opens with
  the very contents the backup was taken of.
\<close>

theorem backup_restore:
  assumes "plain_dir dir" "rfc3339_ok now"
    and "\<And>f. f \<in> set (snapshots dir d) \<Longrightarrow>
      \<exists>t. rfc3339_ok t \<and> t div 1000000000 \<le> now div 1000000000 \<and> f = backup_path dir t"
    and "Backup vacuum AllWell st dir keep now d = (d1, final, None)"
    and "\<And>f. is_backup dir f \<Longrightarrow> fmlookup d2 f = fmlookup d1 f" "fmlookup d2 dbPath = None"
    and "open_db (vacuum st) = Some st"
  shows "\<exists>d3 bytes. RestoreIfMissing NoRestoreFault dbPath dir d2 = (d3, Inr final) \<and>
    os_ReadFile d3 dbPath = Contents bytes \<and> open_db bytes = Some st"
proof -
  let ?p = "published dir now d"
  have final: "final = backup_path dir now" using Backup_result(1) [where vacuum = vacuum and st = st and keep = keep and now = now and d = d, OF assms(1) refl refl] assms(4) by simp
  have last: "last ?p = final" and ne: "?p \<noteq> []" using last_published [OF assms(2,3)] by (simp_all add: final)
  have kept: "kept keep ?p \<noteq> []" "last (kept keep ?p) = final"
    using kept_last [where keep = keep, OF ne] last by simp_all
  note r = Backup_kept [OF assms(1,4)]
  have "snapshots dir d2 = snapshots dir d1"
    by (rule snapshots_eqI) (auto simp: set_snapshots assms(5))
  then have "LatestBackup dir d2 = Inr final"
    using r kept by (simp add: LatestBackup_def listBackups_plain [OF assms(1)])
  moreover have "fmlookup d2 final = Some (Plain (vacuum st))"
  proof -
    have "final \<in> set (snapshots dir d1)" using r kept last_in_set by metis
    then show ?thesis using r assms(5) [OF is_backup_path] by (simp add: final)
  qed
  moreover have "final \<noteq> []" by (simp add: final backup_path_def)
  ultimately show ?thesis
    using assms(6,7) by (simp add: RestoreIfMissing_def os_ReadFile_def os_Rename_def Let_def)
qed

text \<open>
  C27: Restoring never touches a database that is there. Whichever call fails, a missing database
  stays missing or becomes the whole newest snapshot, and is that exactly when the call
  names the snapshot; no other file changes but for the temporary one.
\<close>

theorem restore_safe:
  assumes "RestoreIfMissing flt dbPath dir d = (d', r)"
  shows "(fmlookup d dbPath \<noteq> None \<longrightarrow> d' = d) \<and>
    (fmlookup d dbPath = None \<longrightarrow>
      (case r of
        Inr latest \<Rightarrow> if latest = [] then d' = d
          else LatestBackup dir d = Inr latest \<and> fmlookup d' dbPath = fmlookup d latest \<and> fmlookup d latest \<noteq> None
      | Inl e \<Rightarrow> fmlookup d' dbPath = None)) \<and>
    (\<forall>f. f \<noteq> dbPath \<and> f \<noteq> dbPath @ ''.restore'' \<longrightarrow> fmlookup d' f = fmlookup d f)"
  using assms
  by (auto simp: RestoreIfMissing_def os_ReadFile_def os_Rename_def Let_def
      split: if_splits option.splits sum.splits read.splits file_entry.splits restore_fault.splits)

text \<open>
  When the clock has gone back, so that enough snapshots carry later names than the new one, the
  new snapshot is itself the oldest by name: the backup reports success and its file is gone.
\<close>

theorem backup_discarded:
  assumes "plain_dir dir" "0 < keep" "keep \<le> int (length (snapshots dir d))"
    and "\<And>f. f \<in> set (snapshots dir d) \<Longrightarrow> backup_path dir now < f"
  shows "\<exists>d'. Backup vacuum AllWell st dir keep now d = (d', backup_path dir now, None) \<and>
    fmlookup d' (backup_path dir now) = None"
proof -
  let ?f = "backup_path dir now" and ?p = "published dir now d"
  have "?f \<notin> set (snapshots dir d)" using assms(4) by blast
  then have "?p = ?f # snapshots dir d"
    using assms(4) by (auto simp: published_def insort_insert_key_def intro!: insort_is_Cons less_imp_le)
  moreover have "nat keep \<le> length (snapshots dir d)" using assms(2,3) by linarith
  ultimately have "?f \<in> set (take (if keep \<le> 0 then 0 else length ?p - nat keep) ?p)"
    using assms(2) by (simp add: Suc_diff_le)
  then show ?thesis
    using Backup_result(1) [where vacuum = vacuum and st = st and keep = keep and now = now and d = d, OF assms(1) refl refl] by simp
qed

text \<open>A directory whose name ends in brackets, such as \<open>/mnt/nas[1]\<close>.\<close>

definition class_chars :: "string \<Rightarrow> bool" where
  "class_chars cs \<longleftrightarrow> cs \<noteq> [] \<and> list_all (\<lambda>c. c \<notin> {CHR ''-'', CHR '']'', CHR ''^'', CHR ''/'', CHR 0x5C}) cs"

lemma glob_class_chars:
  assumes "list_all (\<lambda>c. c \<notin> {CHR ''-'', CHR '']'', CHR ''^'', CHR ''/'', CHR 0x5C}) cs" "acc \<noteq> [] \<or> cs \<noteq> []" "length cs < n"
  shows "glob_class n acc (cs @ '']'') = Some (rev acc @ map (\<lambda>c. (c, c)) cs, [])"
  using assms
proof (induction cs arbitrary: n acc)
  case Nil
  then show ?case by (cases n) simp_all
next
  case (Cons c cs)
  obtain k where n: "n = Suc k" "length cs < k" using Cons.prems(3) by (cases n) simp_all
  have c: "c \<notin> {CHR ''-'', CHR '']'', CHR ''^'', CHR ''/'', CHR 0x5C}"
    and cs: "list_all (\<lambda>c. c \<notin> {CHR ''-'', CHR '']'', CHR ''^'', CHR ''/'', CHR 0x5C}) cs"
    using Cons.prems(1) by simp_all
  have "hd (cs @ '']'') \<noteq> CHR ''-''" using cs by (cases cs) simp_all
  with c Cons.IH [OF cs _ n(2), of "(c, c) # acc"] show ?case by (simp add: n)
qed

lemma glob_component_class:
  assumes "plain_dir pre" "class_chars cs"
  shows "glob_component (pre @ ''['' @ cs @ '']'') = Some (map GChar pre @ [GClass False (map (\<lambda>c. (c, c)) cs)])"
proof -
  have cls: "glob_class (length (cs @ '']'') + 1) [] (cs @ '']'') = Some (map (\<lambda>c. (c, c)) cs, [])"
    using assms(2) glob_class_chars [of cs "[]" "length (cs @ '']'') + 1"] by (simp add: class_chars_def)
  have hat: "hd (cs @ '']'') \<noteq> CHR ''^''" using assms(2) by (cases cs) (simp_all add: class_chars_def)
  have "glob_parse n (pre @ ''['' @ cs @ '']'') = Some (map GChar pre @ [GClass False (map (\<lambda>c. (c, c)) cs)])"
    if "length pre + 2 \<le> n" for n
    using assms(1) that
  proof (induction pre arbitrary: n)
    case Nil
    then obtain k where "n = Suc (Suc k)" by (metis add_2_eq_Suc le_add_diff_inverse list.size(3) plus_nat.add_0)
    with cls hat show ?case by (simp add: Let_def del: glob_class.simps)
  next
    case (Cons c pre)
    then show ?case by (cases n) (simp_all add: plain_dir_def del: glob_class.simps)
  qed
  then show ?thesis unfolding glob_component_def by (simp del: glob_parse.simps)
qed

lemma filter_keys_empty: "filter P (sorted_list_of_fset (fmdom d)) = [] \<longleftrightarrow> (\<forall>f. fmlookup d f \<noteq> None \<longrightarrow> \<not> P f)"
  by (auto simp: filter_empty_conv sorted_list_of_fset.rep_eq fmlookup_dom_iff)

lemma bracketed_unmatched:
  assumes "plain_dir b" "plain_dir pre" "CHR ''/'' \<notin> set pre" "class_chars cs"
    and "dir = b @ ''/'' @ pre @ ''['' @ cs @ '']''"
  shows "\<exists>ps. those (map glob_component (split_on (CHR ''/'') (dir @ ''/'' @ backupPattern))) = Some ps \<and>
    (\<forall>w. CHR ''/'' \<notin> set w \<longrightarrow> \<not> list_all2 glob_match ps (split_on (CHR ''/'') (dir @ CHR ''/'' # w)))"
proof -
  let ?n = "pre @ ''['' @ cs @ '']''" and ?ds = "map (map GChar) (split_on (CHR ''/'') b)"
  let ?c = "map GChar pre @ [GClass False (map (\<lambda>c. (c, c)) cs)]"
  let ?star = "map GChar ''state-'' @ GStar # map GChar ''.db''"
  have n: "CHR ''/'' \<notin> set ?n" using assms(3,4) by (auto simp: class_chars_def list_all_iff)
  have split: "split_on (CHR ''/'') (dir @ CHR ''/'' # w) = split_on (CHR ''/'') b @ [?n, w]" if "CHR ''/'' \<notin> set w" for w
    using split_on_snoc [OF that, of dir] split_on_snoc [OF n, of b] by (simp add: assms(5))
  have "CHR ''/'' \<notin> set backupPattern" by code_simp
  then have s: "split_on (CHR ''/'') (dir @ ''/'' @ backupPattern) = split_on (CHR ''/'') b @ [?n, backupPattern]"
    using split by simp
  have parsed: "those (map glob_component (split_on (CHR ''/'') (dir @ ''/'' @ backupPattern))) = Some (?ds @ [?c, ?star])"
    unfolding s map_append those_append those_plain [OF split_on_plain [OF assms(1)]]
    using parse_backupPattern glob_component_class [OF assms(2,4)] by simp
  have "\<not> glob_match ?c ?n"
  proof
    assume "glob_match ?c ?n"
    then have "glob_match [GClass False (map (\<lambda>c. (c, c)) cs)] (''['' @ cs @ '']'')"
      unfolding glob_match_chars by blast
    then have "cs @ '']'' = []" by simp
    then show False by simp
  qed
  moreover have "list_all2 glob_match (?ds @ [?c, ?star]) (split_on (CHR ''/'') b @ [?n, w]) \<longleftrightarrow>
      list_all2 glob_match ?ds (split_on (CHR ''/'') b) \<and> list_all2 glob_match [?c, ?star] [?n, w]" for w
    by (rule list_all2_append) simp
  ultimately have no: "\<not> list_all2 glob_match (?ds @ [?c, ?star]) (split_on (CHR ''/'') b @ [?n, w])" for w
    by (simp only: list_all2_Cons simp_thms)
  show ?thesis
  proof (intro exI conjI allI impI)
    show "those (map glob_component (split_on (CHR ''/'') (dir @ ''/'' @ backupPattern))) = Some (?ds @ [?c, ?star])"
      by (rule parsed)
    show "\<not> list_all2 glob_match (?ds @ [?c, ?star]) (split_on (CHR ''/'') (dir @ CHR ''/'' # w))"
      if "CHR ''/'' \<notin> set w" for w
      unfolding split [OF that] by (rule no)
  qed
qed

text \<open>
  The directory is used as a pattern. Where its name ends in a bracket expression, a backup
  succeeds and its file is there, yet the directory counts as empty: nothing is ever pruned
  and a controller that lost its disk starts empty, without an error.
\<close>

theorem backups_unseen:
  assumes "plain_dir b" "plain_dir pre" "CHR ''/'' \<notin> set pre" "class_chars cs"
    and "dir = b @ ''/'' @ pre @ ''['' @ cs @ '']''" "listBackups dir d = Inr []" "fmlookup d dbPath = None"
    and "dbPath \<noteq> backup_path dir now"
  shows "\<exists>d'. Backup vacuum AllWell st dir keep now d = (d', backup_path dir now, None) \<and>
    fmlookup d' (backup_path dir now) = Some (Plain (vacuum st)) \<and>
    RestoreIfMissing NoRestoreFault dbPath dir d' = (d', Inr [])"
proof -
  let ?f = "backup_path dir now"
  let ?d' = "fmupd ?f (Plain (vacuum st)) (fmdrop (?f @ ''.tmp'') d)"
  obtain ps where ps: "those (map glob_component (split_on (CHR ''/'') (dir @ ''/'' @ backupPattern))) = Some ps"
    and no: "\<And>w. CHR ''/'' \<notin> set w \<Longrightarrow> \<not> list_all2 glob_match ps (split_on (CHR ''/'') (dir @ CHR ''/'' # w))"
    using bracketed_unmatched [OF assms(1-5)] by blast
  obtain x where x: "?f = dir @ ''/state-'' @ x @ ''.db''" "CHR ''/'' \<notin> set x"
    using is_backup_path [of dir now] by (auto simp: is_backup_def)
  have "\<not> list_all2 glob_match ps (split_on (CHR ''/'') ?f)"
    using no [of "''state-'' @ x @ ''.db''"] x by simp
  moreover have "\<not> list_all2 glob_match ps (split_on (CHR ''/'') g)" if "fmlookup d g \<noteq> None" for g
  proof -
    have "filter (\<lambda>f. list_all2 glob_match ps (split_on (CHR ''/'') f)) (sorted_list_of_fset (fmdom d)) = []"
      using assms(6) ps by (simp add: listBackups_def filepath_Glob_def)
    then show ?thesis using that unfolding filter_keys_empty by blast
  qed
  ultimately have "filter (\<lambda>f. list_all2 glob_match ps (split_on (CHR ''/'') f)) (sorted_list_of_fset (fmdom ?d')) = []"
    unfolding filter_keys_empty by simp
  then have list: "listBackups dir ?d' = Inr []"
    using ps by (simp add: listBackups_def filepath_Glob_def)
  have "os_Rename (?f @ ''.tmp'') ?f (fmupd (?f @ ''.tmp'') (Plain (vacuum st)) (fmdrop (?f @ ''.tmp'') d)) = ?d'"
    by (auto simp: os_Rename_def intro!: fmap_ext)
  then have "Backup vacuum AllWell st dir keep now d = (?d', ?f, None)"
    using list by (simp add: Backup_def Let_def pruneBackups_def)
  moreover have "RestoreIfMissing NoRestoreFault dbPath dir ?d' = (?d', Inr [])"
    using list assms(7,8) by (simp add: RestoreIfMissing_def LatestBackup_def)
  ultimately show ?thesis by simp
qed

end
