(* ===== verification/Examples_Backup.thy ===== *)
theory Examples_Backup
  imports Examples_Api Backup
begin

text \<open>
  Backups of an empty database to \<open>/nas\<close> and to \<open>/nas[1]\<close>: the properties of backups applied at
  these values.
\<close>

definition dump :: "sqlite_store \<Rightarrow> string" where
  "dump st = (if t_nodes st = fmempty then ''empty'' else ''full'')"

definition earlier :: time where
  "earlier = t0 - 60 * second"

definition nas :: fs where
  "nas = fmap_of_list [(backup_path ''/nas'' earlier, Plain ''old'')]"

definition nas_after :: fs where
  "nas_after = fst (Backup dump AllWell OpenSQLite_empty ''/nas'' 1 t0 nas)"

definition undump :: "string \<Rightarrow> sqlite_store option" where
  "undump bytes = (if bytes = ''empty'' then Some OpenSQLite_empty else None)"

lemma undump: "undump (dump OpenSQLite_empty) = Some OpenSQLite_empty"
  by (simp add: undump_def dump_def OpenSQLite_empty_def)

lemma nas_plain: "plain_dir ''/nas''" "plain_dir []" "plain_dir ''nas''"
  by code_simp+

lemma times: "rfc3339_ok t0" "rfc3339_ok earlier" "earlier div 1000000000 < t0 div 1000000000"
  by code_simp+

lemma paths: "backup_path ''/nas'' earlier < backup_path ''/nas'' t0"
  using backup_path_less [OF backup_stamp_less [OF times(2,1,3)]] .

lemma nas_run: "Backup dump AllWell OpenSQLite_empty ''/nas'' 1 t0 nas = (nas_after, backup_path ''/nas'' t0, None)"
  using Backup_result(1) [where dir = "''/nas''" and vacuum = dump and st = OpenSQLite_empty and keep = 1 and now = t0 and d = nas,
      OF nas_plain(1) refl refl]
  by (simp add: nas_after_def)

lemma nas_snapshots: "snapshots ''/nas'' nas = [backup_path ''/nas'' earlier]"
  by (rule snapshots_eqI) (auto simp: set_snapshots nas_def is_backup_path)

lemma nas_kept: "kept 1 (published ''/nas'' t0 nas) = [backup_path ''/nas'' t0]"
proof -
  have "published ''/nas'' t0 nas = [backup_path ''/nas'' earlier, backup_path ''/nas'' t0]"
    using paths by (auto simp: published_def nas_snapshots insort_insert_key_def)
  then show ?thesis by (simp add: kept_def)
qed

lemma Backup_keeps_newest_witness:
  "backup_path ''/nas'' t0 \<in> set (snapshots ''/nas'' nas_after) \<and> length (snapshots ''/nas'' nas_after) = 1 \<and>
    fmlookup nas_after (backup_path ''/nas'' t0) = Some (Plain ''empty'')"
proof -
  have taken: "rfc3339_ok earlier \<and> earlier div 1000000000 \<le> t0 div 1000000000 \<and> f = backup_path ''/nas'' earlier"
    if "f \<in> set (snapshots ''/nas'' nas)" for f
    using that times(2,3) by (simp add: nas_snapshots)
  have "backup_path ''/nas'' t0 \<noteq> backup_path ''/nas'' earlier" using paths by simp
  moreover have "dump OpenSQLite_empty = ''empty''" by (simp add: dump_def OpenSQLite_empty_def)
  ultimately show ?thesis
    using Backup_keeps_newest [where taken = "\<lambda>_. earlier", OF nas_plain(1) times(1) taken nas_run]
    by (simp add: nas_snapshots Let_def)
qed

lemma backup_restore_witness:
  "\<exists>d3 bytes. RestoreIfMissing NoRestoreFault ''/var/state.db'' ''/nas'' nas_after = (d3, Inr (backup_path ''/nas'' t0)) \<and>
    os_ReadFile d3 ''/var/state.db'' = Contents bytes \<and> undump bytes = Some OpenSQLite_empty"
proof -
  have old: "\<exists>t. rfc3339_ok t \<and> t div 1000000000 \<le> t0 div 1000000000 \<and> f = backup_path ''/nas'' t"
    if "f \<in> set (snapshots ''/nas'' nas)" for f
    using that times(2,3) by (auto simp: nas_snapshots)
  have lost: "fmlookup nas_after ''/var/state.db'' = None"
    by code_simp
  show ?thesis
    by (rule backup_restore [where vacuum = dump and open_db = undump, OF nas_plain(1) times(1) old nas_run refl lost undump])
qed

lemma restore_safe_witness:
  "\<exists>d'. RestoreIfMissing (RestoreWriteFault 2) ''/var/state.db'' ''/nas'' nas_after = (d', Inl RestoreWriteFailed) \<and>
    fmlookup d' ''/var/state.db'' = None"
proof -
  have "snd (RestoreIfMissing (RestoreWriteFault 2) ''/var/state.db'' ''/nas'' nas_after) = Inl RestoreWriteFailed"
    and lost: "fmlookup nas_after ''/var/state.db'' = None"
    by code_simp+
  then obtain d' where r: "RestoreIfMissing (RestoreWriteFault 2) ''/var/state.db'' ''/nas'' nas_after = (d', Inl RestoreWriteFailed)"
    by (cases "RestoreIfMissing (RestoreWriteFault 2) ''/var/state.db'' ''/nas'' nas_after") simp
  from restore_safe [OF r] lost r show ?thesis by simp
qed

text \<open>The clock stands a minute back: the backup of that moment vanishes.\<close>

lemma backup_discarded_witness:
  "\<exists>d'. Backup dump AllWell OpenSQLite_empty ''/nas'' 1 earlier nas_after = (d', backup_path ''/nas'' earlier, None) \<and>
    fmlookup d' (backup_path ''/nas'' earlier) = None"
proof -
  have "snapshots ''/nas'' nas_after = [backup_path ''/nas'' t0]"
    using Backup_result [where dir = "''/nas''" and vacuum = dump and st = OpenSQLite_empty and keep = 1 and now = t0 and d = nas,
        OF nas_plain(1) refl refl] nas_kept by (simp add: nas_after_def)
  then show ?thesis
    using paths by (intro backup_discarded [OF nas_plain(1)]) simp_all
qed

lemma backups_unseen_witness:
  "\<exists>d'. Backup dump AllWell OpenSQLite_empty ''/nas[1]'' 24 t0 fmempty = (d', backup_path ''/nas[1]'' t0, None) \<and>
    fmlookup d' (backup_path ''/nas[1]'' t0) = Some (Plain (dump OpenSQLite_empty)) \<and>
    RestoreIfMissing NoRestoreFault ''/var/state.db'' ''/nas[1]'' d' = (d', Inr [])"
proof -
  have "listBackups ''/nas[1]'' fmempty = Inr []" "CHR ''/'' \<notin> set ''nas''" "class_chars ''1''"
    and db: "''/var/state.db'' \<noteq> backup_path ''/nas[1]'' t0" "fmlookup (fmempty :: fs) ''/var/state.db'' = None"
    by code_simp+
  from backups_unseen [OF nas_plain(2,3) this(2,3) _ this(1) db(2,1)] show ?thesis by simp
qed

end
