(* ===== verification/Containerd.thy ===== *)
theory Containerd
  imports Runtime "HOL-Library.Signed_Division"
begin

text \<open>
  \<open>runtime/containerd_linux.go\<close>: the runtime that drives containerd. The client library is the
  argument \<open>L\<close>. Each of its calls takes and returns the whole state, since other goroutines
  run while it blocks; the calls of an \<open>undisturbed\<close> library change the daemon only. A goroutine the code
  spawns waits in the state until a step runs it.
\<close>

section \<open>State\<close>

text \<open>
  The entries of \<open>watching\<close> are pointers, which \<open>Stop\<close> keeps using after the entry is gone, so
  the watches are on a heap. The phase of a new watch is the empty string. \<open>cx_runs\<close> are the
  goroutines of \<open>Start\<close>, \<open>cx_exits\<close> those of \<open>watchExit\<close> with their exit channel, \<open>cx_sent\<close> the calls
  of reporters so far.
\<close>

record 'r watch =
  wt_report :: 'r
  wt_phase :: assignment_phase
  wt_message :: string
  wt_stopping :: bool

record ('r, 'd) ctrd =
  cx_watching :: "(string, nat) fmap"
  cx_heap :: "'r watch list"
  cx_runs :: "assignment list"
  cx_exits :: "(assignment \<times> nat) list"
  cx_sent :: "'r report_call list"
  cx_logDir :: string
  cx_daemon :: 'd

abbreviation NoPhase :: assignment_phase where
  "NoPhase \<equiv> OtherPhase []"

section \<open>The client library\<close>

text \<open>Errors are told apart by \<open>errdefs.IsNotFound\<close> only.\<close>

datatype lib_error = NotFound string | OtherError string

fun err_text :: "lib_error \<Rightarrow> string" where
  "err_text (NotFound e) = e"
| "err_text (OtherError e) = e"

datatype signal = SIGTERM | SIGKILL

record mount =
  mnt_Type :: string
  mnt_Source :: string
  mnt_Destination :: string
  mnt_Options :: "string list"

datatype spec_opt =
  WithImageConfig string | WithHostNamespace string | WithHostHostsFile | WithHostResolvconf
  | WithProcessArgs "string list" | WithEnv "string list" | WithMounts "mount list"
  | WithMemoryLimit "64 word" | WithCPUCFS "64 word" "64 word"

record container_opts =
  co_image :: string
  co_snapshot :: string
  co_labels :: "(string, string) fmap"
  co_spec :: "spec_opt list"

type_synonym ('r, 'd, 'a) call = "('r, 'd) ctrd \<Rightarrow> ('r, 'd) ctrd \<times> (lib_error + 'a)"

text \<open>
  \<open>lib_Exit\<close> receives from an exit channel; \<open>lib_Select\<close> waits for one for the grace period and tells
  whether it delivered; \<open>lib_Sleep\<close> is \<open>time.Sleep\<close>. A container and its task are named by their ID,
  an image by its reference.
\<close>

record ('r, 'd) ctrd_lib =
  lib_ParseDockerRef :: "string \<Rightarrow> string + string"
  lib_GetImage :: "string \<Rightarrow> ('r, 'd, unit) call"
  lib_Pull :: "string \<Rightarrow> ('r, 'd, unit) call"
  lib_NewContainer :: "string \<Rightarrow> container_opts \<Rightarrow> ('r, 'd, unit) call"
  lib_LoadContainer :: "string \<Rightarrow> ('r, 'd, unit) call"
  lib_DeleteContainer :: "string \<Rightarrow> ('r, 'd, unit) call"
  lib_Containers :: "('r, 'd) ctrd \<Rightarrow> lib_error + string list"
  lib_Task :: "string \<Rightarrow> ('r, 'd, unit) call"
  lib_NewTask :: "string \<Rightarrow> string \<Rightarrow> ('r, 'd, unit) call"
  lib_Wait :: "string \<Rightarrow> ('r, 'd, nat) call"
  lib_Start :: "string \<Rightarrow> ('r, 'd, unit) call"
  lib_Status :: "string \<Rightarrow> ('r, 'd, string) call"
  lib_Kill :: "string \<Rightarrow> signal \<Rightarrow> ('r, 'd, unit) call"
  lib_DeleteTask :: "string \<Rightarrow> ('r, 'd, unit) call"
  lib_Exit :: "nat \<Rightarrow> ('r, 'd, 32 word) call"
  lib_Select :: "nat \<Rightarrow> ('r, 'd) ctrd \<Rightarrow> ('r, 'd) ctrd \<times> bool"
  lib_Sleep :: "duration \<Rightarrow> ('r, 'd) ctrd \<Rightarrow> ('r, 'd) ctrd"

text \<open>A call whose error the code wraps and returns, and an error that does not count.\<close>

definition attempt_call ::
  "string \<Rightarrow> ('r, 'd, 'a) call \<Rightarrow> ('a \<Rightarrow> ('r, 'd) ctrd \<Rightarrow> ('r, 'd) ctrd \<times> (string + 'b)) \<Rightarrow>
     ('r, 'd) ctrd \<Rightarrow> ('r, 'd) ctrd \<times> (string + 'b)" where
  "attempt_call what f k s = (case f s of
     (s1, Inl e) \<Rightarrow> (s1, Inl (what @ '': '' @ err_text e))
   | (s1, Inr x) \<Rightarrow> k x s1)"

fun ignore_missing :: "lib_error + unit \<Rightarrow> lib_error + unit" where
  "ignore_missing (Inl (NotFound e)) = Inr ()"
| "ignore_missing r = r"

definition unless_missing :: "('r, 'd, unit) call \<Rightarrow> ('r, 'd, unit) call" where
  "unless_missing f s = apsnd ignore_missing (f s)"

section \<open>Watches and reports\<close>

definition update_watch :: "nat \<Rightarrow> ('r watch \<Rightarrow> 'r watch) \<Rightarrow> ('r, 'd) ctrd \<Rightarrow> ('r, 'd) ctrd" where
  "update_watch p f s = s\<lparr>cx_heap := (cx_heap s)[p := f (cx_heap s ! p)]\<rparr>"

definition send_report :: "'r \<Rightarrow> assignment_phase \<Rightarrow> string \<Rightarrow> ('r, 'd) ctrd \<Rightarrow> ('r, 'd) ctrd" where
  "send_report r phase message s = s\<lparr>cx_sent := cx_sent s @ [(r, phase, message)]\<rparr>"

definition reportFor :: "string \<Rightarrow> assignment_phase \<Rightarrow> string \<Rightarrow> ('r, 'd) ctrd \<Rightarrow> ('r, 'd) ctrd" where
  "reportFor i phase message s = (case fmlookup (cx_watching s) i of
     None \<Rightarrow> s
   | Some p \<Rightarrow>
       let s1 = update_watch p (\<lambda>w. w\<lparr>wt_phase := phase, wt_message := message\<rparr>) s
       in send_report (wt_report (cx_heap s1 ! p)) phase message s1)"

definition forget :: "string \<Rightarrow> ('r, 'd) ctrd \<Rightarrow> ('r, 'd) ctrd" where
  "forget i s = s\<lparr>cx_watching := fmdrop i (cx_watching s)\<rparr>"

text \<open>\<open>w, ok := e.watching[id]\<close> and \<open>!ok || w.stopping\<close>.\<close>

definition released :: "string \<Rightarrow> ('r, 'd) ctrd \<Rightarrow> bool" where
  "released i s = (case fmlookup (cx_watching s) i of None \<Rightarrow> True | Some p \<Rightarrow> wt_stopping (cx_heap s ! p))"

definition logPath :: "string \<Rightarrow> ('r, 'd) ctrd \<Rightarrow> string" where
  "logPath i s = cx_logDir s @ ''/'' @ i @ ''.log''"

section \<open>Starting\<close>

definition containerdNamespace :: string where
  "containerdNamespace = ''k8''"

definition NewContainerdExecutor ::
  "string option \<Rightarrow> (string \<Rightarrow> string \<Rightarrow> lib_error + 'd) \<Rightarrow> string \<Rightarrow> string \<Rightarrow> string + ('r, 'd) ctrd" where
  "NewContainerdExecutor mkdir dial address logDir = (case mkdir of
     Some e \<Rightarrow> Inl (''create log dir: '' @ e)
   | None \<Rightarrow> (case dial address containerdNamespace of
       Inl e \<Rightarrow> Inl (''connect to containerd at '' @ address @ '': '' @ err_text e)
     | Inr d \<Rightarrow> Inr \<lparr>cx_watching = fmempty, cx_heap = [], cx_runs = [], cx_exits = [], cx_sent = [],
         cx_logDir = logDir, cx_daemon = d\<rparr>))"

text \<open>Go visits the map in any order, but the result is sorted.\<close>

definition envList :: "(string, string) fmap \<Rightarrow> string list" where
  "envList env = sort_slice (<) (map (\<lambda>(k, v). k @ ''='' @ v) (sorted_list_of_fmap env))"

definition bindMounts :: "volume list \<Rightarrow> mount list" where
  "bindMounts volumes = map (\<lambda>v. \<lparr>mnt_Type = ''bind'', mnt_Source = host_path v, mnt_Destination = mount_path v,
     mnt_Options = [''rbind'', ''rw'']\<rparr>) volumes"

definition cpuPeriodMicros :: "64 word" where
  "cpuPeriodMicros = 100000"

definition spec_opts :: "string \<Rightarrow> assignment \<Rightarrow> spec_opt list" where
  "spec_opts img a =
     [WithImageConfig img, WithHostNamespace ''network'', WithHostHostsFile, WithHostResolvconf] @
     (if elems (asg_command a) \<noteq> [] then [WithProcessArgs (elems (asg_command a))] else []) @
     (if entries (asg_env a) \<noteq> fmempty then [WithEnv (envList (entries (asg_env a)))] else []) @
     (if elems (asg_volumes a) \<noteq> [] then [WithMounts (bindMounts (elems (asg_volumes a)))] else []) @
     (if 0 <s res_Memory (asg_resources a) then [WithMemoryLimit (push_bit 20 (res_Memory (asg_resources a)))] else []) @
     (if 0 <s res_CPU (asg_resources a)
      then [WithCPUCFS (word_of_int (sint (res_CPU (asg_resources a) * cpuPeriodMicros) sdiv 1000)) cpuPeriodMicros] else [])"

definition container_for :: "string \<Rightarrow> assignment \<Rightarrow> container_opts" where
  "container_for img a = \<lparr>co_image = img, co_snapshot = asg_ID a @ ''-rootfs'',
     co_labels = fmap_of_list [(''k8.assignment'', asg_ID a),
       (''k8.owner'', kind_string (owner_kind a) @ ''/'' @ owner_name a)],
     co_spec = spec_opts img a\<rparr>"

definition quote :: "string \<Rightarrow> string" where
  "quote s = [CHR 0x22] @ s @ [CHR 0x22]"

text \<open>The \<open>%q\<close> of a reference is taken to need no escapes.\<close>

definition ensureImage ::
  "('r, 'd) ctrd_lib \<Rightarrow> string \<Rightarrow> (string \<Rightarrow> ('r, 'd) ctrd \<Rightarrow> ('r, 'd) ctrd \<times> (string + 'b)) \<Rightarrow>
     ('r, 'd) ctrd \<Rightarrow> ('r, 'd) ctrd \<times> (string + 'b)" where
  "ensureImage L ref k s = (case lib_ParseDockerRef L ref of
     Inl e \<Rightarrow> (s, Inl (''parse image '' @ quote ref @ '': '' @ e))
   | Inr named \<Rightarrow> (case lib_GetImage L named s of
       (s1, Inr _) \<Rightarrow> k named s1
     | (s1, Inl (OtherError e)) \<Rightarrow> (s1, Inl (''look up image '' @ named @ '': '' @ e))
     | (s1, Inl (NotFound _)) \<Rightarrow> attempt_call (''pull '' @ named) (lib_Pull L named) (\<lambda>_. k named) s1))"

definition create ::
  "('r, 'd) ctrd_lib \<Rightarrow> assignment \<Rightarrow> (('r, 'd) ctrd \<Rightarrow> ('r, 'd) ctrd \<times> (string + 'b)) \<Rightarrow>
     ('r, 'd) ctrd \<Rightarrow> ('r, 'd) ctrd \<times> (string + 'b)" where
  "create L a k =
     ensureImage L (asg_image a) (\<lambda>img.
       attempt_call ''create container'' (lib_NewContainer L (asg_ID a) (container_for img a)) (\<lambda>_. k))"

definition startTask ::
  "('r, 'd) ctrd_lib \<Rightarrow> assignment \<Rightarrow> ('r, 'd) ctrd \<Rightarrow> ('r, 'd) ctrd \<times> (string + unit)" where
  "startTask L a s =
     attempt_call ''create task'' (lib_NewTask L (asg_ID a) (logPath (asg_ID a) s)) (\<lambda>_.
     attempt_call ''wait task'' (lib_Wait L (asg_ID a)) (\<lambda>ch s1.
       case lib_Start L (asg_ID a) s1 of
         (s2, Inl e) \<Rightarrow> (fst (lib_DeleteTask L (asg_ID a) s2), Inl (''start task: '' @ err_text e))
       | (s2, Inr _) \<Rightarrow>
           let s3 = reportFor (asg_ID a) Running ''container started'' s2
           in (s3\<lparr>cx_exits := cx_exits s3 @ [(a, ch)]\<rparr>, Inr ()))) s"

definition attach ::
  "('r, 'd) ctrd_lib \<Rightarrow> assignment \<Rightarrow> ('r, 'd) ctrd \<Rightarrow> ('r, 'd) ctrd \<times> (string + unit)" where
  "attach L a s = (case lib_Task L (asg_ID a) s of
     (s1, Inl (NotFound _)) \<Rightarrow>
       if owner_kind a = KindJob then (s1, Inl ''job process lost (node restarted?)'')
       else startTask L a s1
   | (s1, Inl (OtherError e)) \<Rightarrow> (s1, Inl (''load task: '' @ e))
   | (s1, Inr _) \<Rightarrow>
       attempt_call ''wait task'' (lib_Wait L (asg_ID a)) (\<lambda>ch.
       attempt_call ''task status'' (lib_Status L (asg_ID a)) (\<lambda>status s2.
         let s3 = (if status \<noteq> ''stopped'' then reportFor (asg_ID a) Running ''re-attached to running container'' s2 else s2)
         in (s3\<lparr>cx_exits := cx_exits s3 @ [(a, ch)]\<rparr>, Inr ()))) s1)"

definition ctrd_run ::
  "('r, 'd) ctrd_lib \<Rightarrow> assignment \<Rightarrow> ('r, 'd) ctrd \<Rightarrow> ('r, 'd) ctrd \<times> (string + unit)" where
  "ctrd_run L a s = (case lib_LoadContainer L (asg_ID a) s of
     (s1, Inr _) \<Rightarrow> attach L a s1
   | (s1, Inl (OtherError e)) \<Rightarrow> (s1, Inl (''load container: '' @ e))
   | (s1, Inl (NotFound _)) \<Rightarrow> create L a (startTask L a) s1)"

definition ctrd_Start :: "assignment \<Rightarrow> 'r \<Rightarrow> ('r, 'd) ctrd \<Rightarrow> ('r, 'd) ctrd" where
  "ctrd_Start a report s = (case fmlookup (cx_watching s) (asg_ID a) of
     Some p \<Rightarrow>
       let w = cx_heap s ! p; s1 = update_watch p (\<lambda>w. w\<lparr>wt_report := report\<rparr>) s
       in if wt_phase w \<noteq> NoPhase then send_report report (wt_phase w) (wt_message w) s1 else s1
   | None \<Rightarrow> s\<lparr>cx_watching := fmupd (asg_ID a) (length (cx_heap s)) (cx_watching s),
       cx_heap := cx_heap s @ [\<lparr>wt_report = report, wt_phase = NoPhase, wt_message = [], wt_stopping = False\<rparr>],
       cx_runs := cx_runs s @ [a]\<rparr>)"

text \<open>The goroutine of \<open>Start\<close>.\<close>

definition ctrd_background :: "('r, 'd) ctrd_lib \<Rightarrow> assignment \<Rightarrow> ('r, 'd) ctrd \<Rightarrow> ('r, 'd) ctrd" where
  "ctrd_background L a s = (case ctrd_run L a s of
     (s1, Inr _) \<Rightarrow> s1
   | (s1, Inl err) \<Rightarrow> forget (asg_ID a) (reportFor (asg_ID a) Failed err s1))"

section \<open>Exits\<close>

text \<open>Neither loop need end; \<open>None\<close> is a run that does not.\<close>

definition time_Second :: duration where
  "time_Second = 1000000000"

text \<open>One turn of the loop of \<open>rewait\<close>: its result, or \<open>None\<close> when containerd is not ready.\<close>

definition rewait_look ::
  "('r, 'd) ctrd_lib \<Rightarrow> string \<Rightarrow> ('r, 'd) ctrd \<Rightarrow> ('r, 'd) ctrd \<times> nat option option" where
  "rewait_look L i s =
     (case lib_LoadContainer L i s of
        (s1, Inl (NotFound _)) \<Rightarrow> (s1, Some None)
      | (s1, Inl (OtherError _)) \<Rightarrow> (s1, None)
      | (s1, Inr _) \<Rightarrow> (case lib_Task L i s1 of
          (s2, Inl (NotFound _)) \<Rightarrow> (reportFor i Failed ''task disappeared while containerd was down'' s2, Some None)
        | (s2, Inl (OtherError _)) \<Rightarrow> (s2, None)
        | (s2, Inr _) \<Rightarrow> (case lib_Wait L i s2 of
            (s3, Inl _) \<Rightarrow> (s3, None)
          | (s3, Inr ch) \<Rightarrow> (s3, Some (Some ch)))))"

definition rewait_once ::
  "('r, 'd) ctrd_lib \<Rightarrow> string \<Rightarrow> ('r, 'd) ctrd \<Rightarrow> ('r, 'd) ctrd \<times> nat option option" where
  "rewait_once L i s = (if released i s then (s, Some None) else rewait_look L i s)"

partial_function (option) rewait ::
  "('r, 'd) ctrd_lib \<Rightarrow> string \<Rightarrow> duration \<Rightarrow> ('r, 'd) ctrd \<Rightarrow> (('r, 'd) ctrd \<times> nat option) option" where
  "rewait L i backoff s = (case rewait_once L i s of
     (s1, Some r) \<Rightarrow> Some (s1, r)
   | (s1, None) \<Rightarrow> rewait L i (if backoff < 10 * time_Second then backoff * 2 else backoff) (lib_Sleep L backoff s1))"

text \<open>What \<open>watchExit\<close> does with an exit code.\<close>

definition exited :: "assignment \<Rightarrow> 32 word \<Rightarrow> ('r, 'd) ctrd \<Rightarrow> ('r, 'd) ctrd" where
  "exited a code s =
     (if released (asg_ID a) s then s
      else if owner_kind a = KindJob \<and> code = 0 then reportFor (asg_ID a) Succeeded ''exited with code 0'' s
      else if owner_kind a = KindJob then reportFor (asg_ID a) Failed (''exited with code '' @ show_nat (unat code)) s
      else reportFor (asg_ID a) Failed (''service exited with code '' @ show_nat (unat code)) s)"

partial_function (option) watchExit ::
  "('r, 'd) ctrd_lib \<Rightarrow> assignment \<Rightarrow> nat \<Rightarrow> ('r, 'd) ctrd \<Rightarrow> ('r, 'd) ctrd option" where
  "watchExit L a ch s = (case lib_Exit L ch s of
     (s1, Inr code) \<Rightarrow> Some (exited a code s1)
   | (s1, Inl _) \<Rightarrow> Option.bind (rewait L (asg_ID a) time_Second s1) (\<lambda>(s2, next).
       case next of None \<Rightarrow> Some s2 | Some ch1 \<Rightarrow> watchExit L a ch1 s2))"

section \<open>Stopping and listing\<close>

text \<open>The receives from the exit channel of a killed task are taken to deliver.\<close>

definition terminate_task ::
  "('r, 'd) ctrd_lib \<Rightarrow> string \<Rightarrow> ('r, 'd) ctrd \<Rightarrow> ('r, 'd) ctrd \<times> (string + unit)" where
  "terminate_task L i =
     attempt_call ''wait task'' (lib_Wait L i) (\<lambda>ch.
     attempt_call ''sigterm'' (unless_missing (lib_Kill L i SIGTERM)) (\<lambda>_ s1.
       case lib_Select L ch s1 of
         (s2, True) \<Rightarrow> (s2, Inr ())
       | (s2, False) \<Rightarrow>
           attempt_call ''sigkill'' (unless_missing (lib_Kill L i SIGKILL)) (\<lambda>_ s3. (fst (lib_Exit L ch s3), Inr ())) s2))"

definition killTask ::
  "('r, 'd) ctrd_lib \<Rightarrow> string \<Rightarrow> ('r, 'd) ctrd \<Rightarrow> ('r, 'd) ctrd \<times> (string + bool)" where
  "killTask L i =
     attempt_call ''task status'' (lib_Status L i) (\<lambda>status s1.
       let running = (status \<noteq> ''stopped'') in
       case (if running then terminate_task L i s1 else (s1, Inr ())) of
         (s2, Inl e) \<Rightarrow> (s2, Inl e)
       | (s2, Inr _) \<Rightarrow> attempt_call ''delete task'' (unless_missing (lib_DeleteTask L i)) (\<lambda>_ s3. (s3, Inr running)) s2)"

text \<open>The task of a container that is to go; the result is whether the workload was cut short.\<close>

definition stop_task ::
  "('r, 'd) ctrd_lib \<Rightarrow> string \<Rightarrow> ('r, 'd) ctrd \<Rightarrow> ('r, 'd) ctrd \<times> (string + bool)" where
  "stop_task L i s = (case lib_Task L i s of
     (s1, Inr _) \<Rightarrow> killTask L i s1
   | (s1, Inl (NotFound _)) \<Rightarrow> (s1, Inr False)
   | (s1, Inl (OtherError e)) \<Rightarrow> (s1, Inl (''load task: '' @ e)))"

text \<open>\<open>Stop\<close> between its lock and its deferred \<open>forget\<close>; \<open>tracked\<close> is the pointer it has kept.\<close>

definition stop_container ::
  "('r, 'd) ctrd_lib \<Rightarrow> string \<Rightarrow> nat option \<Rightarrow> ('r, 'd) ctrd \<Rightarrow> ('r, 'd) ctrd \<times> (string + unit)" where
  "stop_container L i tracked s = (case lib_LoadContainer L i s of
     (s1, Inl (NotFound _)) \<Rightarrow> (s1, Inr ())
   | (s1, Inl (OtherError e)) \<Rightarrow> (s1, Inl (''load container: '' @ e))
   | (s1, Inr _) \<Rightarrow>
       (case stop_task L i s1 of
          (s3, Inl e) \<Rightarrow> (s3, Inl e)
        | (s3, Inr wasRunning) \<Rightarrow>
            attempt_call ''delete container'' (unless_missing (lib_DeleteContainer L i)) (\<lambda>_ s4.
              (case tracked of
                 Some p \<Rightarrow> if wasRunning then send_report (wt_report (cx_heap s4 ! p)) Stopped ''stopped by agent'' s4 else s4
               | None \<Rightarrow> s4, Inr ())) s3))"

definition mark_stopping :: "string \<Rightarrow> ('r, 'd) ctrd \<Rightarrow> ('r, 'd) ctrd" where
  "mark_stopping i s = (case fmlookup (cx_watching s) i of
     None \<Rightarrow> s | Some p \<Rightarrow> update_watch p (\<lambda>w. w\<lparr>wt_stopping := True\<rparr>) s)"

definition ctrd_Stop ::
  "('r, 'd) ctrd_lib \<Rightarrow> string \<Rightarrow> ('r, 'd) ctrd \<Rightarrow> ('r, 'd) ctrd \<times> string option" where
  "ctrd_Stop L i s =
     (let (s2, r) = stop_container L i (fmlookup (cx_watching s) i) (mark_stopping i s)
      in (forget i s2, case r of Inl e \<Rightarrow> Some e | Inr _ \<Rightarrow> None))"

definition ctrd_List :: "('r, 'd) ctrd_lib \<Rightarrow> ('r, 'd) ctrd \<Rightarrow> string + string list" where
  "ctrd_List L s = (case lib_Containers L s of
     Inl e \<Rightarrow> Inl (''list containers: '' @ err_text e)
   | Inr ids \<Rightarrow> Inr (sort_slice (<) ids))"

text \<open>The operations as an \<open>Executor\<close>: the reports of an operation are those it adds.\<close>

definition reporting :: "(('r, 'd) ctrd \<Rightarrow> ('r, 'd) ctrd) \<Rightarrow> ('r, 'd) ctrd \<Rightarrow> ('r, 'd) ctrd \<times> 'r report_call list" where
  "reporting f s = (let s1 = f (s\<lparr>cx_sent := []\<rparr>) in (s1\<lparr>cx_sent := []\<rparr>, cx_sent s1))"

definition containerd_executor :: "('r, 'd) ctrd_lib \<Rightarrow> (('r, 'd) ctrd, 'r) executor" where
  "containerd_executor L = \<lparr>
     ex_Start = (\<lambda>a report s. case reporting (ctrd_Start a report) s of (s1, rs) \<Rightarrow> (s1, rs, None)),
     ex_Stop = (\<lambda>i s. case reporting (fst \<circ> ctrd_Stop L i) s of
       (s1, rs) \<Rightarrow> (s1, rs, snd (ctrd_Stop L i (s\<lparr>cx_sent := []\<rparr>)))),
     ex_List = ctrd_List L\<rparr>"

text \<open>
  The steps of the goroutines and of the daemon: one goroutine of \<open>Start\<close> runs, one
  \<open>watchExit\<close> runs to its end, or a task exits, containerd restarts and the like, which
  leaves the containers alone.
\<close>

definition drop_nth :: "nat \<Rightarrow> 'a list \<Rightarrow> 'a list" where
  "drop_nth k xs = take k xs @ drop (Suc k) xs"

inductive ctrd_step ::
  "('r, 'd) ctrd_lib \<Rightarrow> ('d \<Rightarrow> string \<Rightarrow> 'i option) \<Rightarrow> ('r, 'd) ctrd \<Rightarrow> ('r, 'd) ctrd \<times> 'r report_call list \<Rightarrow> bool"
  for L containers where
  go_run: "k < length (cx_runs s) \<Longrightarrow>
    ctrd_step L containers s (reporting (ctrd_background L (cx_runs s ! k)) (s\<lparr>cx_runs := drop_nth k (cx_runs s)\<rparr>))"
| go_exit: "k < length (cx_exits s) \<Longrightarrow> cx_exits s ! k = (a, ch) \<Longrightarrow>
    watchExit L a ch (s\<lparr>cx_exits := drop_nth k (cx_exits s), cx_sent := []\<rparr>) = Some s' \<Longrightarrow>
    ctrd_step L containers s (s'\<lparr>cx_sent := []\<rparr>, cx_sent s')"
| go_daemon: "containers d = containers (cx_daemon s) \<Longrightarrow> ctrd_step L containers s (s\<lparr>cx_daemon := d\<rparr>, [])"


section \<open>What the library promises\<close>

text \<open>
  \<open>containers d\<close> maps the IDs of the containers a daemon holds to their identity. Most calls leave
  the containers alone; \<open>NewContainer\<close> creates one under its ID unless there is one,
  \<open>DeleteContainer\<close> removes that one, and \<open>NotFound\<close> means that there is none.
\<close>

definition preserves :: "('d \<Rightarrow> string \<Rightarrow> 'i option) \<Rightarrow> (('r, 'd) ctrd \<Rightarrow> ('r, 'd) ctrd) \<Rightarrow> bool" where
  "preserves containers f \<longleftrightarrow> (\<forall>s. containers (cx_daemon (f s)) = containers (cx_daemon s))"

definition container_promises :: "('r, 'd) ctrd_lib \<Rightarrow> ('d \<Rightarrow> string \<Rightarrow> 'i option) \<Rightarrow> bool" where
  "container_promises L containers \<longleftrightarrow>
     (\<forall>i. preserves containers (fst \<circ> lib_GetImage L i) \<and> preserves containers (fst \<circ> lib_Pull L i) \<and>
       preserves containers (fst \<circ> lib_Task L i) \<and> preserves containers (fst \<circ> lib_Wait L i) \<and>
       preserves containers (fst \<circ> lib_Start L i) \<and> preserves containers (fst \<circ> lib_Status L i) \<and>
       preserves containers (fst \<circ> lib_DeleteTask L i) \<and> preserves containers (fst \<circ> lib_LoadContainer L i) \<and>
       (\<forall>x. preserves containers (fst \<circ> lib_NewTask L i x)) \<and> (\<forall>x. preserves containers (fst \<circ> lib_Kill L i x)) \<and>
       (\<forall>s e. snd (lib_LoadContainer L i s) = Inl (NotFound e) \<longrightarrow> containers (cx_daemon s) i = None) \<and>
       (\<forall>x s. let d = containers (cx_daemon s); d' = containers (cx_daemon (fst (lib_NewContainer L i x s)))
          in d' = d \<or> d i = None \<and> (\<exists>y. d' = d(i \<mapsto> y))) \<and>
       (\<forall>x s. snd (lib_NewContainer L i x s) = Inr () \<longrightarrow> containers (cx_daemon (fst (lib_NewContainer L i x s))) i \<noteq> None) \<and>
       (\<forall>s. let d = containers (cx_daemon s); d' = containers (cx_daemon (fst (lib_DeleteContainer L i s)))
          in (d' = d \<or> d' = d(i := None)) \<and>
             (ignore_missing (snd (lib_DeleteContainer L i s)) = Inr () \<longrightarrow> d' i = None))) \<and>
     (\<forall>ch. preserves containers (fst \<circ> lib_Exit L ch) \<and> preserves containers (fst \<circ> lib_Select L ch)) \<and>
     (\<forall>t. preserves containers (lib_Sleep L t)) \<and>
     (\<forall>s ids. lib_Containers L s = Inr ids \<longrightarrow> set ids = dom (containers (cx_daemon s)))"

text \<open>
  The second part is no promise of containerd but a restriction of what the theorems cover: no
  goroutine of the program runs while a call blocks, so that a call changes the daemon only.
  Where goroutines do run in between is studied with libraries that are not \<open>undisturbed\<close>, made
  from one that is: \<open>interrupted\<close> and \<open>stop_while_pulling\<close>.
\<close>

definition only_daemon :: "(('r, 'd) ctrd \<Rightarrow> ('r, 'd) ctrd) \<Rightarrow> bool" where
  "only_daemon f \<longleftrightarrow> (\<forall>s. f s = s\<lparr>cx_daemon := cx_daemon (f s)\<rparr>)"

definition undisturbed :: "('r, 'd) ctrd_lib \<Rightarrow> bool" where
  "undisturbed L \<longleftrightarrow>
     (\<forall>i. only_daemon (fst \<circ> lib_GetImage L i) \<and> only_daemon (fst \<circ> lib_Pull L i) \<and> only_daemon (fst \<circ> lib_Task L i) \<and>
       only_daemon (fst \<circ> lib_Wait L i) \<and> only_daemon (fst \<circ> lib_Start L i) \<and> only_daemon (fst \<circ> lib_Status L i) \<and>
       only_daemon (fst \<circ> lib_DeleteTask L i) \<and> only_daemon (fst \<circ> lib_LoadContainer L i) \<and>
       (\<forall>x. only_daemon (fst \<circ> lib_NewTask L i x)) \<and> (\<forall>x. only_daemon (fst \<circ> lib_Kill L i x)) \<and>
       (\<forall>x. only_daemon (fst \<circ> lib_NewContainer L i x)) \<and> only_daemon (fst \<circ> lib_DeleteContainer L i)) \<and>
     (\<forall>ch. only_daemon (fst \<circ> lib_Exit L ch) \<and> only_daemon (fst \<circ> lib_Select L ch)) \<and>
     (\<forall>t. only_daemon (lib_Sleep L t))"

definition containerd_laws :: "('r, 'd) ctrd_lib \<Rightarrow> ('d \<Rightarrow> string \<Rightarrow> 'i option) \<Rightarrow> bool" where
  "containerd_laws L containers \<longleftrightarrow> container_promises L containers \<and> undisturbed L"

definition steady :: "('d \<Rightarrow> string \<Rightarrow> 'i option) \<Rightarrow> (('r, 'd) ctrd \<Rightarrow> ('r, 'd) ctrd) \<Rightarrow> bool" where
  "steady containers f \<longleftrightarrow> only_daemon f \<and> (\<forall>s. containers (cx_daemon (f s)) = containers (cx_daemon s))"

lemma steady_preserves: "steady containers f \<longleftrightarrow> preserves containers f \<and> only_daemon f"
  by (auto simp: steady_def preserves_def)

lemma containerd_lawsD:
  assumes "containerd_laws L containers"
  shows "steady containers (fst \<circ> lib_GetImage L i)" "steady containers (fst \<circ> lib_Pull L i)"
    "steady containers (fst \<circ> lib_Task L i)" "steady containers (fst \<circ> lib_Wait L i)"
    "steady containers (fst \<circ> lib_Start L i)" "steady containers (fst \<circ> lib_Status L i)"
    "steady containers (fst \<circ> lib_DeleteTask L i)" "steady containers (fst \<circ> lib_LoadContainer L i)"
    "steady containers (fst \<circ> lib_NewTask L i x)" "steady containers (fst \<circ> lib_Kill L i g)"
    "steady containers (fst \<circ> lib_Exit L ch)" "steady containers (fst \<circ> lib_Select L ch)" "steady containers (lib_Sleep L t)"
    "only_daemon (fst \<circ> lib_NewContainer L i y)" "only_daemon (fst \<circ> lib_DeleteContainer L i)"
proof -
  have p: "preserves containers (fst \<circ> lib_GetImage L i)" "preserves containers (fst \<circ> lib_Pull L i)"
      "preserves containers (fst \<circ> lib_Task L i)" "preserves containers (fst \<circ> lib_Wait L i)"
      "preserves containers (fst \<circ> lib_Start L i)" "preserves containers (fst \<circ> lib_Status L i)"
      "preserves containers (fst \<circ> lib_DeleteTask L i)" "preserves containers (fst \<circ> lib_LoadContainer L i)"
      "preserves containers (fst \<circ> lib_NewTask L i x)" "preserves containers (fst \<circ> lib_Kill L i g)"
      "preserves containers (fst \<circ> lib_Exit L ch)" "preserves containers (fst \<circ> lib_Select L ch)"
      "preserves containers (lib_Sleep L t)"
    using assms unfolding containerd_laws_def container_promises_def by blast+
  have u: "only_daemon (fst \<circ> lib_GetImage L i)" "only_daemon (fst \<circ> lib_Pull L i)"
      "only_daemon (fst \<circ> lib_Task L i)" "only_daemon (fst \<circ> lib_Wait L i)"
      "only_daemon (fst \<circ> lib_Start L i)" "only_daemon (fst \<circ> lib_Status L i)"
      "only_daemon (fst \<circ> lib_DeleteTask L i)" "only_daemon (fst \<circ> lib_LoadContainer L i)"
      "only_daemon (fst \<circ> lib_NewTask L i x)" "only_daemon (fst \<circ> lib_Kill L i g)"
      "only_daemon (fst \<circ> lib_Exit L ch)" "only_daemon (fst \<circ> lib_Select L ch)"
      "only_daemon (lib_Sleep L t)" "only_daemon (fst \<circ> lib_NewContainer L i y)"
      "only_daemon (fst \<circ> lib_DeleteContainer L i)"
    using assms unfolding containerd_laws_def undisturbed_def by blast+
  show "steady containers (fst \<circ> lib_GetImage L i)" "steady containers (fst \<circ> lib_Pull L i)"
      "steady containers (fst \<circ> lib_Task L i)" "steady containers (fst \<circ> lib_Wait L i)"
      "steady containers (fst \<circ> lib_Start L i)" "steady containers (fst \<circ> lib_Status L i)"
      "steady containers (fst \<circ> lib_DeleteTask L i)" "steady containers (fst \<circ> lib_LoadContainer L i)"
      "steady containers (fst \<circ> lib_NewTask L i x)" "steady containers (fst \<circ> lib_Kill L i g)"
      "steady containers (fst \<circ> lib_Exit L ch)" "steady containers (fst \<circ> lib_Select L ch)"
      "steady containers (lib_Sleep L t)" "only_daemon (fst \<circ> lib_NewContainer L i y)"
      "only_daemon (fst \<circ> lib_DeleteContainer L i)"
    by (simp_all only: steady_preserves p u simp_thms)
qed

lemma containerd_lawsD2:
  assumes "containerd_laws L containers"
  shows "snd (lib_LoadContainer L i s) = Inl (NotFound e) \<Longrightarrow> containers (cx_daemon s) i = None"
    "lib_Containers L s = Inr ids \<Longrightarrow> set ids = dom (containers (cx_daemon s))"
  using assms unfolding containerd_laws_def container_promises_def by blast+

lemma NewContainer_law:
  assumes "containerd_laws L containers"
  shows "containers (cx_daemon s) \<subseteq>\<^sub>m containers (cx_daemon (fst (lib_NewContainer L i x s)))"
    and "k \<noteq> i \<Longrightarrow> containers (cx_daemon (fst (lib_NewContainer L i x s))) k = containers (cx_daemon s) k"
    and "snd (lib_NewContainer L i x s) = Inr () \<Longrightarrow> containers (cx_daemon (fst (lib_NewContainer L i x s))) i \<noteq> None"
proof -
  let ?d = "containers (cx_daemon s)" and ?d' = "containers (cx_daemon (fst (lib_NewContainer L i x s)))"
  have "?d' = ?d \<or> ?d i = None \<and> (\<exists>y. ?d' = ?d(i \<mapsto> y))"
    using assms unfolding containerd_laws_def container_promises_def Let_def by blast
  then show "?d \<subseteq>\<^sub>m ?d'" "k \<noteq> i \<Longrightarrow> ?d' k = ?d k" by (auto simp: map_le_def)
  show "snd (lib_NewContainer L i x s) = Inr () \<Longrightarrow> ?d' i \<noteq> None"
    using assms unfolding containerd_laws_def container_promises_def by blast
qed

lemma DeleteContainer_law:
  assumes "containerd_laws L containers"
  shows "k \<noteq> i \<Longrightarrow> containers (cx_daemon (fst (lib_DeleteContainer L i s))) k = containers (cx_daemon s) k"
    and "ignore_missing (snd (lib_DeleteContainer L i s)) = Inr () \<Longrightarrow> containers (cx_daemon (fst (lib_DeleteContainer L i s))) i = None"
proof -
  let ?d = "containers (cx_daemon s)" and ?d' = "containers (cx_daemon (fst (lib_DeleteContainer L i s)))"
  have "(?d' = ?d \<or> ?d' = ?d(i := None)) \<and> (ignore_missing (snd (lib_DeleteContainer L i s)) = Inr () \<longrightarrow> ?d' i = None)"
    using assms unfolding containerd_laws_def container_promises_def Let_def by blast
  then show "k \<noteq> i \<Longrightarrow> ?d' k = ?d k" "ignore_missing (snd (lib_DeleteContainer L i s)) = Inr () \<Longrightarrow> ?d' i = None"
    by auto
qed

section \<open>Pointers and containers\<close>

text \<open>Every entry points into the heap, and no two to the same watch.\<close>

definition ctrd_inv :: "('r, 'd) ctrd \<Rightarrow> bool" where
  "ctrd_inv s \<longleftrightarrow>
     (\<forall>i p. fmlookup (cx_watching s) i = Some p \<longrightarrow> p < length (cx_heap s)) \<and>
     (\<forall>i k p. fmlookup (cx_watching s) i = Some p \<and> fmlookup (cx_watching s) k = Some p \<longrightarrow> i = k)"

lemma NewContainerdExecutor_inv: "NewContainerdExecutor mkdir dial address logDir = Inr s \<Longrightarrow> ctrd_inv s"
  by (auto simp: NewContainerdExecutor_def ctrd_inv_def split: option.splits sum.splits)

lemma ctrd_inv_fields [simp]:
  "ctrd_inv (s\<lparr>cx_daemon := d\<rparr>) = ctrd_inv s" "ctrd_inv (s\<lparr>cx_sent := rs\<rparr>) = ctrd_inv s"
  "ctrd_inv (s\<lparr>cx_runs := as\<rparr>) = ctrd_inv s" "ctrd_inv (s\<lparr>cx_exits := xs\<rparr>) = ctrd_inv s"
  by (simp_all add: ctrd_inv_def)

lemma local_ops [simp]:
  "ctrd_inv (update_watch p f s) = ctrd_inv s" "cx_daemon (update_watch p f s) = cx_daemon s"
  "ctrd_inv (send_report r q m s) = ctrd_inv s" "cx_daemon (send_report r q m s) = cx_daemon s"
  "ctrd_inv (reportFor i q m s) = ctrd_inv s" "cx_daemon (reportFor i q m s) = cx_daemon s"
  "cx_daemon (forget i s) = cx_daemon s" "cx_daemon (mark_stopping i s) = cx_daemon s"
  "ctrd_inv (mark_stopping i s) = ctrd_inv s" "cx_daemon (ctrd_Start a r s) = cx_daemon s"
  "ctrd_inv (exited a code s) = ctrd_inv s" "cx_daemon (exited a code s) = cx_daemon s"
  by (auto simp: ctrd_inv_def update_watch_def send_report_def reportFor_def forget_def mark_stopping_def ctrd_Start_def
      exited_def Let_def split: option.split)

lemma forget_inv: "ctrd_inv s \<Longrightarrow> ctrd_inv (forget i s)"
  by (auto simp: ctrd_inv_def forget_def split: if_splits)

lemma ctrd_Start_inv: "ctrd_inv s \<Longrightarrow> ctrd_inv (ctrd_Start a r s)"
  by (fastforce simp: ctrd_inv_def ctrd_Start_def update_watch_def send_report_def Let_def split: option.splits if_splits)

text \<open>
  What a run of code does to the containers: it keeps those there are, or all but the one of
  ID \<open>i\<close>, and touches no other ID; and it keeps the invariant.
\<close>

definition grows :: "('d \<Rightarrow> string \<Rightarrow> 'i option) \<Rightarrow> string \<Rightarrow> ('r, 'd) ctrd \<Rightarrow> ('r, 'd) ctrd \<Rightarrow> bool" where
  "grows containers i s s' \<longleftrightarrow> (ctrd_inv s \<longrightarrow> ctrd_inv s') \<and> containers (cx_daemon s) \<subseteq>\<^sub>m containers (cx_daemon s') \<and>
     (\<forall>k. k \<noteq> i \<longrightarrow> containers (cx_daemon s') k = containers (cx_daemon s) k)"

definition touches :: "('d \<Rightarrow> string \<Rightarrow> 'i option) \<Rightarrow> string \<Rightarrow> ('r, 'd) ctrd \<Rightarrow> ('r, 'd) ctrd \<Rightarrow> bool" where
  "touches containers i s s' \<longleftrightarrow> (ctrd_inv s \<longrightarrow> ctrd_inv s') \<and>
     (\<forall>k. k \<noteq> i \<longrightarrow> containers (cx_daemon s') k = containers (cx_daemon s) k)"

lemma grows_refl [simp]: "grows containers i s s"
  by (simp add: grows_def)

lemma grows_trans: "grows containers i s s1 \<Longrightarrow> grows containers i s1 s2 \<Longrightarrow> grows containers i s s2"
  by (auto simp: grows_def intro: map_le_trans)

lemma grows_transp: "transp (grows containers i)"
  by (blast intro: transpI grows_trans)

lemma touches_refl [simp]: "touches containers i s s"
  by (simp add: touches_def)

lemma touches_trans: "touches containers i s s1 \<Longrightarrow> touches containers i s1 s2 \<Longrightarrow> touches containers i s s2"
  by (auto simp: touches_def)

lemma touches_transp: "transp (touches containers i)"
  by (blast intro: transpI touches_trans)

lemma grows_touches: "grows containers i s s' \<Longrightarrow> touches containers i s s'"
  by (simp add: grows_def touches_def)

lemma only_daemon_inv: "only_daemon f \<Longrightarrow> ctrd_inv (f s) = ctrd_inv s"
  unfolding only_daemon_def by (metis ctrd_inv_fields(1))

lemma steady_grows: "steady containers f \<Longrightarrow> grows containers i s (f s)"
  using only_daemon_inv [of f s] by (auto simp: steady_def grows_def)

text \<open>A relation that is kept by a call and by what follows it.\<close>

lemma attempt_call_rel:
  assumes "transp R" "R s (fst (f s))" "\<And>x s1. R s1 (fst (k x s1))"
  shows "R s (fst (attempt_call what f k s))"
  using assms(2) transpD [OF assms(1,2) assms(3)]
  by (auto simp: attempt_call_def split: prod.split sum.split)

lemmas grows_call = attempt_call_rel [OF grows_transp]
lemmas touches_call = attempt_call_rel [OF touches_transp]

lemmas law_grows = containerd_lawsD(1-13) [THEN steady_grows, unfolded comp_def]

lemma local_grows [simp]:
  "grows containers i s (reportFor k q m s)" "grows containers i s (forget k s)" "grows containers i s (mark_stopping k s)"
  "grows containers i s (exited a code s)" "grows containers i s (ctrd_Start a r s)" "grows containers i s (send_report r q m s)"
  by (auto simp: grows_def forget_inv ctrd_Start_inv)

lemma grows_exits [simp]: "grows containers i s (s'\<lparr>cx_exits := xs\<rparr>) = grows containers i s s'"
  "grows containers i s (s'\<lparr>cx_sent := rs\<rparr>) = grows containers i s s'"
  by (simp_all add: grows_def)

text \<open>The same for a call whose result the code inspects.\<close>

lemma case_rel:
  assumes "transp R" "R s (fst x)" "\<And>s1 r. R s1 (fst (K s1 r))"
  shows "R s (fst (case x of (s1, r) \<Rightarrow> K s1 r))"
  using transpD [OF assms(1,2) assms(3)] by (cases x) simp

lemmas grows_case = case_rel [OF grows_transp]
lemmas touches_case = case_rel [OF touches_transp]

lemma startTask_grows: "containerd_laws L containers \<Longrightarrow> grows containers i s (fst (startTask L a s))"
  unfolding startTask_def
  by (intro grows_call law_grows grows_case) (auto simp: Let_def split: sum.split intro: law_grows)

lemma attach_grows: "containerd_laws L containers \<Longrightarrow> grows containers i s (fst (attach L a s))"
  unfolding attach_def
  by (rule grows_case [OF law_grows(3)])
    (auto split: sum.split lib_error.split intro!: startTask_grows grows_call law_grows simp: Let_def)

lemma create_grows:
  assumes "containerd_laws L containers" "\<And>s. grows containers (asg_ID a) s (fst (k s))"
  shows "grows containers (asg_ID a) s (fst (create L a k s))"
proof -
  have new: "grows containers (asg_ID a) s (fst (lib_NewContainer L (asg_ID a) x s))" for x s
    using NewContainer_law [OF assms(1)] only_daemon_inv [OF containerd_lawsD(14) [OF assms(1)]]
    by (auto simp: grows_def)
  have "grows containers (asg_ID a) s (fst (attempt_call ''create container'' (lib_NewContainer L (asg_ID a) x) (\<lambda>_. k) s))" for x s
    by (intro grows_call new assms(2))
  then show ?thesis
    unfolding create_def ensureImage_def
    by (auto split: sum.split lib_error.split
        intro!: grows_case [OF law_grows(1)] grows_call [OF law_grows(2)] assms(1))
qed

lemma ctrd_run_grows: "containerd_laws L containers \<Longrightarrow> grows containers (asg_ID a) s (fst (ctrd_run L a s))"
  unfolding ctrd_run_def
  by (rule grows_case [OF law_grows(8)])
    (auto split: sum.split lib_error.split intro!: attach_grows create_grows startTask_grows)

lemma ctrd_background_grows: "containerd_laws L containers \<Longrightarrow> grows containers (asg_ID a) s (ctrd_background L a s)"
  using ctrd_run_grows [of L containers a s]
  by (auto simp: ctrd_background_def split: prod.split sum.split intro: grows_trans [OF grows_trans [OF _ local_grows(1)] local_grows(2)])

lemma rewait_once_grows: "containerd_laws L containers \<Longrightarrow> grows containers k s (fst (rewait_once L i s))"
  unfolding rewait_once_def rewait_look_def
  by (auto split: sum.split lib_error.split intro!: grows_case [OF law_grows(8)] grows_case [OF law_grows(3)] grows_case [OF law_grows(4)])

text \<open>A relation kept by each turn of the loops is kept by the loops.\<close>

lemma rewait_rel:
  assumes "rewait L i b s = Some x" "transp R" "\<And>s. R s (fst (rewait_once L i s))" "\<And>t s. R s (lib_Sleep L t s)"
  shows "R s (fst x)"
proof (rule rewait.raw_induct [where P = "\<lambda>M k b s x. M = L \<longrightarrow> k = i \<longrightarrow> R s (fst x)", OF _ assms(1), THEN mp, OF _ refl, THEN mp, OF _ refl])
  fix rewait' M k b s x
  assume IH: "\<And>M k b s x. rewait' M k b s = Some x \<Longrightarrow> M = L \<longrightarrow> k = i \<longrightarrow> R s (fst x)"
    and run: "(case rewait_once M k s of (s1, None) \<Rightarrow> rewait' M k (if b < 10 * time_Second then b * 2 else b) (lib_Sleep M b s1)
      | (s1, Some r) \<Rightarrow> Some (s1, r)) = Some x"
  show "M = L \<longrightarrow> k = i \<longrightarrow> R s (fst x)"
  proof (intro impI)
    assume M: "M = L" "k = i"
    obtain s1 r where once: "rewait_once L i s = (s1, r)" by fastforce
    then have 1: "R s s1" using assms(3) [of s] by simp
    show "R s (fst x)"
    proof (cases r)
      case None
      have "R (lib_Sleep L b s1) (fst x)" using IH run by (simp add: M once None)
      then show ?thesis using assms(2) 1 assms(4) [of s1 b] by (blast dest: transpD)
    qed (use run M once 1 in auto)
  qed
qed

lemma watchExit_rel:
  assumes "watchExit L a ch s = Some s'" "transp R" "\<And>ch s. R s (fst (lib_Exit L ch s))"
    and "\<And>s. R s (fst (rewait_once L (asg_ID a) s))" "\<And>t s. R s (lib_Sleep L t s)" "\<And>c s. R s (exited a c s)"
  shows "R s s'"
proof (rule watchExit.raw_induct [where P = "\<lambda>M b ch s s'. M = L \<longrightarrow> b = a \<longrightarrow> R s s'", OF _ assms(1), THEN mp, OF _ refl, THEN mp, OF _ refl])
  fix watch M b ch s s'
  assume IH: "\<And>M b ch s s'. watch M b ch s = Some s' \<Longrightarrow> M = L \<longrightarrow> b = a \<longrightarrow> R s s'"
    and run: "(case lib_Exit M ch s of
        (s1, Inl _) \<Rightarrow> Option.bind (rewait M (asg_ID b) time_Second s1) (\<lambda>(s2, next).
          case next of None \<Rightarrow> Some s2 | Some ch1 \<Rightarrow> watch M b ch1 s2)
      | (s1, Inr code) \<Rightarrow> Some (exited b code s1)) = Some s'"
  show "M = L \<longrightarrow> b = a \<longrightarrow> R s s'"
  proof (intro impI)
    assume M: "M = L" "b = a"
    note trans = transpD [OF assms(2)]
    obtain s1 r where ex: "lib_Exit L ch s = (s1, r)" by fastforce
    then have 1: "R s s1" using assms(3) [of s ch] by simp
    show "R s s'"
    proof (cases r)
      case (Inl e)
      obtain s2 nxt where 2: "rewait L (asg_ID a) time_Second s1 = Some (s2, nxt)"
          "(case nxt of None \<Rightarrow> Some s2 | Some ch1 \<Rightarrow> watch L a ch1 s2) = Some s'"
        using run by (auto simp: M ex Inl Option.bind_eq_Some_conv)
      have "R s1 s2" using rewait_rel [where R = R, OF 2(1) assms(2,4,5)] by simp
      moreover have "s2 = s' \<or> R s2 s'" using 2(2) IH by (auto split: option.splits)
      ultimately show ?thesis using 1 trans by blast
    next
      case (Inr code)
      then show ?thesis using run 1 assms(6) trans by (auto simp: M ex)
    qed
  qed
qed

lemma rewait_grows:
  assumes "rewait L i b s = Some x" "containerd_laws L containers"
  shows "grows containers k s (fst x)"
  using rewait_rel [OF assms(1) grows_transp rewait_once_grows law_grows(13)] assms(2) by blast

lemma watchExit_grows:
  assumes "watchExit L a ch s = Some s'" "containerd_laws L containers"
  shows "grows containers k s s'"
  by (rule watchExit_rel [OF assms(1) grows_transp]) (rule law_grows rewait_once_grows local_grows assms(2))+

text \<open>Stopping.\<close>

lemma unless_missing_fst [simp]: "fst (unless_missing f s) = fst (f s)"
  by (simp add: unless_missing_def)

lemma terminate_task_grows: "containerd_laws L containers \<Longrightarrow> grows containers k s (fst (terminate_task L i s))"
  unfolding terminate_task_def
  by (intro grows_call grows_case law_grows) (auto split: bool.split intro!: grows_call intro: law_grows)

lemma killTask_grows: "containerd_laws L containers \<Longrightarrow> grows containers k s (fst (killTask L i s))"
  unfolding killTask_def Let_def
  by (intro grows_call grows_case law_grows) (auto split: sum.split intro!: grows_call terminate_task_grows intro: law_grows)

lemma stop_task_grows: "containerd_laws L containers \<Longrightarrow> grows containers k s (fst (stop_task L i s))"
  unfolding stop_task_def
  by (rule grows_case [OF law_grows(3)]) (auto split: sum.split lib_error.split intro: killTask_grows)

lemma attempt_call_ok: "attempt_call what f k s = (s', Inr y) \<Longrightarrow> \<exists>s1 x. f s = (s1, Inr x) \<and> k x s1 = (s', Inr y)"
  by (auto simp: attempt_call_def split: prod.splits sum.splits)

lemma stop_container_touches:
  assumes "containerd_laws L containers"
  shows "touches containers i s (fst (stop_container L i p s))"
    and "snd (stop_container L i p s) = Inr () \<Longrightarrow> containers (cx_daemon (fst (stop_container L i p s))) i = None"
proof -
  have del: "touches containers i s (fst (lib_DeleteContainer L i s))" for s
    using DeleteContainer_law [OF assms] only_daemon_inv [OF containerd_lawsD(15) [OF assms]] by (auto simp: touches_def)
  have send: "touches containers i s (send_report r q m s)" for r q m s
    by (simp add: touches_def)
  show "touches containers i s (fst (stop_container L i p s))"
    unfolding stop_container_def
    by (rule touches_case [OF grows_touches [OF law_grows(8)]])
      (auto split: sum.split lib_error.split option.split
        intro!: touches_case [OF grows_touches [OF stop_task_grows]] touches_call del send assms)
  assume ok: "snd (stop_container L i p s) = Inr ()"
  show "containers (cx_daemon (fst (stop_container L i p s))) i = None"
  proof -
    obtain s1 r where load: "lib_LoadContainer L i s = (s1, r)" by fastforce
    consider m where "r = Inl (NotFound m)" | u where "r = Inr u"
      using ok load by (cases r; cases "projl r") (auto simp: stop_container_def)
    then show ?thesis
    proof cases
      case 1
      then have "containers (cx_daemon s) i = None"
        using containerd_lawsD2(1) [OF assms, of i s m] load by simp
      moreover have "containers (cx_daemon s1) = containers (cx_daemon s)"
        using containerd_lawsD(8) [OF assms, of i] load by (auto simp: steady_def dest: spec [of _ s])
      ultimately show ?thesis by (simp add: stop_container_def load 1)
    next
      case 2
      obtain s2 q where task: "stop_task L i s1 = (s2, q)" by fastforce
      obtain s3 t where del: "lib_DeleteContainer L i s2 = (s3, t)" by fastforce
      obtain b where q: "q = Inr b"
        using ok by (cases q) (simp_all add: stop_container_def load 2 task)
      have t: "ignore_missing t = Inr ()"
        using ok by (cases "ignore_missing t") (simp_all add: stop_container_def load 2 task q attempt_call_def unless_missing_def del)
      then have "containers (cx_daemon s3) i = None"
        using DeleteContainer_law(2) [OF assms, of i s2] del by simp
      then show ?thesis
        using t by (simp add: stop_container_def load 2 task q attempt_call_def unless_missing_def del split: option.split)
    qed
  qed
qed

lemma ctrd_Stop_touches:
  assumes "containerd_laws L containers"
  shows "touches containers i s (fst (ctrd_Stop L i s))"
    and "snd (ctrd_Stop L i s) = None \<Longrightarrow> containers (cx_daemon (fst (ctrd_Stop L i s))) i = None"
proof -
  let ?p = "fmlookup (cx_watching s) i"
  note t = stop_container_touches [OF assms, where i = i and p = ?p and s = "mark_stopping i s"]
  have "touches containers i s (fst (stop_container L i ?p (mark_stopping i s)))"
    using t(1) by (simp add: touches_def)
  then show "touches containers i s (fst (ctrd_Stop L i s))"
    by (auto simp: ctrd_Stop_def touches_def forget_inv split: prod.split)
  show "snd (ctrd_Stop L i s) = None \<Longrightarrow> containers (cx_daemon (fst (ctrd_Stop L i s))) i = None"
    using t(2) by (auto simp: ctrd_Stop_def split: prod.splits sum.splits)
qed

section \<open>The contract\<close>

lemma containerd_ops [simp]:
  "ex_Start (containerd_executor L) a r s = (case reporting (ctrd_Start a r) s of (s1, rs) \<Rightarrow> (s1, rs, None))"
  "fst (ex_Stop (containerd_executor L) i s) = fst (reporting (fst \<circ> ctrd_Stop L i) s)"
  "snd (snd (ex_Stop (containerd_executor L) i s)) = snd (ctrd_Stop L i (s\<lparr>cx_sent := []\<rparr>))"
  "ex_List (containerd_executor L) = ctrd_List L"
  by (simp_all add: containerd_executor_def split: prod.split)

lemma reporting_fst [simp]: "fst (reporting f s) = (f (s\<lparr>cx_sent := []\<rparr>))\<lparr>cx_sent := []\<rparr>"
  by (simp add: reporting_def Let_def)

lemma containerd_is_executor:
  assumes "containerd_laws L containers"
  shows "executor_contract (containerd_executor L) (ctrd_step L containers) ctrd_inv (\<lambda>s. containers (cx_daemon s))"
proof
  fix s :: "('a, 'b) ctrd" and a r
  assume inv: "ctrd_inv s"
  show "ctrd_inv (fst (ex_Start (containerd_executor L) a r s))"
    using inv by (simp add: ctrd_Start_inv split: prod.split) (metis ctrd_Start_inv ctrd_inv_fields(2) fst_conv reporting_fst)
  show "containers (cx_daemon s) \<subseteq>\<^sub>m containers (cx_daemon (fst (ex_Start (containerd_executor L) a r s)))"
    by (simp split: prod.split add: reporting_def Let_def)
  show "containers (cx_daemon (fst (ex_Start (containerd_executor L) a r s))) i = containers (cx_daemon s) i" for i
    by (simp split: prod.split add: reporting_def Let_def)
next
  fix s :: "('a, 'b) ctrd" and i
  assume inv: "ctrd_inv s"
  note t = ctrd_Stop_touches [OF assms, of i "s\<lparr>cx_sent := []\<rparr>"]
  show "ctrd_inv (fst (ex_Stop (containerd_executor L) i s))"
    using inv t(1) by (simp add: touches_def)
  show "containers (cx_daemon (fst (ex_Stop (containerd_executor L) i s))) k = containers (cx_daemon s) k" if "k \<noteq> i" for k
    using that t(1) by (simp add: touches_def)
  show "containers (cx_daemon (fst (ex_Stop (containerd_executor L) i s))) i = None"
    if "snd (snd (ex_Stop (containerd_executor L) i s)) = None"
    using that t(2) by simp
next
  fix s :: "('a, 'b) ctrd" and ids
  assume "ex_List (containerd_executor L) s = Inr ids"
  then obtain xs where "lib_Containers L s = Inr xs" "ids = sort_slice (<) xs"
    by (auto simp: ctrd_List_def split: sum.splits)
  then show "set ids = dom (containers (cx_daemon s))"
    using containerd_lawsD2(2) [OF assms] by simp
next
  fix s s' :: "('a, 'b) ctrd" and rs
  assume inv: "ctrd_inv s" and step: "ctrd_step L containers s (s', rs)"
  have "\<exists>i. grows containers i s s'"
    using step
  proof (cases rule: ctrd_step.cases)
    case (go_run k)
    let ?s = "s\<lparr>cx_runs := drop_nth k (cx_runs s), cx_sent := []\<rparr>"
    have "grows containers (asg_ID (cx_runs s ! k)) ?s (ctrd_background L (cx_runs s ! k) ?s)"
      by (rule ctrd_background_grows [OF assms])
    then show ?thesis using go_run(1) by (auto simp: reporting_def Let_def grows_def)
  next
    case (go_exit k a ch s1)
    have "grows containers [] (s\<lparr>cx_exits := drop_nth k (cx_exits s), cx_sent := []\<rparr>) s1"
      using watchExit_grows [OF go_exit(5) assms] .
    then show ?thesis using go_exit(1) by (auto simp: grows_def)
  next
    case (go_daemon d)
    then show ?thesis by (auto simp: grows_def)
  qed
  then show "ctrd_inv s'" "containers (cx_daemon s) \<subseteq>\<^sub>m containers (cx_daemon s')"
    using inv by (auto simp: grows_def)
qed

section \<open>Exits are reported\<close>

text \<open>
  Containerd may go away any number of times, but not for ever: \<open>n\<close> bounds the errors still to
  come of a daemon that holds the container and its task, which \<open>holds\<close> says and which lasts.
\<close>

definition settles :: "('d \<Rightarrow> bool) \<Rightarrow> ('d \<Rightarrow> nat) \<Rightarrow> ('r, 'd, 'a) call \<Rightarrow> bool" where
  "settles holds n f \<longleftrightarrow> (\<forall>s. holds (cx_daemon s) \<longrightarrow> holds (cx_daemon (fst (f s))) \<and> n (cx_daemon (fst (f s))) \<le> n (cx_daemon s) \<and>
     (\<forall>e. snd (f s) = Inl e \<longrightarrow> n (cx_daemon (fst (f s))) < n (cx_daemon s) \<and> (\<exists>m. e = OtherError m)))"

definition outages_end :: "('r, 'd) ctrd_lib \<Rightarrow> string \<Rightarrow> ('d \<Rightarrow> bool) \<Rightarrow> ('d \<Rightarrow> nat) \<Rightarrow> bool" where
  "outages_end L i holds n \<longleftrightarrow> settles holds n (lib_LoadContainer L i) \<and> settles holds n (lib_Task L i) \<and> settles holds n (lib_Wait L i) \<and>
     (\<forall>ch. settles holds n (lib_Exit L ch)) \<and> (\<forall>t s. holds (cx_daemon s) \<longrightarrow> holds (cx_daemon (lib_Sleep L t s)) \<and> n (cx_daemon (lib_Sleep L t s)) \<le> n (cx_daemon s))"

lemma settled_call:
  assumes "only_daemon (fst \<circ> f)" "settles holds n f" "holds d"
  obtains d' x where "f (s\<lparr>cx_daemon := d\<rparr>) = (s\<lparr>cx_daemon := d'\<rparr>, Inr x)" "holds d'" "n d' \<le> n d"
  | d' m where "f (s\<lparr>cx_daemon := d\<rparr>) = (s\<lparr>cx_daemon := d'\<rparr>, Inl (OtherError m))" "holds d'" "n d' < n d"
proof -
  let ?s = "s\<lparr>cx_daemon := d\<rparr>"
  let ?d = "cx_daemon (fst (f ?s))"
  have "(fst \<circ> f) ?s = ?s\<lparr>cx_daemon := cx_daemon ((fst \<circ> f) ?s)\<rparr>" using assms(1) unfolding only_daemon_def by blast
  then have st: "f ?s = (s\<lparr>cx_daemon := ?d\<rparr>, snd (f ?s))" by (cases "f ?s") simp
  have "holds (cx_daemon ?s) \<longrightarrow> holds ?d \<and> n ?d \<le> n (cx_daemon ?s) \<and> (\<forall>e. snd (f ?s) = Inl e \<longrightarrow> n ?d < n (cx_daemon ?s) \<and> (\<exists>m. e = OtherError m))"
    using assms(2) unfolding settles_def by blast
  with assms(3) have n: "n ?d \<le> n d" "\<And>e. snd (f ?s) = Inl e \<Longrightarrow> n ?d < n d \<and> (\<exists>m. e = OtherError m)" "holds ?d" by simp_all
  show thesis
  proof (cases "snd (f ?s)")
    case (Inl e)
    with n(2) obtain m where "e = OtherError m" "n ?d < n d" by blast
    with st Inl n(3) show thesis by (intro that(2) [of ?d m]) simp_all
  next
    case (Inr x)
    with st n(1,3) show thesis by (intro that(1) [of ?d x]) simp_all
  qed
qed

lemma released_daemon [simp]: "released i (s\<lparr>cx_daemon := d\<rparr>) = released i s"
  by (auto simp: released_def split: option.split)

lemma rewait_once_settled:
  assumes "containerd_laws L containers" "outages_end L i holds n" "\<not> released i s" "holds d"
  obtains d' ch where "rewait_once L i (s\<lparr>cx_daemon := d\<rparr>) = (s\<lparr>cx_daemon := d'\<rparr>, Some (Some ch))" "holds d'" "n d' \<le> n d"
  | d' where "rewait_once L i (s\<lparr>cx_daemon := d\<rparr>) = (s\<lparr>cx_daemon := d'\<rparr>, None)" "holds d'" "n d' < n d"
proof -
  note od = containerd_lawsD [OF assms(1), unfolded steady_def]
  have st: "settles holds n (lib_LoadContainer L i)" "settles holds n (lib_Task L i)" "settles holds n (lib_Wait L i)"
    using assms(2) by (auto simp: outages_end_def)
  show thesis
  proof (rule settled_call [where s = s and d = d, OF conjunct1 [OF od(8)] st(1) assms(4)])
    fix d1 x
    assume 1: "lib_LoadContainer L i (s\<lparr>cx_daemon := d\<rparr>) = (s\<lparr>cx_daemon := d1\<rparr>, Inr x)" "holds d1" "n d1 \<le> n d"
    show thesis
    proof (rule settled_call [where s = s and d = d1, OF conjunct1 [OF od(3)] st(2) 1(2)])
      fix d2 y
      assume 2: "lib_Task L i (s\<lparr>cx_daemon := d1\<rparr>) = (s\<lparr>cx_daemon := d2\<rparr>, Inr y)" "holds d2" "n d2 \<le> n d1"
      show thesis
      proof (rule settled_call [where s = s and d = d2, OF conjunct1 [OF od(4)] st(3) 2(2)])
        fix d3 ch
        assume "lib_Wait L i (s\<lparr>cx_daemon := d2\<rparr>) = (s\<lparr>cx_daemon := d3\<rparr>, Inr ch)" "holds d3" "n d3 \<le> n d2"
        with 1 2 assms(3) show thesis by (intro that(1) [of d3 ch]) (simp_all add: rewait_once_def rewait_look_def)
      next
        fix d3 m
        assume "lib_Wait L i (s\<lparr>cx_daemon := d2\<rparr>) = (s\<lparr>cx_daemon := d3\<rparr>, Inl (OtherError m))" "holds d3" "n d3 < n d2"
        with 1 2 assms(3) show thesis by (intro that(2) [of d3]) (simp_all add: rewait_once_def rewait_look_def)
      qed
    next
      fix d2 m
      assume "lib_Task L i (s\<lparr>cx_daemon := d1\<rparr>) = (s\<lparr>cx_daemon := d2\<rparr>, Inl (OtherError m))" "holds d2" "n d2 < n d1"
      with 1 assms(3) show thesis by (intro that(2) [of d2]) (simp_all add: rewait_once_def rewait_look_def)
    qed
  next
    fix d1 m
    assume "lib_LoadContainer L i (s\<lparr>cx_daemon := d\<rparr>) = (s\<lparr>cx_daemon := d1\<rparr>, Inl (OtherError m))" "holds d1" "n d1 < n d"
    with assms(3) show thesis by (intro that(2) [of d1]) (simp_all add: rewait_once_def rewait_look_def)
  qed
qed

lemma Sleep_settled:
  assumes "containerd_laws L containers" "outages_end L i holds n" "holds d"
  obtains d' where "lib_Sleep L b (s\<lparr>cx_daemon := d\<rparr>) = s\<lparr>cx_daemon := d'\<rparr>" "holds d'" "n d' \<le> n d"
proof -
  let ?s = "s\<lparr>cx_daemon := d\<rparr>"
  have "lib_Sleep L b ?s = ?s\<lparr>cx_daemon := cx_daemon (lib_Sleep L b ?s)\<rparr>"
    using containerd_lawsD(13) [OF assms(1), of b] unfolding steady_def only_daemon_def by blast
  moreover have "holds (cx_daemon ?s) \<longrightarrow> holds (cx_daemon (lib_Sleep L b ?s)) \<and> n (cx_daemon (lib_Sleep L b ?s)) \<le> n (cx_daemon ?s)"
    using assms(2) unfolding outages_end_def by blast
  ultimately show thesis using assms(3) by (intro that [of "cx_daemon (lib_Sleep L b ?s)"]) simp_all
qed

lemma rewait_returns:
  assumes "containerd_laws L containers" "outages_end L i holds n" "\<not> released i s"
  shows "holds d \<Longrightarrow> \<exists>d' ch. rewait L i b (s\<lparr>cx_daemon := d\<rparr>) = Some (s\<lparr>cx_daemon := d'\<rparr>, Some ch) \<and> holds d' \<and> n d' \<le> n d"
proof (induction "n d" arbitrary: d b rule: less_induct)
  case less
  show ?case
  proof (rule rewait_once_settled [where d = d, OF assms less.prems])
    fix d' ch
    assume "rewait_once L i (s\<lparr>cx_daemon := d\<rparr>) = (s\<lparr>cx_daemon := d'\<rparr>, Some (Some ch))" "holds d'" "n d' \<le> n d"
    then show ?case by (auto simp: rewait.simps [of L i b "s\<lparr>cx_daemon := d\<rparr>"])
  next
    fix d1
    assume 1: "rewait_once L i (s\<lparr>cx_daemon := d\<rparr>) = (s\<lparr>cx_daemon := d1\<rparr>, None)" "holds d1" "n d1 < n d"
    obtain d2 where 2: "lib_Sleep L b (s\<lparr>cx_daemon := d1\<rparr>) = s\<lparr>cx_daemon := d2\<rparr>" "holds d2" "n d2 \<le> n d1"
      using Sleep_settled [OF assms(1,2) 1(2)] .
    have "n d2 < n d" using 1(3) 2(3) by simp
    from less.hyps [OF this 2(2), of "if b < 10 * time_Second then b * 2 else b"] 1 2 show ?case
      by (auto simp: rewait.simps [of L i b "s\<lparr>cx_daemon := d\<rparr>"] split: if_splits)
  qed
qed

text \<open>The report of an exit.\<close>

definition exit_report :: "assignment \<Rightarrow> 32 word \<Rightarrow> assignment_phase \<times> string" where
  "exit_report a code =
     (if owner_kind a = KindJob then (if code = 0 then Succeeded else Failed, ''exited with code '' @ show_nat (unat code))
      else (Failed, ''service exited with code '' @ show_nat (unat code)))"

lemma exited_sent:
  assumes "fmlookup (cx_watching s) (asg_ID a) = Some p" "p < length (cx_heap s)" "\<not> wt_stopping (cx_heap s ! p)"
  shows "cx_sent (exited a code s) = cx_sent s @ [(wt_report (cx_heap s ! p), exit_report a code)]"
proof -
  have "''exited with code 0'' = ''exited with code '' @ show_nat (unat (0 :: 32 word))" by code_simp
  with assms show ?thesis
    by (auto simp: exited_def released_def reportFor_def send_report_def update_watch_def exit_report_def Let_def)
qed

text \<open>
  C31: A workload that ends while the agent watches it is reported, once and with the right phase:
  however often containerd goes away in between, provided it comes back and still has the
  task, \<open>watchExit\<close> returns and has told the reporter \<open>Succeeded\<close> for a job that exited with
  code 0 and \<open>Failed\<close> for any other job and for a service, with the code, and nothing else.
\<close>

theorem exit_reported:
  assumes "containerd_laws L containers" "outages_end L (asg_ID a) holds n"
    and "holds (cx_daemon s)" "\<And>ch s c. holds (cx_daemon s) \<Longrightarrow> snd (lib_Exit L ch s) = Inr c \<Longrightarrow> c = code"
    and "fmlookup (cx_watching s) (asg_ID a) = Some p" "p < length (cx_heap s)" "\<not> wt_stopping (cx_heap s ! p)"
  shows "\<exists>s'. watchExit L a ch s = Some s' \<and> cx_sent s' = cx_sent s @ [(wt_report (cx_heap s ! p), exit_report a code)]"
proof -
  have nr: "\<not> released (asg_ID a) s" using assms(5,7) by (simp add: released_def)
  have ex: "settles holds n (lib_Exit L ch)" for ch using assms(2) by (simp add: outages_end_def)
  note od = containerd_lawsD(11) [OF assms(1), unfolded steady_def, THEN conjunct1]
  have "\<exists>s'. watchExit L a ch (s\<lparr>cx_daemon := d\<rparr>) = Some s' \<and>
      cx_sent s' = cx_sent s @ [(wt_report (cx_heap s ! p), exit_report a code)]" if "holds d" for d
    using that
  proof (induction "n d" arbitrary: d ch rule: less_induct)
    case less
    show ?case
    proof (rule settled_call [where s = s and d = d, OF od ex [of ch] less.prems])
      fix d' c
      assume 1: "lib_Exit L ch (s\<lparr>cx_daemon := d\<rparr>) = (s\<lparr>cx_daemon := d'\<rparr>, Inr c)" "holds d'" "n d' \<le> n d"
      then have "c = code" using assms(4) [of "s\<lparr>cx_daemon := d\<rparr>" ch c] less.prems by simp
      then show ?case
        using exited_sent [of "s\<lparr>cx_daemon := d'\<rparr>" a p code] assms(5-7) 1
        by (simp add: watchExit.simps [of L a ch "s\<lparr>cx_daemon := d\<rparr>"])
    next
      fix d1 m
      assume 1: "lib_Exit L ch (s\<lparr>cx_daemon := d\<rparr>) = (s\<lparr>cx_daemon := d1\<rparr>, Inl (OtherError m))" "holds d1" "n d1 < n d"
      obtain d2 ch2 where 2: "rewait L (asg_ID a) time_Second (s\<lparr>cx_daemon := d1\<rparr>) = Some (s\<lparr>cx_daemon := d2\<rparr>, Some ch2)" "holds d2" "n d2 \<le> n d1"
        using rewait_returns [OF assms(1,2) nr 1(2)] by blast
      have "n d2 < n d" using 1(3) 2(3) by simp
      from less.hyps [OF this 2(2), of ch2] 1 2 show ?case
        by (simp add: watchExit.simps [of L a ch "s\<lparr>cx_daemon := d\<rparr>"])
    qed
  qed
  from this [of "cx_daemon s"] assms(3) show ?thesis by simp
qed

section \<open>Stopping is quiet\<close>

text \<open>Two states that differ in the daemon only.\<close>

definition same_exec :: "('r, 'd) ctrd \<Rightarrow> ('r, 'd) ctrd \<Rightarrow> bool" where
  "same_exec s s' \<longleftrightarrow> s' = s\<lparr>cx_daemon := cx_daemon s'\<rparr>"

lemma same_exec_transp: "transp same_exec"
proof (rule transpI)
  fix x y z :: "('r, 'd) ctrd"
  assume "same_exec x y" "same_exec y z"
  then obtain d e where "y = x\<lparr>cx_daemon := d\<rparr>" "z = y\<lparr>cx_daemon := e\<rparr>" unfolding same_exec_def by blast
  then show "same_exec x z" by (simp add: same_exec_def)
qed

lemma same_exec_fields: "same_exec s u \<Longrightarrow> cx_sent u = cx_sent s \<and> cx_watching u = cx_watching s \<and> cx_heap u = cx_heap s"
proof -
  assume "same_exec s u"
  then obtain d where "u = s\<lparr>cx_daemon := d\<rparr>" unfolding same_exec_def by blast
  then show ?thesis by simp
qed

lemma same_exec_refl [simp]: "same_exec s s"
  by (simp add: same_exec_def)

lemma steady_same: "steady containers f \<Longrightarrow> same_exec s (f s)"
  unfolding steady_def only_daemon_def same_exec_def by blast

lemma only_daemon_same: "only_daemon f \<Longrightarrow> same_exec s (f s)"
  unfolding only_daemon_def same_exec_def by blast

lemmas law_same = containerd_lawsD(1-13) [THEN steady_same, unfolded comp_def]
lemmas same_call = attempt_call_rel [OF same_exec_transp]
lemmas same_case = case_rel [OF same_exec_transp]

lemma stop_task_same: "containerd_laws L containers \<Longrightarrow> same_exec s (fst (stop_task L i s))"
proof -
  assume laws: "containerd_laws L containers"
  have ended: "same_exec s (fst (terminate_task L i s))" for s
    unfolding terminate_task_def
    by (intro same_call same_case) (auto split: bool.split intro!: same_call intro: law_same [OF laws])
  have "same_exec s (fst (killTask L i s))" for s
    unfolding killTask_def Let_def
    by (intro same_call same_case) (auto split: sum.split intro!: same_call ended intro: law_same [OF laws])
  then show ?thesis
    unfolding stop_task_def by (intro same_case law_same [OF laws]) (auto split: sum.split lib_error.split)
qed

lemma stop_container_same:
  assumes "containerd_laws L containers" "stop_container L i p m = (t, r)"
  shows "same_exec m t \<or> r = Inr () \<and> (\<exists>q u. p = Some q \<and> same_exec m u \<and>
      t = send_report (wt_report (cx_heap u ! q)) Stopped ''stopped by agent'' u)"
proof -
  obtain s1 r1 where 1: "lib_LoadContainer L i m = (s1, r1)" by fastforce
  obtain s2 r2 where 2: "stop_task L i s1 = (s2, r2)" by fastforce
  obtain s3 r3 where 3: "unless_missing (lib_DeleteContainer L i) s2 = (s3, r3)" by fastforce
  have "same_exec m s1" using law_same(8) [where s = m and i = i, OF assms(1)] 1 by simp
  moreover have "same_exec s1 s2" using stop_task_same [where s = s1 and i = i, OF assms(1)] 2 by simp
  moreover have "same_exec s2 s3"
    using only_daemon_same [where s = s2, OF containerd_lawsD(15) [where i = i, OF assms(1)]] 3 by (simp add: unless_missing_def split: prod.splits) (metis fst_apsnd fst_conv)
  ultimately have e: "same_exec m s1" "same_exec m s2" "same_exec m s3"
    using same_exec_transp by (blast dest: transpD)+
  show ?thesis
  proof (cases r1)
    case (Inl err)
    then have "t = s1" using assms(2) by (cases err) (simp_all add: stop_container_def 1)
    with e show ?thesis by simp
  next
    case (Inr u)
    have t2: "(case r2 of Inl e \<Rightarrow> (s2, Inl e) | Inr wasRunning \<Rightarrow>
        attempt_call ''delete container'' (unless_missing (lib_DeleteContainer L i)) (\<lambda>_ s4.
          (case p of None \<Rightarrow> s4 | Some q \<Rightarrow>
            if wasRunning then send_report (wt_report (cx_heap s4 ! q)) Stopped ''stopped by agent'' s4 else s4, Inr ())) s2) = (t, r)"
      using assms(2) by (simp add: stop_container_def 1 Inr 2)
    show ?thesis
    proof (cases r2)
      case (Inl err)
      with t2 e show ?thesis by auto
    next
      case (Inr b)
      with t2 e show ?thesis
        by (cases r3; cases p; cases b) (auto simp: attempt_call_def 3)
    qed
  qed
qed

section \<open>Limits\<close>

lemma sint_small: "- (2 ^ 63) \<le> k \<Longrightarrow> k < 2 ^ 63 \<Longrightarrow> sint (word_of_int k :: 64 word) = k"
  by (subst sint_sbintrunc') (simp add: signed_take_bit_int_eq_self)

lemma sint_mult_100000:
  fixes c :: "64 word"
  assumes "0 < sint c" "sint c < 2 ^ 46"
  shows "sint (c * 100000) = sint c * 100000"
proof -
  have "c * 100000 = word_of_int (sint c * 100000)" by (simp add: wi_hom_mult [symmetric])
  moreover have "sint (word_of_int (sint c * 100000) :: 64 word) = sint c * 100000"
    using assms by (intro sint_small) auto
  ultimately show ?thesis by (simp only:)
qed

lemma cpu_quota:
  fixes c :: "64 word"
  assumes "0 < sint c" "sint c < 2 ^ 46"
  shows "sint (word_of_int (sint (c * 100000) sdiv 1000) :: 64 word) = 100 * sint c"
proof -
  have "sint (c * 100000) sdiv 1000 = 100 * sint c"
    using assms(1) by (simp add: sint_mult_100000 [OF assms] signed_divide_int_def)
  moreover have "sint (word_of_int (100 * sint c) :: 64 word) = 100 * sint c"
    using assms by (intro sint_small) auto
  ultimately show ?thesis by (simp only:)
qed

lemma memory_limit:
  fixes m :: "64 word"
  assumes "0 < sint m" "sint m < 2 ^ 43"
  shows "uint (push_bit 20 m) = sint m * 2 ^ 20"
proof -
  have u: "uint m = sint m" using assms by (simp add: uint_sint take_bit_int_eq_self)
  have "uint (push_bit 20 m) = take_bit 64 (push_bit 20 (uint m))" by (simp add: unsigned_push_bit_eq)
  also have "\<dots> = sint m * 2 ^ 20" using assms by (simp add: u push_bit_eq_mult take_bit_int_eq_self)
  finally show ?thesis .
qed

text \<open>
  A container gets the resources its assignment asks for, the ones the scheduler has counted:
  below 2^43 MB the memory limit is that many times 2^20 bytes, without wrapping, and below
  2^46 millicores the quota is 100 microseconds a millicore in every period of 100 ms; a
  request that is not positive sets no limit.
\<close>

theorem container_limits:
  "(0 <s res_Memory (asg_resources a) \<and> sint (res_Memory (asg_resources a)) < 2 ^ 43 \<longrightarrow>
      (\<exists>x. WithMemoryLimit x \<in> set (spec_opts img a) \<and> uint x = sint (res_Memory (asg_resources a)) * 2 ^ 20)) \<and>
    (0 <s res_CPU (asg_resources a) \<and> sint (res_CPU (asg_resources a)) < 2 ^ 46 \<longrightarrow>
      (\<exists>x. WithCPUCFS x cpuPeriodMicros \<in> set (spec_opts img a) \<and> sint x = 100 * sint (res_CPU (asg_resources a)))) \<and>
    (res_Memory (asg_resources a) <=s 0 \<longrightarrow> (\<nexists>x. WithMemoryLimit x \<in> set (spec_opts img a))) \<and>
    (res_CPU (asg_resources a) <=s 0 \<longrightarrow> (\<nexists>x y. WithCPUCFS x y \<in> set (spec_opts img a)))"
  using memory_limit [of "res_Memory (asg_resources a)"] cpu_quota [of "res_CPU (asg_resources a)"]
  by (auto simp: spec_opts_def cpuPeriodMicros_def word_sless_alt word_sle_eq)

section \<open>What goes wrong\<close>

text \<open>
  An error that will pass fails a healthy workload: when the agent has restarted and containerd
  does not answer just then, the goroutine of \<open>Start\<close> reports the assignment as \<open>Failed\<close> and
  stops watching it, while its container is there as before.
\<close>

theorem attach_error_fails:
  assumes "containerd_laws L containers" "fmlookup (cx_watching s) (asg_ID a) = Some p" "p < length (cx_heap s)"
    and "lib_LoadContainer L (asg_ID a) s = (s1, Inl (OtherError e))"
  shows "cx_sent (ctrd_background L a s) = cx_sent s @ [(wt_report (cx_heap s ! p), Failed, ''load container: '' @ e)] \<and>
    fmlookup (cx_watching (ctrd_background L a s)) (asg_ID a) = None \<and>
    containers (cx_daemon (ctrd_background L a s)) = containers (cx_daemon s)"
proof -
  have "same_exec s s1" "containers (cx_daemon s1) = containers (cx_daemon s)"
    using law_same(8) [where s = s and i = "asg_ID a", OF assms(1)] containerd_lawsD(8) [where i = "asg_ID a", OF assms(1)] assms(4)
    by (auto simp: steady_def dest: spec [of _ s])
  then show ?thesis
    using assms(2-4)
    by (auto simp: ctrd_background_def ctrd_run_def reportFor_def send_report_def update_watch_def forget_def Let_def
        dest!: same_exec_fields)
qed

text \<open>The library with a \<open>Stop\<close> of the agent while the image is pulled.\<close>

definition stop_while_pulling :: "string \<Rightarrow> ('r, 'd) ctrd_lib \<Rightarrow> ('r, 'd) ctrd_lib" where
  "stop_while_pulling i L = L\<lparr>lib_Pull := \<lambda>img s. lib_Pull L img (fst (ctrd_Stop L i s))\<rparr>"

definition answers :: "('r, 'd, 'a) call \<Rightarrow> 'a \<Rightarrow> bool" where
  "answers f x \<longleftrightarrow> (\<forall>s. snd (f s) = Inr x)"

lemma answers_call: "answers f x \<Longrightarrow> f s = (fst (f s), Inr x)"
  unfolding answers_def by (metis prod.collapse)

lemma stop_while_pulling_simps [simp]:
  "lib_ParseDockerRef (stop_while_pulling i L) = lib_ParseDockerRef L" "lib_GetImage (stop_while_pulling i L) = lib_GetImage L"
  "lib_LoadContainer (stop_while_pulling i L) = lib_LoadContainer L" "lib_NewContainer (stop_while_pulling i L) = lib_NewContainer L"
  "lib_Pull (stop_while_pulling i L) named s = lib_Pull L named (fst (ctrd_Stop L i s))"
  "lib_NewTask (stop_while_pulling i L) = lib_NewTask L" "lib_Wait (stop_while_pulling i L) = lib_Wait L"
  "lib_Start (stop_while_pulling i L) = lib_Start L" "lib_DeleteTask (stop_while_pulling i L) = lib_DeleteTask L"
  by (simp_all add: stop_while_pulling_def)

lemma startTask_stop_while_pulling [simp]: "startTask (stop_while_pulling i L) = startTask L"
  by (intro ext) (unfold startTask_def stop_while_pulling_simps, rule refl)

lemma Stop_nothing:
  assumes "containerd_laws L containers" "snd (lib_LoadContainer L i (mark_stopping i s)) = Inl (NotFound e)"
  shows "snd (ctrd_Stop L i s) = None" "released i (fst (ctrd_Stop L i s))"
    "containers (cx_daemon (fst (ctrd_Stop L i s))) = containers (cx_daemon s)"
proof -
  let ?m = "mark_stopping i s"
  obtain s1 where 1: "lib_LoadContainer L i ?m = (s1, Inl (NotFound e))" using assms(2) by (metis prod.collapse)
  moreover have "containers (cx_daemon s1) = containers (cx_daemon ?m)"
    using containerd_lawsD(8) [where i = i, OF assms(1)] 1 by (auto simp: steady_def dest: spec [of _ ?m])
  ultimately show "snd (ctrd_Stop L i s) = None" "released i (fst (ctrd_Stop L i s))"
    "containers (cx_daemon (fst (ctrd_Stop L i s))) = containers (cx_daemon s)"
    by (simp_all add: ctrd_Stop_def stop_container_def released_def forget_def)
qed

text \<open>
  A workload can outlive its \<open>Stop\<close>: called while the image is still pulled, \<open>Stop\<close> finds no
  container, succeeds and forgets the assignment, and then the container is created and
  started all the same. It runs unwatched until a synchronisation finds it in the listing.
\<close>

theorem stop_misses_creation:
  assumes laws: "containerd_laws L containers" and "lib_ParseDockerRef L (asg_image a) = Inr named"
    and missing: "\<And>s. containers (cx_daemon s) (asg_ID a) = None \<Longrightarrow> \<exists>e. snd (lib_LoadContainer L (asg_ID a) s) = Inl (NotFound e)"
    and "\<And>s. \<exists>e. snd (lib_GetImage L named s) = Inl (NotFound e)"
    and "answers (lib_Pull L named) ()" "\<And>x. answers (lib_NewContainer L (asg_ID a) x) ()"
    and "\<And>x. answers (lib_NewTask L (asg_ID a) x) ()" "answers (lib_Wait L (asg_ID a)) ch" "answers (lib_Start L (asg_ID a)) ()"
    and "containers (cx_daemon s) (asg_ID a) = None"
  shows "\<exists>t u. ctrd_background (stop_while_pulling (asg_ID a) L) a s = u \<and> snd (ctrd_Stop L (asg_ID a) t) = None \<and>
    released (asg_ID a) u \<and> containers (cx_daemon u) (asg_ID a) \<noteq> None \<and> cx_exits u \<noteq> []"
proof -
  let ?i = "asg_ID a"
  have same: "containers (cx_daemon s') = containers (cx_daemon s)" "cx_watching s' = cx_watching s"
    if "steady containers (fst \<circ> f)" "f s = (s', r)" for f :: "('a, 'b, 'e) call" and s s' r
    using that steady_same [OF that(1), of s] by (auto simp: steady_def dest: spec [of _ s] same_exec_fields)
  obtain s1 e1 where 1: "lib_LoadContainer L ?i s = (s1, Inl (NotFound e1))" using missing [OF assms(10)] by (metis prod.collapse)
  obtain s2 e2 where 2: "lib_GetImage L named s1 = (s2, Inl (NotFound e2))" using assms(4) by (metis prod.collapse)
  have none: "containers (cx_daemon s2) ?i = None"
    using same(1) [OF containerd_lawsD(8) [OF laws] 1] same(1) [OF containerd_lawsD(1) [OF laws] 2] assms(10) by simp
  then have "containers (cx_daemon (mark_stopping ?i s2)) ?i = None" by simp
  from missing [OF this] obtain e3 where "snd (lib_LoadContainer L ?i (mark_stopping ?i s2)) = Inl (NotFound e3)" by blast
  note stop = Stop_nothing [OF laws this]
  let ?s3 = "fst (ctrd_Stop L ?i s2)"
  obtain s4 where 4: "lib_Pull L named ?s3 = (s4, Inr ())" using answers_call [OF assms(5)] by metis
  obtain s5 where 5: "lib_NewContainer L ?i (container_for named a) s4 = (s5, Inr ())" using answers_call [OF assms(6)] by metis
  obtain s6 where 6: "lib_NewTask L ?i (logPath ?i s5) s5 = (s6, Inr ())" using answers_call [OF assms(7)] by metis
  obtain s7 where 7: "lib_Wait L ?i s6 = (s7, Inr ch)" using answers_call [OF assms(8)] by metis
  obtain s8 where 8: "lib_Start L ?i s7 = (s8, Inr ())" using answers_call [OF assms(9)] by metis
  have "fmlookup (cx_watching ?s3) ?i = None" by (auto simp: ctrd_Stop_def forget_def split: prod.split)
  moreover have "cx_watching s5 = cx_watching s4"
    using only_daemon_same [where s = s4, OF containerd_lawsD(14) [where i = ?i and y = "container_for named a", OF laws]] 5
    by (auto dest: same_exec_fields)
  ultimately have w: "fmlookup (cx_watching s8) ?i = None"
    using same(2) [OF containerd_lawsD(2) [OF laws] 4] same(2) [OF containerd_lawsD(9) [OF laws] 6]
      same(2) [OF containerd_lawsD(4) [OF laws] 7] same(2) [OF containerd_lawsD(5) [OF laws] 8] by simp
  have "containers (cx_daemon s5) ?i \<noteq> None"
    using NewContainer_law(3) [OF laws, of ?i "container_for named a" s4] 5 by simp
  then have c: "containers (cx_daemon s8) ?i \<noteq> None"
    using same(1) [OF containerd_lawsD(9) [OF laws] 6] same(1) [OF containerd_lawsD(4) [OF laws] 7]
      same(1) [OF containerd_lawsD(5) [OF laws] 8] by simp
  have "ctrd_background (stop_while_pulling ?i L) a s = s8\<lparr>cx_exits := cx_exits s8 @ [(a, ch)]\<rparr>"
    using w by (simp add: ctrd_background_def ctrd_run_def create_def ensureImage_def attempt_call_def startTask_def
        1 2 4 5 6 7 8 assms(2) reportFor_def)
  with w c stop(1) show ?thesis
    by (intro exI [of _ s2] exI [of _ "s8\<lparr>cx_exits := cx_exits s8 @ [(a, ch)]\<rparr>"]) (simp add: released_def)
qed

end
