(* ===== verification/Containerd_Node.thy ===== *)
theory Containerd_Node
  imports Agent Containerd
begin

text \<open>The agent over the containerd runtime: what a restart of the agent keeps.\<close>

lemma containerd_node_runtime:
  "containerd_laws L containers \<Longrightarrow>
    node_runtime (containerd_executor L) (ctrd_step L containers) ctrd_inv (\<lambda>s. containers (cx_daemon s))"
  by (simp add: node_runtime_def containerd_is_executor)

abbreviation ctrd_steps where
  "ctrd_steps L containers \<equiv> (\<lambda>e e'. \<exists>rs. ctrd_step L containers e (e', rs))\<^sup>*\<^sup>*"

lemma ctrd_steps_keep:
  assumes "containerd_laws L containers" "ctrd_steps L containers e e'" "ctrd_inv e"
  shows "ctrd_inv e' \<and> containers (cx_daemon e) \<subseteq>\<^sub>m containers (cx_daemon e')"
  using assms(2,3)
proof (induction rule: rtranclp_induct)
  case (step e1 e2)
  note c = containerd_is_executor [OF assms(1)]
  from step obtain rs where "ctrd_step L containers e1 (e2, rs)" by blast
  then show ?case
    using step.IH [OF step.prems] executor_contract.bg_inv [OF c] executor_contract.bg_keeps [OF c] by (blast intro: map_le_trans)
qed simp

text \<open>
  C33: Containers outlive the agent: a new agent process on a daemon in whatever state, with a
  new executor that watches nothing, registers, gets an answer and lets its goroutines run; the
  container of every active assignment of the answer is the one that was there before, through
  all failures of calls to containerd. None is replaced by a second one.
\<close>

theorem containerd_restart:
  assumes "containerd_laws L containers" "NewContainerdExecutor None dial address logDir = Inr (the_exec m)"
    and "the_agent m = New_Agent self n c"
    and "RegisterNode send c n (the_world m) = (w1, Inr ())" "FetchAssignments send c (node_ID n) w1 = (w2, Inr as)"
    and "a \<in> set as" "active a" "containers (cx_daemon (the_exec m)) (asg_ID a) = Some x"
    and "ctrd_steps L containers (the_exec (fst (Run_start (containerd_executor L) send order m))) e"
  shows "containers (cx_daemon e) (asg_ID a) = Some x"
proof -
  let ?m = "m\<lparr>the_world := w1\<rparr>" and ?X = "containerd_executor L"
  note r = containerd_node_runtime [OF assms(1)]
  have inv: "ctrd_inv (the_exec ?m)" using NewContainerdExecutor_inv [OF assms(2)] by simp
  have run: "fst (Run_start ?X send order m) = fst (syncAssignments ?X send order ?m)"
    using assms(3,4) by (simp add: Run_start_def New_Agent_def)
  have "containers (cx_daemon (the_exec (fst (syncAssignments ?X send order ?m)))) (asg_ID a) = Some x"
    by (rule node_runtime.sync_keeps [OF r inv _ assms(6,7)]) (use assms(3,5,8) in \<open>simp_all add: New_Agent_def\<close>)
  moreover have "ctrd_inv (the_exec (fst (syncAssignments ?X send order ?m)))"
    using node_runtime.sync_inv [OF r inv] by blast
  ultimately show ?thesis
    using ctrd_steps_keep [OF assms(1,9)] unfolding run by (auto simp: map_le_def dom_def)
qed

end
