(* ===== verification/Containerd_Contract.thy ===== *)
theory Containerd_Contract
  imports Containerd
begin

text \<open>
  What the comments on \<open>Executor\<close> promise, shown of the containerd runtime: \<open>Start\<close> in the background,
  reports and their repetition, and \<open>Stop\<close> with the other goroutines running while it blocks.
\<close>

section \<open>Calls in a row\<close>



text \<open>
  How the goroutine of \<open>Start\<close> ends: an error leaves all but the daemon as it was; otherwise the last
  thing it does is to report \<open>Running\<close>, if anything, and to hand over to a watcher of the exit.
\<close>

definition handed_over :: "assignment \<Rightarrow> nat \<Rightarrow> ('r, 'd) ctrd \<Rightarrow> ('r, 'd) ctrd" where
  "handed_over a ch u = u\<lparr>cx_exits := cx_exits u @ [(a, ch)]\<rparr>"

definition ends_well :: "assignment \<Rightarrow> ('r, 'd) ctrd \<Rightarrow> ('r, 'd) ctrd \<times> (string + unit) \<Rightarrow> bool" where
  "ends_well a s x \<longleftrightarrow> (case snd x of
     Inl e \<Rightarrow> same_exec s (fst x)
   | Inr _ \<Rightarrow> \<exists>u ch. same_exec s u \<and>
       (fst x = handed_over a ch u \<or> (\<exists>m. fst x = handed_over a ch (reportFor (asg_ID a) Running m u))))"

lemma ends_well_simps [simp]:
  "ends_well a s (u, Inl e) = same_exec s u"
  "same_exec s u \<Longrightarrow> ends_well a s (handed_over a ch u, Inr v)"
  "same_exec s u \<Longrightarrow> ends_well a s (handed_over a ch (reportFor (asg_ID a) Running m u), Inr v)"
  by (auto simp: ends_well_def)









lemma cx_daemon_report [simp]: "cx_daemon (reportFor i q m s) = cx_daemon s"
  by (simp add: reportFor_def send_report_def update_watch_def Let_def split: option.split)








section \<open>The documented contract\<close>

definition ctrd_known :: "('r, 'd) ctrd \<Rightarrow> string \<Rightarrow> bool" where
  "ctrd_known s i \<longleftrightarrow> fmlookup (cx_watching s) i \<noteq> None"

definition ctrd_shown :: "('r, 'd) ctrd \<Rightarrow> string \<Rightarrow> (assignment_phase \<times> string) option" where
  "ctrd_shown s i = (case fmlookup (cx_watching s) i of
     None \<Rightarrow> None
   | Some p \<Rightarrow> if wt_phase (cx_heap s ! p) = NoPhase then None else Some (wt_phase (cx_heap s ! p), wt_message (cx_heap s ! p)))"

definition ctrd_in_flight :: "('r, 'd) ctrd \<Rightarrow> string \<Rightarrow> bool" where
  "ctrd_in_flight s i \<longleftrightarrow> (\<exists>a \<in> set (cx_runs s). asg_ID a = i)"

definition ctrd_begun :: "('r, 'd) ctrd \<Rightarrow> string \<Rightarrow> bool" where
  "ctrd_begun s i \<longleftrightarrow> ctrd_known s i \<and> ctrd_in_flight s i"

definition ctrd_watched :: "('r, 'd) ctrd \<Rightarrow> string \<Rightarrow> bool" where
  "ctrd_watched s i \<longleftrightarrow> (\<exists>(a, ch) \<in> set (cx_exits s). asg_ID a = i)"


lemma ctrd_views [simp]:
  "ctrd_known (s\<lparr>cx_sent := rs\<rparr>) = ctrd_known s" "ctrd_shown (s\<lparr>cx_sent := rs\<rparr>) = ctrd_shown s"
  "ctrd_in_flight (s\<lparr>cx_sent := rs\<rparr>) = ctrd_in_flight s" "ctrd_watched (s\<lparr>cx_sent := rs\<rparr>) = ctrd_watched s"
  "ctrd_begun (s\<lparr>cx_sent := rs\<rparr>) = ctrd_begun s"
  by (auto simp: fun_eq_iff ctrd_known_def ctrd_shown_def ctrd_in_flight_def ctrd_watched_def ctrd_begun_def split: option.split)


lemma reportFor_frame [simp]:
  "cx_watching (reportFor i q m s) = cx_watching s" "cx_runs (reportFor i q m s) = cx_runs s" "cx_exits (reportFor i q m s) = cx_exits s"
  by (simp_all add: reportFor_def send_report_def update_watch_def Let_def split: option.split)
















text \<open>
  When the agent dies between making a task and starting it, the next agent finds the task, reports it
  as running and waits for its exit; nothing ever starts it.
\<close>

theorem attach_created:
  assumes "lib_LoadContainer L (asg_ID a) s = (s1, Inr ())" "lib_Task L (asg_ID a) s1 = (s2, Inr ())"
    and "lib_Wait L (asg_ID a) s2 = (s3, Inr ch)" "lib_Status L (asg_ID a) s3 = (s4, Inr ''created'')"
  shows "ctrd_background L a s = handed_over a ch (reportFor (asg_ID a) Running ''re-attached to running container'' s4)"
  using assms by (simp add: ctrd_background_def ctrd_run_def attach_def attempt_call_def handed_over_def Let_def)

section \<open>Stopping while others run\<close>

text \<open>
  The library, with \<open>f\<close> run by other goroutines before and after each of the calls \<open>Stop\<close> makes, while
  \<open>Stop\<close> is blocked in it.
\<close>

definition interrupt :: "(('r, 'd) ctrd \<Rightarrow> ('r, 'd) ctrd) \<Rightarrow> (('r, 'd) ctrd \<Rightarrow> ('r, 'd) ctrd \<times> 'a) \<Rightarrow> ('r, 'd) ctrd \<Rightarrow> ('r, 'd) ctrd \<times> 'a" where
  "interrupt f call s = apfst f (call (f s))"

definition interrupted :: "(('r, 'd) ctrd \<Rightarrow> ('r, 'd) ctrd) \<Rightarrow> ('r, 'd) ctrd_lib \<Rightarrow> ('r, 'd) ctrd_lib" where
  "interrupted f L = L\<lparr>
     lib_LoadContainer := \<lambda>i. interrupt f (lib_LoadContainer L i), lib_Task := \<lambda>i. interrupt f (lib_Task L i),
     lib_Status := \<lambda>i. interrupt f (lib_Status L i), lib_Wait := \<lambda>i. interrupt f (lib_Wait L i),
     lib_Kill := \<lambda>i g. interrupt f (lib_Kill L i g), lib_Select := \<lambda>ch. interrupt f (lib_Select L ch),
     lib_Exit := \<lambda>ch. interrupt f (lib_Exit L ch), lib_DeleteTask := \<lambda>i. interrupt f (lib_DeleteTask L i),
     lib_DeleteContainer := \<lambda>i. interrupt f (lib_DeleteContainer L i)\<rparr>"

lemma interrupted_simps [simp]:
  "lib_LoadContainer (interrupted f L) i = interrupt f (lib_LoadContainer L i)" "lib_Task (interrupted f L) i = interrupt f (lib_Task L i)"
  "lib_Status (interrupted f L) i = interrupt f (lib_Status L i)" "lib_Wait (interrupted f L) i = interrupt f (lib_Wait L i)"
  "lib_Kill (interrupted f L) i g = interrupt f (lib_Kill L i g)" "lib_Select (interrupted f L) ch = interrupt f (lib_Select L ch)"
  "lib_Exit (interrupted f L) ch = interrupt f (lib_Exit L ch)" "lib_DeleteTask (interrupted f L) i = interrupt f (lib_DeleteTask L i)"
  "lib_DeleteContainer (interrupted f L) i = interrupt f (lib_DeleteContainer L i)"
  by (simp_all add: interrupted_def)

text \<open>Two pieces of code that do the same while the watch of \<open>i\<close> is marked or gone, and leave it so.\<close>

definition agrees :: "string \<Rightarrow> (('r, 'd) ctrd \<Rightarrow> ('r, 'd) ctrd \<times> 'a) \<Rightarrow> (('r, 'd) ctrd \<Rightarrow> ('r, 'd) ctrd \<times> 'a) \<Rightarrow> bool" where
  "agrees i c c' \<longleftrightarrow> (\<forall>s. released i s \<longrightarrow> c' s = c s \<and> released i (fst (c s)))"

lemma agreesD: "agrees i c c' \<Longrightarrow> released i s \<Longrightarrow> c' s = c s"
  by (simp add: agrees_def)

lemma agrees_call:
  assumes "agrees i c c'" "\<And>x. agrees i (k x) (k' x)"
  shows "agrees i (attempt_call w c k) (attempt_call w c' k')"
  using assms unfolding agrees_def attempt_call_def by (auto split: prod.split sum.split dest: spec)

lemma agrees_case:
  assumes "agrees i c c'" "\<And>r. agrees i (\<lambda>s. K s r) (\<lambda>s. K' s r)"
  shows "agrees i (\<lambda>s. case c s of (t, r) \<Rightarrow> K t r) (\<lambda>s. case c' s of (t, r) \<Rightarrow> K' t r)"
  using assms unfolding agrees_def by (auto split: prod.split dest: spec)

lemma agrees_pure: "(\<And>s. released i s \<Longrightarrow> released i (g s)) \<Longrightarrow> agrees i (\<lambda>s. (g s, r)) (\<lambda>s. (g s, r))"
  by (simp add: agrees_def)

lemma agrees_unless: "agrees i c c' \<Longrightarrow> agrees i (unless_missing c) (unless_missing c')"
  by (simp add: agrees_def unless_missing_def)

lemma same_released: "same_exec s u \<Longrightarrow> released i u = released i s"
  using same_exec_fields [of s u] by (auto simp: released_def split: option.split)

lemma agrees_interrupt:
  assumes "\<And>s. same_exec s (fst (c s))" "\<And>s. released i s \<Longrightarrow> f s = s"
  shows "agrees i c (interrupt f c)"
  using same_released [OF assms(1)] assms(2) by (simp add: agrees_def interrupt_def) (metis apfst_conv prod.collapse)

lemma stop_container_agrees:
  assumes laws: "containerd_laws L containers" and quiet: "\<And>s. released i s \<Longrightarrow> f s = s"
  shows "agrees i (stop_container L i p) (stop_container (interrupted f L) i p)"
proof -
  have call: "agrees i (lib_Task L j) (interrupt f (lib_Task L j))" "agrees i (lib_Status L j) (interrupt f (lib_Status L j))"
    "agrees i (lib_Wait L j) (interrupt f (lib_Wait L j))" "agrees i (lib_Kill L j g) (interrupt f (lib_Kill L j g))"
    "agrees i (lib_Select L ch) (interrupt f (lib_Select L ch))" "agrees i (lib_Exit L ch) (interrupt f (lib_Exit L ch))"
    "agrees i (lib_DeleteTask L j) (interrupt f (lib_DeleteTask L j))"
    "agrees i (lib_LoadContainer L j) (interrupt f (lib_LoadContainer L j))" for j g ch
    by (rule agrees_interrupt, rule law_same [OF laws], erule quiet)+
  have del: "agrees i (lib_DeleteContainer L i) (interrupt f (lib_DeleteContainer L i))"
    by (rule agrees_interrupt) (rule only_daemon_same [OF containerd_lawsD(15) [OF laws], unfolded comp_def], rule quiet)
  have ended: "agrees i (\<lambda>s. (fst (lib_Exit L ch s), Inr ())) (\<lambda>s. (fst (interrupt f (lib_Exit L ch) s), Inr ()))" for ch
    using call(6) [of ch] by (simp add: agrees_def)
  have ending: "agrees i (terminate_task L i) (terminate_task (interrupted f L) i)"
    unfolding terminate_task_def interrupted_simps
  proof (intro agrees_call agrees_unless call agrees_case)
    fix ch and b :: bool
    show "agrees i (\<lambda>s2. case b of True \<Rightarrow> (s2, Inr ())
        | False \<Rightarrow> attempt_call ''sigkill'' (unless_missing (lib_Kill L i SIGKILL)) (\<lambda>_ s3. (fst (lib_Exit L ch s3), Inr ())) s2)
      (\<lambda>s2. case b of True \<Rightarrow> (s2, Inr ())
        | False \<Rightarrow> attempt_call ''sigkill'' (unless_missing (interrupt f (lib_Kill L i SIGKILL)))
            (\<lambda>_ s3. (fst (interrupt f (lib_Exit L ch) s3), Inr ())) s2)"
      by (cases b) (simp_all add: agrees_pure agrees_call agrees_unless call ended)
  qed
  have kill: "agrees i (killTask L i) (killTask (interrupted f L) i)"
    unfolding killTask_def interrupted_simps Let_def
  proof (rule agrees_call [OF call(2)])
    fix status
    let ?running = "status \<noteq> ''stopped''"
    have "agrees i (\<lambda>s. if ?running then terminate_task L i s else (s, Inr ()))
        (\<lambda>s. if ?running then terminate_task (interrupted f L) i s else (s, Inr ()))"
      using ending by (simp add: agrees_def)
    then show "agrees i (\<lambda>s1. case if ?running then terminate_task L i s1 else (s1, Inr ()) of
          (s2, Inl e) \<Rightarrow> (s2, Inl e)
        | (s2, Inr _) \<Rightarrow> attempt_call ''delete task'' (unless_missing (lib_DeleteTask L i)) (\<lambda>_ s3. (s3, Inr ?running)) s2)
      (\<lambda>s1. case if ?running then terminate_task (interrupted f L) i s1 else (s1, Inr ()) of
          (s2, Inl e) \<Rightarrow> (s2, Inl e)
        | (s2, Inr _) \<Rightarrow> attempt_call ''delete task'' (unless_missing (interrupt f (lib_DeleteTask L i))) (\<lambda>_ s3. (s3, Inr ?running)) s2)"
    proof (rule agrees_case)
      fix r :: "string + unit"
      show "agrees i (\<lambda>s. case r of Inl e \<Rightarrow> (s, Inl e)
          | Inr _ \<Rightarrow> attempt_call ''delete task'' (unless_missing (lib_DeleteTask L i)) (\<lambda>_ s3. (s3, Inr ?running)) s)
        (\<lambda>s. case r of Inl e \<Rightarrow> (s, Inl e)
          | Inr _ \<Rightarrow> attempt_call ''delete task'' (unless_missing (interrupt f (lib_DeleteTask L i))) (\<lambda>_ s3. (s3, Inr ?running)) s)"
        by (cases r) (simp_all add: agrees_pure agrees_call agrees_unless call)
    qed
  qed
  have task: "agrees i (stop_task L i) (stop_task (interrupted f L) i)"
    unfolding stop_task_def interrupted_simps
  proof (rule agrees_case [OF call(1)])
    fix r :: "lib_error + unit"
    show "agrees i (\<lambda>s. case r of Inl (NotFound _) \<Rightarrow> (s, Inr False) | Inl (OtherError e) \<Rightarrow> (s, Inl (''load task: '' @ e))
        | Inr _ \<Rightarrow> killTask L i s)
      (\<lambda>s. case r of Inl (NotFound _) \<Rightarrow> (s, Inr False) | Inl (OtherError e) \<Rightarrow> (s, Inl (''load task: '' @ e))
        | Inr _ \<Rightarrow> killTask (interrupted f L) i s)"
      using kill by (cases r; cases "projl r") (simp_all add: agrees_pure)
  qed
  show ?thesis
    unfolding stop_container_def interrupted_simps
  proof (rule agrees_case [OF call(8)])
    fix r :: "lib_error + unit"
    let ?fin = "\<lambda>b s4. (case p of Some q \<Rightarrow> if b then send_report (wt_report (cx_heap s4 ! q)) Stopped ''stopped by agent'' s4 else s4
      | None \<Rightarrow> s4, Inr ())"
    have fin: "agrees i (?fin b) (?fin b)" for b
      by (auto simp: agrees_def released_def send_report_def split: option.split)
    have rest: "agrees i (\<lambda>s. case q of Inl e \<Rightarrow> (s, Inl e)
        | Inr b \<Rightarrow> attempt_call ''delete container'' (unless_missing (lib_DeleteContainer L i)) (\<lambda>_. ?fin b) s)
      (\<lambda>s. case q of Inl e \<Rightarrow> (s, Inl e)
        | Inr b \<Rightarrow> attempt_call ''delete container'' (unless_missing (interrupt f (lib_DeleteContainer L i))) (\<lambda>_. ?fin b) s)" for q :: "string + bool"
      by (cases q) (simp_all add: agrees_pure agrees_call agrees_unless del fin)
    show "agrees i (\<lambda>s. case r of Inl (NotFound _) \<Rightarrow> (s, Inr ()) | Inl (OtherError e) \<Rightarrow> (s, Inl (''load container: '' @ e))
        | Inr _ \<Rightarrow> (case stop_task L i s of (s3, Inl e) \<Rightarrow> (s3, Inl e)
          | (s3, Inr b) \<Rightarrow> attempt_call ''delete container'' (unless_missing (lib_DeleteContainer L i)) (\<lambda>_. ?fin b) s3))
      (\<lambda>s. case r of Inl (NotFound _) \<Rightarrow> (s, Inr ()) | Inl (OtherError e) \<Rightarrow> (s, Inl (''load container: '' @ e))
        | Inr _ \<Rightarrow> (case stop_task (interrupted f L) i s of (s3, Inl e) \<Rightarrow> (s3, Inl e)
          | (s3, Inr b) \<Rightarrow> attempt_call ''delete container'' (unless_missing (interrupt f (lib_DeleteContainer L i))) (\<lambda>_. ?fin b) s3))"
      using agrees_case [OF task rest] by (cases r; cases "projl r") (simp_all add: agrees_pure)
  qed
qed

lemma released_marked:
  assumes "\<And>p. fmlookup (cx_watching s) i = Some p \<Longrightarrow> p < length (cx_heap s)"
  shows "released i (mark_stopping i s)"
  using assms by (auto simp: released_def mark_stopping_def update_watch_def split: option.splits)

lemma ctrd_Stop_interrupted:
  assumes "containerd_laws L containers" "\<And>p. fmlookup (cx_watching s) i = Some p \<Longrightarrow> p < length (cx_heap s)"
    and "\<And>s. released i s \<Longrightarrow> f s = s"
  shows "ctrd_Stop (interrupted f L) i s = ctrd_Stop L i s"
  using agreesD [OF stop_container_agrees [where f = f, OF assms(1,3)] released_marked [OF assms(2)]] by (simp add: ctrd_Stop_def)

text \<open>
  C32: From the moment \<open>Stop\<close> has marked the watch nobody else speaks for the workload: with
  \<open>watchExit\<close> receiving the exit, with any code, or \<open>rewait\<close> starting a turn, against any
  answers of containerd, whenever one of \<open>Stop\<close>'s own calls blocks, \<open>Stop\<close> leaves the very same
  state, reports included. It makes at most one report, \<open>Stopped\<close> to the reporter of the watch,
  never when it fails or the assignment was not watched, and in every case it forgets the
  assignment. A turn of \<open>rewait\<close> that has checked the mark before \<open>Stop\<close> set it is another matter.
\<close>

theorem Stop_reports:
  assumes "containerd_laws L containers" "ctrd_Stop L i s = (s', err)"
    and "\<And>p. fmlookup (cx_watching s) i = Some p \<Longrightarrow> p < length (cx_heap s)" "asg_ID a = i"
  shows "ctrd_Stop (interrupted (exited a code) L) i s = (s', err) \<and>
    ctrd_Stop (interrupted (fst \<circ> rewait_once M i) L) i s = (s', err) \<and>
    (cx_sent s' = cx_sent s \<or>
      err = None \<and> (\<exists>p. fmlookup (cx_watching s) i = Some p \<and>
        cx_sent s' = cx_sent s @ [(wt_report (cx_heap s ! p), Stopped, ''stopped by agent'')])) \<and>
    cx_watching s' = fmdrop i (cx_watching s)"
proof -
  let ?m = "mark_stopping i s" and ?p = "fmlookup (cx_watching s) i"
  have "ctrd_Stop (interrupted (exited a code) L) i s = (s', err)"
    using ctrd_Stop_interrupted [where f = "exited a code", OF assms(1,3)] assms(2,4) by (simp add: exited_def)
  moreover have "ctrd_Stop (interrupted (fst \<circ> rewait_once M i) L) i s = (s', err)"
    using ctrd_Stop_interrupted [where f = "fst \<circ> rewait_once M i", OF assms(1,3)] assms(2) by (simp add: rewait_once_def)
  moreover have m: "cx_sent ?m = cx_sent s" "cx_watching ?m = cx_watching s"
    "\<And>p. ?p = Some p \<Longrightarrow> wt_report (cx_heap ?m ! p) = wt_report (cx_heap s ! p)"
    using assms(3) by (auto simp: mark_stopping_def update_watch_def split: option.splits)
  moreover obtain t r where t: "stop_container L i ?p ?m = (t, r)" by fastforce
  have "same_exec ?m t \<or> r = Inr () \<and> (\<exists>p u. ?p = Some p \<and> same_exec ?m u \<and>
      t = send_report (wt_report (cx_heap u ! p)) Stopped ''stopped by agent'' u)"
    using stop_container_same [OF assms(1) t] .
  moreover have "s' = forget i t" "err = None \<longleftrightarrow> r = Inr ()"
    using assms(2) by (auto simp: ctrd_Stop_def t split: sum.splits)
  ultimately show ?thesis
    by (auto simp: forget_def send_report_def dest!: same_exec_fields)
qed

end
