(* ===== verification/Examples_Containerd.thy ===== *)
theory Examples_Containerd
  imports Examples_Agent Containerd_Node Containerd_Contract
begin

text \<open>A containerd that keeps the promises of the client library, and the properties of the runtime with it.\<close>

section \<open>A daemon\<close>

text \<open>
  The containers with a number each, the IDs of the tasks and of the started ones, and how many calls still fail
  because the daemon is away. Every task exits with code 3.
\<close>

record daemon =
  dm_containers :: "(string, nat) fmap"
  dm_tasks :: "string fset"
  dm_started :: "string fset"
  dm_next :: nat
  dm_away :: nat

definition held :: "daemon \<Rightarrow> string \<Rightarrow> nat option" where
  "held d i = fmlookup (dm_containers d) i"

definition daemon_call :: "(daemon \<Rightarrow> daemon \<times> (lib_error + 'a)) \<Rightarrow> ('r, daemon, 'a) call" where
  "daemon_call f s =
     (let d = cx_daemon s in
      if 0 < dm_away d then (s\<lparr>cx_daemon := d\<lparr>dm_away := dm_away d - 1\<rparr>\<rparr>, Inl (OtherError ''unavailable''))
      else (s\<lparr>cx_daemon := fst (f d)\<rparr>, snd (f d)))"

definition missing_unless :: "bool \<Rightarrow> 'a \<Rightarrow> lib_error + 'a" where
  "missing_unless b x = (if b then Inr x else Inl (NotFound ''not found''))"

definition new_container :: "string \<Rightarrow> daemon \<Rightarrow> daemon \<times> (lib_error + unit)" where
  "new_container i d =
     (if held d i \<noteq> None then (d, Inl (OtherError ''already exists''))
      else (d\<lparr>dm_containers := fmupd i (dm_next d) (dm_containers d), dm_next := dm_next d + 1\<rparr>, Inr ()))"

definition toy_containerd :: "('r, daemon) ctrd_lib" where
  "toy_containerd = \<lparr>
     lib_ParseDockerRef = Inr,
     lib_GetImage = (\<lambda>_. daemon_call (\<lambda>d. (d, missing_unless False ()))),
     lib_Pull = (\<lambda>_. daemon_call (\<lambda>d. (d, Inr ()))),
     lib_NewContainer = (\<lambda>i _. daemon_call (new_container i)),
     lib_LoadContainer = (\<lambda>i. daemon_call (\<lambda>d. (d, missing_unless (held d i \<noteq> None) ()))),
     lib_DeleteContainer = (\<lambda>i. daemon_call (\<lambda>d. (d\<lparr>dm_containers := fmdrop i (dm_containers d)\<rparr>, missing_unless (held d i \<noteq> None) ()))),
     lib_Containers = (\<lambda>s. Inr (sorted_list_of_fset (fmdom (dm_containers (cx_daemon s))))),
     lib_Task = (\<lambda>i. daemon_call (\<lambda>d. (d, missing_unless (i |\<in>| dm_tasks d) ()))),
     lib_NewTask = (\<lambda>i _. daemon_call (\<lambda>d. (d\<lparr>dm_tasks := finsert i (dm_tasks d)\<rparr>, Inr ()))),
     lib_Wait = (\<lambda>i. daemon_call (\<lambda>d. (d, Inr 0))),
     lib_Start = (\<lambda>i. daemon_call (\<lambda>d. (d\<lparr>dm_started := finsert i (dm_started d)\<rparr>, Inr ()))),
     lib_Status = (\<lambda>i. daemon_call (\<lambda>d. (d,
       if i |\<in>| dm_started d then Inr ''running'' else if i |\<in>| dm_tasks d then Inr ''created'' else Inl (NotFound ''not found'')))),
     lib_Kill = (\<lambda>i _. daemon_call (\<lambda>d. (d, Inr ()))),
     lib_DeleteTask = (\<lambda>i. daemon_call (\<lambda>d. (d\<lparr>dm_tasks := dm_tasks d |-| {|i|}, dm_started := dm_started d |-| {|i|}\<rparr>, missing_unless (i |\<in>| dm_tasks d) ()))),
     lib_Exit = (\<lambda>_. daemon_call (\<lambda>d. (d, Inr 3))),
     lib_Select = (\<lambda>_ s. (s, True)),
     lib_Sleep = (\<lambda>_ s. s)\<rparr>"

lemma daemon_call_only: "only_daemon (fst \<circ> daemon_call f)"
  by (simp add: only_daemon_def daemon_call_def Let_def)

lemma daemon_call_preserves: "(\<And>d. dm_containers (fst (f d)) = dm_containers d) \<Longrightarrow> preserves held (fst \<circ> daemon_call f)"
  by (simp add: preserves_def daemon_call_def Let_def held_def fun_eq_iff)

lemma daemon_call_snd: "snd (daemon_call f s) = (if 0 < dm_away (cx_daemon s) then Inl (OtherError ''unavailable'') else snd (f (cx_daemon s)))"
  "cx_daemon (fst (daemon_call f s)) = (if 0 < dm_away (cx_daemon s) then (cx_daemon s)\<lparr>dm_away := dm_away (cx_daemon s) - 1\<rparr> else fst (f (cx_daemon s)))"
  by (simp_all add: daemon_call_def Let_def)

lemma held_away [simp]: "held (d\<lparr>dm_away := n\<rparr>) = held d" "held (d\<lparr>dm_tasks := t\<rparr>) = held d" "held (d\<lparr>dm_started := t\<rparr>) = held d"
  by (simp_all add: held_def fun_eq_iff)

lemma toy_containerd_laws: "containerd_laws toy_containerd held"
proof -
  have new: "(let d = held (cx_daemon s); d' = held (cx_daemon (fst (daemon_call (new_container i) s)))
      in d' = d \<or> d i = None \<and> (\<exists>y. d' = d(i \<mapsto> y)))" for i and s :: "('r, daemon) ctrd"
    by (auto simp: daemon_call_snd new_container_def held_def Let_def fun_eq_iff)
  have "container_promises toy_containerd held"
    unfolding container_promises_def toy_containerd_def ctrd_lib.simps
    by (intro conjI allI impI daemon_call_preserves new)
      (auto simp: new_container_def daemon_call_snd missing_unless_def held_def Let_def preserves_def fun_eq_iff dom_def
        fmlookup_dom_iff split: if_splits)
  moreover have "undisturbed toy_containerd"
    unfolding undisturbed_def toy_containerd_def ctrd_lib.simps
    by (intro conjI allI daemon_call_only) (simp_all add: only_daemon_def)
  ultimately show ?thesis by (simp add: containerd_laws_def)
qed





section \<open>A replica\<close>

text \<open>The replica of \<open>db\<close> runs and is watched; the daemon is away for the next two calls.\<close>

definition daemon_db :: "nat \<Rightarrow> daemon" where
  "daemon_db n = \<lparr>dm_containers = fmap_of_list [(''db-1-cdfgh'', 0)], dm_tasks = {|''db-1-cdfgh''|}, dm_started = {|''db-1-cdfgh''|}, dm_next = 1, dm_away = n\<rparr>"

definition exec_db :: "nat \<Rightarrow> (reporter, daemon) ctrd" where
  "exec_db n = \<lparr>cx_watching = fmap_of_list [(''db-1-cdfgh'', 0)],
     cx_heap = [\<lparr>wt_report = (0, ''db-1-cdfgh''), wt_phase = NoPhase, wt_message = [], wt_stopping = False\<rparr>],
     cx_runs = [db_replica], cx_exits = [], cx_sent = [], cx_logDir = ''/var/log/k8'', cx_daemon = daemon_db n\<rparr>"

definition holds_db :: "daemon \<Rightarrow> bool" where
  "holds_db d \<longleftrightarrow> held d ''db-1-cdfgh'' \<noteq> None \<and> ''db-1-cdfgh'' |\<in>| dm_tasks d"

lemma db_ID: "asg_ID db_replica = ''db-1-cdfgh''" by code_simp

lemma outages_db: "outages_end toy_containerd ''db-1-cdfgh'' holds_db dm_away"
  by (auto simp: outages_end_def settles_def toy_containerd_def daemon_call_snd missing_unless_def holds_db_def held_def)

lemma watched_db: "fmlookup (cx_watching (exec_db n)) (asg_ID db_replica) = Some 0" "0 < length (cx_heap (exec_db n))"
  "\<not> wt_stopping (cx_heap (exec_db n) ! 0)" "holds_db (cx_daemon (exec_db n))" "cx_sent (exec_db n) = []"
  "wt_report (cx_heap (exec_db n) ! 0) = (0, ''db-1-cdfgh'')"
  by (simp_all add: exec_db_def db_ID holds_db_def held_def daemon_db_def)

lemma exit_reported_witness:
  "\<exists>s'. watchExit toy_containerd db_replica 0 (exec_db 2) = Some s' \<and>
    cx_sent s' = [((0, ''db-1-cdfgh''), Failed, ''service exited with code 3'')]"
proof -
  have code: "c = 3" if "snd (lib_Exit toy_containerd ch s) = Inr c" for ch s c
    using that by (auto simp: toy_containerd_def daemon_call_snd split: if_splits)
  have r: "exit_report db_replica 3 = (Failed, ''service exited with code 3'')" by code_simp
  from exit_reported [where ch = 0, OF toy_containerd_laws outages_db [folded db_ID] watched_db(4) code watched_db(1-3)]
  show ?thesis by (simp add: watched_db r)
qed

lemma Stop_reports_witness:
  "cx_sent (fst (ctrd_Stop toy_containerd ''db-1-cdfgh'' (exec_db 0))) = [((0, ''db-1-cdfgh''), Stopped, ''stopped by agent'')] \<and>
    ctrd_Stop (interrupted (exited db_replica 3) toy_containerd) ''db-1-cdfgh'' (exec_db 0) =
      ctrd_Stop toy_containerd ''db-1-cdfgh'' (exec_db 0)"
proof -
  have p: "p < length (cx_heap (exec_db 0))" if "fmlookup (cx_watching (exec_db 0)) ''db-1-cdfgh'' = Some p" for p
    using that watched_db(1,2) [of 0] by (simp add: db_ID)
  have "cx_sent (fst (ctrd_Stop toy_containerd ''db-1-cdfgh'' (exec_db 0))) \<noteq> []" by code_simp
  with Stop_reports [where i = "''db-1-cdfgh''" and a = db_replica and code = 3 and M = toy_containerd,
      OF toy_containerd_laws prod.collapse [symmetric] p db_ID] show ?thesis
    using watched_db [of 0] by (auto simp: db_ID)
qed

text \<open>
  A turn of \<open>rewait\<close> that has checked the mark before \<open>Stop\<close> set it, and looks for the task once \<open>Stop\<close>
  has deleted it, reports the replica as failed although it was stopped.
\<close>

lemma late_rewait:
  "cx_sent (fst (ctrd_Stop (toy_containerd\<lparr>lib_DeleteContainer :=
      \<lambda>i. interrupt (fst \<circ> rewait_look toy_containerd i) (lib_DeleteContainer toy_containerd i)\<rparr>) ''db-1-cdfgh'' (exec_db 0))) =
    [((0, ''db-1-cdfgh''), Failed, ''task disappeared while containerd was down''),
     ((0, ''db-1-cdfgh''), Stopped, ''stopped by agent'')]"
  by code_simp

lemma attach_created_witness:
  "cx_sent (ctrd_background toy_containerd db_replica ((exec_db 0)\<lparr>cx_daemon := (daemon_db 0)\<lparr>dm_started := {||}\<rparr>\<rparr>)) =
      [((0, ''db-1-cdfgh''), Running, ''re-attached to running container'')] \<and>
    dm_started (cx_daemon (ctrd_background toy_containerd db_replica ((exec_db 0)\<lparr>cx_daemon := (daemon_db 0)\<lparr>dm_started := {||}\<rparr>\<rparr>))) = {||}"
proof -
  let ?s = "(exec_db 0)\<lparr>cx_daemon := (daemon_db 0)\<lparr>dm_started := {||}\<rparr>\<rparr>"
  have "lib_LoadContainer toy_containerd (asg_ID db_replica) ?s = (?s, Inr ())" "lib_Task toy_containerd (asg_ID db_replica) ?s = (?s, Inr ())"
    "lib_Wait toy_containerd (asg_ID db_replica) ?s = (?s, Inr 0)" "lib_Status toy_containerd (asg_ID db_replica) ?s = (?s, Inr ''created'')"
    by (simp_all add: toy_containerd_def daemon_call_def daemon_db_def missing_unless_def held_def db_ID)
  from attach_created [OF this] show ?thesis
    by (simp add: handed_over_def) (simp add: reportFor_def send_report_def update_watch_def exec_db_def db_ID Let_def daemon_db_def)
qed

lemma container_limits_witness:
  "\<exists>x. WithMemoryLimit x \<in> set (spec_opts ''nginx'' (db_replica\<lparr>asg_resources := \<lparr>res_CPU = 250, res_Memory = 64\<rparr>\<rparr>)) \<and> uint x = 64 * 2 ^ 20"
proof -
  have "0 <s (64 :: goint) \<and> sint (64 :: goint) < 2 ^ 43" by code_simp
  with container_limits [of "db_replica\<lparr>asg_resources := \<lparr>res_CPU = 250, res_Memory = 64\<rparr>\<rparr>" "''nginx''"] show ?thesis by simp
qed

lemma attach_error_fails_witness:
  "cx_sent (ctrd_background toy_containerd db_replica (exec_db 1)) =
      [((0, ''db-1-cdfgh''), Failed, ''load container: unavailable'')] \<and>
    held (cx_daemon (ctrd_background toy_containerd db_replica (exec_db 1))) = held (daemon_db 1)"
proof -
  have "lib_LoadContainer toy_containerd (asg_ID db_replica) (exec_db 1) =
      ((exec_db 1)\<lparr>cx_daemon := (daemon_db 1)\<lparr>dm_away := 0\<rparr>\<rparr>, Inl (OtherError ''unavailable''))"
    by (simp add: toy_containerd_def daemon_call_def exec_db_def daemon_db_def)
  from attach_error_fails [OF toy_containerd_laws watched_db(1,2) this] show ?thesis
    by (simp add: watched_db) (simp add: exec_db_def)
qed

text \<open>A new agent on the node, whose executor watches nothing.\<close>

definition dial_db :: "string \<Rightarrow> string \<Rightarrow> lib_error + daemon" where
  "dial_db address ns = Inr (daemon_db 0)"

definition reborn :: "((reporter, daemon) ctrd, mem_store) machine" where
  "reborn = \<lparr>the_agent = New_Agent 1 node_a client_a,
     the_exec = projr (NewContainerdExecutor None dial_db ''/run/containerd.sock'' ''/var/log/k8''), the_world = replica_store\<rparr>"

lemma containerd_restart_witness:
  "held (cx_daemon (the_exec (fst (Run_start (containerd_executor toy_containerd) (serving toy 1 t0 au0) (\<lambda>xs. xs) reborn)))) ''db-1-cdfgh'' = Some 0"
proof -
  have new: "NewContainerdExecutor None dial_db ''/run/containerd.sock'' ''/var/log/k8'' = Inr (the_exec reborn)"
    by (simp add: reborn_def NewContainerdExecutor_def dial_db_def)
  have ag: "the_agent reborn = New_Agent 1 node_a client_a" "the_world reborn = replica_store" by (simp_all add: reborn_def)
  let ?w = "UpsertNode (node_a\<lparr>last_heartbeat := t0\<rparr>) replica_store"
  have "rfc3339_ok (last_heartbeat node_a)" by code_simp
  then have reg: "RegisterNode (serving toy 1 t0 au0) client_a node_a (the_world reborn) = (?w, Inr ())"
    using clients by (simp add: RegisterNode_served ag node_a_def)
  have fetch: "FetchAssignments (serving toy 1 t0 au0) client_a (node_ID node_a) ?w = (?w, Inr [db_replica])"
    by code_simp
  have "held (cx_daemon (the_exec reborn)) (asg_ID db_replica) = Some 0"
    by (simp add: reborn_def NewContainerdExecutor_def dial_db_def daemon_db_def held_def db_ID)
  moreover have "active db_replica" by code_simp
  moreover have "db_replica \<in> set [db_replica]" by simp
  ultimately show ?thesis
    using containerd_restart [OF toy_containerd_laws new ag(1) reg fetch _ _ _ rtranclp.rtrancl_refl, of db_replica 0 "\<lambda>xs. xs"]
    by (simp add: db_ID)
qed

end
