(* ===== verification/Join.thy ===== *)
theory Join
  imports Client
begin

text \<open>
  How a node and \<open>k8ctl\<close> get their TLS credentials: \<open>client/join.go\<close>, \<open>client/config.go\<close> and
  \<open>NewCSR\<close> of \<open>pki.go\<close>. The TLS library is the argument \<open>T\<close>; the network is a
  transport for every kind of connection, so that an adversary is just another network.
\<close>

section \<open>Model\<close>

text \<open>
  What the program takes from \<open>crypto/tls\<close>, \<open>crypto/x509\<close> and \<open>encoding/json\<close> besides the
  functions of \<open>crypto\<close>. \<open>tl_pool\<close> is the result of \<open>AppendCertsFromPEM\<close>, \<open>tl_keypair\<close> whether
  \<open>tls.X509KeyPair\<close> succeeds, \<open>tl_body\<close> the bytes of a response body, \<open>tl_json\<close> and
  \<open>tl_json_text\<close> the parser and the printer of JSON.
\<close>

record ('c, 'k, 'p, 'r) tls_lib =
  tl_lib :: "('c, 'k, 'p, 'r) crypto"
  tl_CN :: "'c \<Rightarrow> string"
  tl_NotAfter :: "'c \<Rightarrow> time"
  tl_pool :: "string \<Rightarrow> bool"
  tl_keypair :: "string \<Rightarrow> string \<Rightarrow> bool"
  tl_CreateCSR :: "string \<Rightarrow> 'k \<Rightarrow> string option"
  tl_body :: "resp_body \<Rightarrow> string"
  tl_json :: "string \<Rightarrow> json option"
  tl_json_text :: "json \<Rightarrow> string"

text \<open>A connection: without TLS, unverified, verified against given roots, or against the system's.\<close>

datatype trust = Plaintext | NoVerify | RootCAs string | SystemRoots

type_synonym 'w net = "trust \<Rightarrow> 'w transport"

text \<open>A \<open>tls.Config\<close> with its pool and its certificate, both as PEM.\<close>

record tls_config =
  tc_roots :: string
  tc_cert :: string
  tc_key :: string

definition poolFromPEM :: "('c, 'k, 'p, 'r) tls_lib \<Rightarrow> string \<Rightarrow> string option" where
  "poolFromPEM T caPEM = (if tl_pool T caPEM then Some caPEM else None)"

definition clientTLS :: "('c, 'k, 'p, 'r) tls_lib \<Rightarrow> string \<Rightarrow> string \<Rightarrow> string \<Rightarrow> tls_config option" where
  "clientTLS T caPEM certPEM keyPEM = (case poolFromPEM T caPEM of
     None \<Rightarrow> None
   | Some pool \<Rightarrow>
       if \<not> tl_keypair T certPEM keyPEM then None
       else Some \<lparr>tc_roots = pool, tc_cert = certPEM, tc_key = keyPEM\<rparr>)"

definition NewCSR :: "('c, 'k, 'p, 'r) tls_lib \<Rightarrow> 'k \<Rightarrow> string \<Rightarrow> string option" where
  "NewCSR T key cn = map_option (pem_Encode (tl_lib T) ''CERTIFICATE REQUEST'') (tl_CreateCSR T cn key)"

text \<open>The connection a URL asks for; \<open>http.Transport\<close> knows two schemes.\<close>

definition url_channel :: "string \<Rightarrow> trust \<Rightarrow> trust option" where
  "url_channel url tls = (case Cut url ''://'' of
     None \<Rightarrow> None
   | Some (scheme, _) \<Rightarrow>
       if ToLower scheme = ''https'' then Some tls
       else if ToLower scheme = ''http'' then Some Plaintext else None)"

text \<open>The header values \<open>http.Client.Do\<close> sends.\<close>

definition header_ok :: "string \<Rightarrow> bool" where
  "header_ok s \<longleftrightarrow> list_all (\<lambda>c. \<not> is_ctl c \<or> c = CHR 0x09) s"

definition http_call ::
  "'w net \<Rightarrow> trust \<Rightarrow> string \<Rightarrow> string \<Rightarrow> string \<Rightarrow> json option \<Rightarrow> 'w \<Rightarrow> 'w \<times> (client_error + http_response)" where
  "http_call net tls meth url authz body w = (case url_path url of
     None \<Rightarrow> (w, Inl BadURL)
   | Some p \<Rightarrow> (case url_channel url tls of
       None \<Rightarrow> (w, Inl TransportFailed)
     | Some ch \<Rightarrow>
         if \<not> header_ok authz then (w, Inl TransportFailed)
         else case client_Do 9 (net ch) \<lparr>req_method = meth, req_path = p, req_authorization = authz,
             req_chains = (if ch = Plaintext then None else Some []), req_body = body\<rparr> w of
           (w1, None) \<Rightarrow> (w1, Inl TransportFailed)
         | (w1, Some resp) \<Rightarrow> (w1, Inr resp)))"

section \<open>join.go\<close>

datatype join_error =
  NoCredentials | JoinTokenBad token_error | DataDirFailed | FetchCAFailed client_error | HashMismatch
  | NodeKeyUnreadable | NoNodeKey | NodeKeyNotWritten | NodeKeyBad | CSRFailed
  | JoinRefused client_error | CANotWritten | CertNotWritten | UnusableCredentials

definition renewBefore :: duration where
  "renewBefore = 30 * 24 * 3600 * 1000000000"

text \<open>A response that is cut short counts as a failed exchange.\<close>

definition fetchPinnedCA ::
  "('c, 'k, 'p, 'r) tls_lib \<Rightarrow> 'w net \<Rightarrow> string \<Rightarrow> string \<Rightarrow> 'w \<Rightarrow> 'w \<times> (join_error + string)" where
  "fetchPinnedCA T net server wantHash w =
     (case http_call net NoVerify ''GET'' (TrimRight_slash server @ ''/cacerts'') [] None w of
        (w1, Inl e) \<Rightarrow> (w1, Inl (FetchCAFailed e))
      | (w1, Inr resp) \<Rightarrow>
          if resp_status resp \<noteq> 200
          then (w1, Inl (FetchCAFailed (ErrorStatus (resp_status resp) (resp_body resp))))
          else
            let caPEM = take 65536 (tl_body T (resp_body resp))
            in if Fingerprint (tl_lib T) caPEM \<noteq> wantHash then (w1, Inl HashMismatch) else (w1, Inr caPEM))"

text \<open>A \<open>RootCAs\<close> that is nil means the roots of the system.\<close>

definition roots_of :: "string option \<Rightarrow> trust" where
  "roots_of pool = (case pool of None \<Rightarrow> SystemRoots | Some pem \<Rightarrow> RootCAs pem)"

record cert_payload =
  pl_cert :: string

definition dec_cert_payload :: "cert_payload decoder" where
  "dec_cert_payload = dec_struct False [(''cert'', at_field pl_cert pl_cert_update dec_str)]"

definition requestNodeCert ::
  "('c, 'k, 'p, 'r) tls_lib \<Rightarrow> 'w net \<Rightarrow> string \<Rightarrow> string \<Rightarrow> string \<Rightarrow> string \<Rightarrow> string \<Rightarrow> 'w \<Rightarrow>
     'w \<times> (join_error + string)" where
  "requestNodeCert T net server caPEM secret nodeID csr w =
     (case http_call net (roots_of (poolFromPEM T caPEM)) ''POST'' (TrimRight_slash server @ ''/nodes/join'')
         (''Bearer '' @ secret) (Some (JObj [(''nodeId'', JStr nodeID), (''csr'', JStr csr)])) w of
        (w1, Inl e) \<Rightarrow> (w1, Inl (JoinRefused e))
      | (w1, Inr resp) \<Rightarrow>
          if resp_status resp \<noteq> 200
          then (w1, Inl (JoinRefused (ErrorStatus (resp_status resp) (resp_body resp))))
          else case resp_body resp of
            JsonBody j \<Rightarrow> (w1, case dec_cert_payload j \<lparr>pl_cert = []\<rparr> of
              None \<Rightarrow> Inl (JoinRefused BadResponse) | Some p \<Rightarrow> Inr (pl_cert p))
          | _ \<Rightarrow> (w1, Inl (JoinRefused BadResponse)))"

definition ca_path :: "string \<Rightarrow> string" where
  "ca_path dataDir = dataDir @ ''/ca.crt''"

definition key_path :: "string \<Rightarrow> string" where
  "key_path dataDir = dataDir @ ''/node.key''"

definition cert_path :: "string \<Rightarrow> string" where
  "cert_path dataDir = dataDir @ ''/node.crt''"

text \<open>\<open>loadNodeCredentials\<close>; its caller only asks whether it fails.\<close>

definition loadNodeCredentials ::
  "('c, 'k, 'p, 'r) tls_lib \<Rightarrow> time \<Rightarrow> string \<Rightarrow> string \<Rightarrow> string \<Rightarrow> string \<Rightarrow> fs \<Rightarrow> tls_config option" where
  "loadNodeCredentials T now caPath certPath keyPath nodeID d =
     (case os_ReadFile d caPath of
        Contents caPEM \<Rightarrow> (case os_ReadFile d certPath of
          Contents certPEM \<Rightarrow> (case os_ReadFile d keyPath of
            Contents keyPEM \<Rightarrow> (case ParseCert (tl_lib T) certPEM of
              None \<Rightarrow> None
            | Some cert \<Rightarrow>
                if tl_CN T cert \<noteq> NodeCN nodeID then None
                else if time_Sub (tl_NotAfter T cert) now < renewBefore then None
                else clientTLS T caPEM certPEM keyPEM)
          | _ \<Rightarrow> None)
        | _ \<Rightarrow> None)
      | _ \<Rightarrow> None)"

text \<open>What may go wrong on the node itself: \<open>NewKey\<close>, \<open>os.MkdirAll\<close> and the three writes.\<close>

record 'k join_env =
  env_newKey :: "'k option"
  env_mkdir :: bool
  env_key_fault :: write_fault
  env_ca_fault :: write_fault
  env_cert_fault :: write_fault

text \<open>The key of the node: the one on disk, or a new one that is written first.\<close>

definition node_key ::
  "('c, 'k, 'p, 'r) tls_lib \<Rightarrow> 'k join_env \<Rightarrow> string \<Rightarrow> fs \<Rightarrow> fs \<times> (join_error + string)" where
  "node_key T env keyPath d = (case os_ReadFile d keyPath of
     Contents keyPEM \<Rightarrow> (d, Inr keyPEM)
   | ReadError \<Rightarrow> (d, Inl NodeKeyUnreadable)
   | NotExist \<Rightarrow> (case env_newKey env of
       None \<Rightarrow> (d, Inl NoNodeKey)
     | Some key \<Rightarrow> (case EncodeKey (tl_lib T) key of
         None \<Rightarrow> (d, Inl NoNodeKey)
       | Some keyPEM \<Rightarrow>
           let (d1, ok) = WriteFile (env_key_fault env) keyPath keyPEM d
           in if ok then (d1, Inr keyPEM) else (d1, Inl NodeKeyNotWritten))))"

text \<open>The last part of \<open>BootstrapNode\<close>: both files, the CA first.\<close>

definition store_credentials ::
  "('c, 'k, 'p, 'r) tls_lib \<Rightarrow> 'k join_env \<Rightarrow> string \<Rightarrow> string \<Rightarrow> string \<Rightarrow> string \<Rightarrow> fs \<Rightarrow>
     fs \<times> (join_error + tls_config)" where
  "store_credentials T env dataDir caPEM certPEM keyPEM d =
     (let (d1, ok1) = WriteFile (env_ca_fault env) (ca_path dataDir) caPEM d in
      if \<not> ok1 then (d1, Inl CANotWritten)
      else
        let (d2, ok2) = WriteFile (env_cert_fault env) (cert_path dataDir) certPEM d1 in
        if \<not> ok2 then (d2, Inl CertNotWritten)
        else (d2, case clientTLS T caPEM certPEM keyPEM of None \<Rightarrow> Inl UnusableCredentials | Some cfg \<Rightarrow> Inr cfg))"

definition BootstrapNode ::
  "('c, 'k, 'p, 'r) tls_lib \<Rightarrow> 'w net \<Rightarrow> time \<Rightarrow> 'k join_env \<Rightarrow> string \<Rightarrow> string \<Rightarrow> string \<Rightarrow> string \<Rightarrow> fs \<Rightarrow> 'w \<Rightarrow>
     fs \<times> 'w \<times> (join_error + tls_config)" where
  "BootstrapNode T net now env server rawToken nodeID dataDir d w =
     (case loadNodeCredentials T now (ca_path dataDir) (cert_path dataDir) (key_path dataDir) nodeID d of
        Some cfg \<Rightarrow> (d, w, Inr cfg)
      | None \<Rightarrow>
        if rawToken = [] then (d, w, Inl NoCredentials)
        else case ParseToken rawToken of
          Inl e \<Rightarrow> (d, w, Inl (JoinTokenBad e))
        | Inr tok \<Rightarrow>
          if \<not> env_mkdir env then (d, w, Inl DataDirFailed)
          else case fetchPinnedCA T net server (CAHash tok) w of
            (w1, Inl e) \<Rightarrow> (d, w1, Inl e)
          | (w1, Inr caPEM) \<Rightarrow> (case node_key T env (key_path dataDir) d of
              (d1, Inl e) \<Rightarrow> (d1, w1, Inl e)
            | (d1, Inr keyPEM) \<Rightarrow> (case ParseKey (tl_lib T) keyPEM of
                None \<Rightarrow> (d1, w1, Inl NodeKeyBad)
              | Some key \<Rightarrow> (case NewCSR T key (NodeCN nodeID) of
                  None \<Rightarrow> (d1, w1, Inl CSRFailed)
                | Some csr \<Rightarrow> (case requestNodeCert T net server caPEM (Secret tok) nodeID csr w1 of
                    (w2, Inl e) \<Rightarrow> (d1, w2, Inl e)
                  | (w2, Inr certPEM) \<Rightarrow>
                      let (d2, r) = store_credentials T env dataDir caPEM certPEM keyPEM d1 in (d2, w2, r))))))"

section \<open>config.go\<close>

record admin_config =
  cfg_Server :: string
  cfg_CA :: string
  cfg_Cert :: string
  cfg_Key :: string

definition enc_admin_config :: "admin_config \<Rightarrow> json" where
  "enc_admin_config c = JObj [(''server'', JStr (cfg_Server c)), (''ca'', JStr (cfg_CA c)),
     (''cert'', JStr (cfg_Cert c)), (''key'', JStr (cfg_Key c))]"

definition dec_admin_config :: "admin_config decoder" where
  "dec_admin_config = dec_struct False
     [(''server'', at_field cfg_Server cfg_Server_update dec_str),
      (''ca'', at_field cfg_CA cfg_CA_update dec_str),
      (''cert'', at_field cfg_Cert cfg_Cert_update dec_str),
      (''key'', at_field cfg_Key cfg_Key_update dec_str)]"

datatype config_error = ConfigUnreadable | ConfigBad | ConfigCredentials

text \<open>The CommonName under which a connection with these credentials is seen.\<close>

definition tc_CN :: "('c, 'k, 'p, 'r) tls_lib \<Rightarrow> tls_config \<Rightarrow> string" where
  "tc_CN T cfg = (case ParseCert (tl_lib T) (tc_cert cfg) of None \<Rightarrow> [] | Some cert \<Rightarrow> tl_CN T cert)"

definition LoadAdminConfig ::
  "('c, 'k, 'p, 'r) tls_lib \<Rightarrow> string \<Rightarrow> fs \<Rightarrow> config_error + client \<times> tls_config" where
  "LoadAdminConfig T path d = (case os_ReadFile d path of
     Contents bytes \<Rightarrow> (case tl_json T bytes of
       None \<Rightarrow> Inl ConfigBad
     | Some j \<Rightarrow> (case dec_admin_config j \<lparr>cfg_Server = [], cfg_CA = [], cfg_Cert = [], cfg_Key = []\<rparr> of
         None \<Rightarrow> Inl ConfigBad
       | Some cfg \<Rightarrow> (case clientTLS T (cfg_CA cfg) (cfg_Cert cfg) (cfg_Key cfg) of
           None \<Rightarrow> Inl ConfigCredentials
         | Some tls \<Rightarrow> Inr (New_Client (cfg_Server cfg) (tc_CN T tls), tls))))
   | _ \<Rightarrow> Inl ConfigUnreadable)"

section \<open>Who sees the secret\<close>

text \<open>A network with a record of every request and the kind of connection that carried it.\<close>

type_synonym 'w spied = "'w \<times> (trust \<times> http_request) list"

definition spy :: "'w net \<Rightarrow> 'w spied net" where
  "spy net ch r ws = (case net ch r (fst ws) of (w1, resp) \<Rightarrow> ((w1, snd ws @ [(ch, r)]), resp))"

definition all_sent :: "(trust \<Rightarrow> http_request \<Rightarrow> bool) \<Rightarrow> 'w spied \<Rightarrow> bool" where
  "all_sent P ws \<longleftrightarrow> (\<forall>(ch, r) \<in> set (snd ws). P ch r)"

lemma all_sent_Nil [simp]: "all_sent P (w, [])"
  by (simp add: all_sent_def)

lemma client_Do_sent:
  assumes "all_sent P ws" "\<And>p. P ch (r\<lparr>req_path := p\<rparr>)"
  shows "all_sent P (fst (client_Do n (spy net ch) r ws))"
  using assms
proof (induction n arbitrary: r ws)
  case 0
  from 0(2) [of "req_path r"] have "P ch r" by simp
  with 0(1) have "all_sent P (fst (spy net ch r ws))" by (auto simp: all_sent_def spy_def split: prod.splits)
  then show ?case by (auto simp: client_Do.simps [of 0] split: prod.splits option.splits resp_body.splits)
next
  case (Suc n)
  from Suc.prems(2) [of "req_path r"] have "P ch r" by simp
  with Suc.prems(1) have *: "all_sent P (fst (spy net ch r ws))" by (auto simp: all_sent_def spy_def split: prod.splits)
  from Suc.prems(2) have "P ch (r\<lparr>req_path := q\<rparr>\<lparr>req_path := p\<rparr>)" for q p by simp
  with * Suc.IH show ?case
    by (auto simp: client_Do.simps [of "Suc n"] split: prod.splits option.splits resp_body.splits)
qed

lemma http_call_sent:
  assumes "all_sent P ws" "\<And>ch r. url_channel url tls = Some ch \<Longrightarrow> req_authorization r = authz \<Longrightarrow> P ch r"
  shows "all_sent P (fst (http_call (spy net) tls meth url authz body ws))"
proof -
  have "all_sent P (fst (client_Do 9 (spy net ch) \<lparr>req_method = meth, req_path = p, req_authorization = authz,
      req_chains = chains, req_body = body\<rparr> ws))" if "url_channel url tls = Some ch" for ch p chains
    using assms that by (intro client_Do_sent) simp_all
  then show ?thesis
    using assms(1) by (auto simp: http_call_def split: prod.splits option.splits) (metis fst_conv)+
qed

lemma fetchPinnedCA_sent:
  assumes "all_sent P ws" "\<And>ch r. req_authorization r = [] \<Longrightarrow> P ch r"
  shows "all_sent P (fst (fetchPinnedCA T (spy net) server h ws))"
proof -
  have "all_sent P (fst (http_call (spy net) NoVerify ''GET'' (TrimRight_slash server @ ''/cacerts'') [] None ws))"
    using assms by (intro http_call_sent) auto
  then show ?thesis by (auto simp: fetchPinnedCA_def Let_def split: prod.splits sum.splits)
qed

lemma fetchPinnedCA_hash:
  "fetchPinnedCA T net server h w = (w1, Inr caPEM) \<Longrightarrow> Fingerprint (tl_lib T) caPEM = h"
  by (auto simp: fetchPinnedCA_def Let_def split: prod.splits sum.splits if_splits)

lemma requestNodeCert_sent:
  assumes "all_sent P ws"
    and "\<And>ch r. url_channel (TrimRight_slash server @ ''/nodes/join'') (roots_of (poolFromPEM T caPEM)) = Some ch \<Longrightarrow>
      req_authorization r = ''Bearer '' @ secret \<Longrightarrow> P ch r"
  shows "all_sent P (fst (requestNodeCert T (spy net) server caPEM secret nodeID csr ws))"
proof -
  have "all_sent P (fst (http_call (spy net) (roots_of (poolFromPEM T caPEM)) ''POST'' (TrimRight_slash server @ ''/nodes/join'')
      (''Bearer '' @ secret) (Some (JObj [(''nodeId'', JStr nodeID), (''csr'', JStr csr)])) ws))"
    using assms by (intro http_call_sent) auto
  then show ?thesis
    by (auto simp: requestNodeCert_def split: prod.splits sum.splits resp_body.splits)
qed

lemma BootstrapNode_sent:
  assumes "BootstrapNode T (spy net) now env server raw nodeID dir d ws = (d', ws', r)" "all_sent P ws"
    and "\<And>ch r. req_authorization r = [] \<Longrightarrow> P ch r"
    and "\<And>tok caPEM w1 ch r. ParseToken raw = Inr tok \<Longrightarrow>
      fetchPinnedCA T (spy net) server (CAHash tok) ws = (w1, Inr caPEM) \<Longrightarrow>
      url_channel (TrimRight_slash server @ ''/nodes/join'') (roots_of (poolFromPEM T caPEM)) = Some ch \<Longrightarrow>
      req_authorization r = ''Bearer '' @ Secret tok \<Longrightarrow> P ch r"
  shows "all_sent P ws'"
proof -
  have f: "all_sent P w1" if "fetchPinnedCA T (spy net) server h ws = (w1, x)" for h w1 x
    using fetchPinnedCA_sent [OF assms(2,3), of T net server h] that by simp
  have q: "all_sent P w2"
    if "ParseToken raw = Inr tok" "fetchPinnedCA T (spy net) server (CAHash tok) ws = (w1, Inr caPEM)"
      "requestNodeCert T (spy net) server caPEM (Secret tok) nodeID csr w1 = (w2, x)" for tok w1 caPEM csr w2 x
  proof -
    have "all_sent P (fst (requestNodeCert T (spy net) server caPEM (Secret tok) nodeID csr w1))"
      using assms(4) [OF that(1,2)] by (intro requestNodeCert_sent f [OF that(2)])
    then show ?thesis using that(3) by simp
  qed
  show ?thesis
    using assms(1,2) f q
    by (auto simp: BootstrapNode_def Let_def split: option.splits sum.splits prod.splits if_splits)
qed

definition https_url :: "string \<Rightarrow> bool" where
  "https_url server \<longleftrightarrow> url_channel (TrimRight_slash server @ ''/nodes/join'') NoVerify = Some NoVerify"

lemma https_channel: "https_url server \<Longrightarrow> url_channel (TrimRight_slash server @ ''/nodes/join'') tls = Some tls"
  by (auto simp: https_url_def url_channel_def split: option.splits if_splits)

text \<open>
  C28: With an https URL for the controller the join secret is shown to nobody but the pinned
  controller, whatever the network does: every request that carries credentials at all carries
  the secret of the token and is sent over a connection verified against the CA certificate that
  has been fetched before and has the hash in the token. A text with that hash is
  taken to hold a certificate, as the one the token was made for does. What happens with
  an http URL is shown by \<open>secret_in_clear\<close> below.
\<close>

theorem secret_only_pinned:
  assumes "BootstrapNode T (spy net) now env server raw nodeID dir d (w, []) = (d', (w', log), r)"
    and "ParseToken raw = Inr tok" "\<And>pem. Fingerprint (tl_lib T) pem = CAHash tok \<Longrightarrow> tl_pool T pem"
    and "https_url server" "(ch, q) \<in> set log" "req_authorization q \<noteq> []"
  shows "req_authorization q = ''Bearer '' @ Secret tok \<and>
    (\<exists>caPEM w1. fetchPinnedCA T (spy net) server (CAHash tok) (w, []) = (w1, Inr caPEM) \<and>
      Fingerprint (tl_lib T) caPEM = CAHash tok \<and> ch = RootCAs caPEM)"
proof -
  let ?P = "\<lambda>ch q. req_authorization q \<noteq> [] \<longrightarrow> req_authorization q = ''Bearer '' @ Secret tok \<and>
    (\<exists>caPEM w1. fetchPinnedCA T (spy net) server (CAHash tok) (w, []) = (w1, Inr caPEM) \<and>
      Fingerprint (tl_lib T) caPEM = CAHash tok \<and> ch = RootCAs caPEM)"
  have "all_sent ?P (w', log)"
  proof (rule BootstrapNode_sent [OF assms(1)])
    fix tok' caPEM w1 ch r
    assume "ParseToken raw = Inr tok'" and f: "fetchPinnedCA T (spy net) server (CAHash tok') (w, []) = (w1, Inr caPEM)"
      and u: "url_channel (TrimRight_slash server @ ''/nodes/join'') (roots_of (poolFromPEM T caPEM)) = Some ch"
      and a: "req_authorization r = ''Bearer '' @ Secret tok'"
    then have tok: "tok' = tok" using assms(2) by simp
    have "Fingerprint (tl_lib T) caPEM = CAHash tok" using fetchPinnedCA_hash [OF f] by (simp add: tok)
    moreover from this have "ch = RootCAs caPEM"
      using u assms(3) by (simp add: https_channel [OF assms(4)] roots_of_def poolFromPEM_def)
    ultimately show "?P ch r" using f a unfolding tok by blast
  qed simp_all
  with assms(5) have "?P ch q" by (auto simp only: all_sent_def snd_conv split: prod.splits)
  with assms(6) show ?thesis by blast
qed

section \<open>Joining a controller\<close>

text \<open>
  Documented facts about the TLS library: a body of raw bytes is its bytes; a request that was
  created parses, verifies and holds the public key; a certificate parses to the CommonName and
  to the end of validity of its template, cut to the second; a certificate for the public half
  of a key and that key are a pair.
\<close>

definition tls_laws :: "('c, 'k, 'p, 'r) tls_lib \<Rightarrow> bool" where
  "tls_laws T \<longleftrightarrow> crypto_laws (tl_lib T) \<and> (\<forall>bytes. tl_body T (PemBody bytes) = bytes) \<and>
     (\<forall>cn key der. tl_CreateCSR T cn key = Some der \<longrightarrow>
        (\<exists>csr. x509_ParseCSR (tl_lib T) der = Some csr \<and> csr_CheckSignature (tl_lib T) csr \<and>
          csr_PublicKey (tl_lib T) csr = key_Public (tl_lib T) key)) \<and>
     (\<forall>tmpl iss pub sk der. x509_CreateCertificate (tl_lib T) tmpl iss pub sk = Some der \<longrightarrow>
        (\<exists>cert. x509_ParseCertificate (tl_lib T) der = Some cert \<and> tl_CN T cert = SubjectCN tmpl \<and>
          NotAfter tmpl - 1000000000 < tl_NotAfter T cert)) \<and>
     (\<forall>tmpl iss key sk der keyPEM. x509_CreateCertificate (tl_lib T) tmpl iss (key_Public (tl_lib T) key) sk = Some der \<and>
        ParseKey (tl_lib T) keyPEM = Some key \<longrightarrow> tl_keypair T (EncodeCert (tl_lib T) der) keyPEM)"

text \<open>
  The controller behind its TLS listener: it does not speak plain HTTP, and its serving
  certificate verifies against its own CA only.
\<close>

definition controller_net ::
  "('c, 'k, 'p, 'r) tls_lib \<Rightarrow> int \<Rightarrow> time \<Rightarrow> ('c, 'k) auth \<Rightarrow> mem_store net" where
  "controller_net T sn now au ch r s =
     (if ch = NoVerify \<or> ch = RootCAs (ca_PEM (auth_CA au)) then serving (tl_lib T) sn now au r s else (s, None))"

definition plain_host :: "string \<Rightarrow> bool" where
  "plain_host host \<longleftrightarrow> host \<noteq> [] \<and> list_all plain_char host"

definition url_at :: "string \<Rightarrow> string \<Rightarrow> string" where
  "url_at scheme host = scheme @ ''://'' @ host"

abbreviation https_at :: "string \<Rightarrow> string" where
  "https_at \<equiv> url_at ''https''"

lemma url_at_plain:
  assumes "plain_host host" "list_all plain_char scheme" "CHR '':'' \<notin> set scheme"
  shows "TrimRight_slash (url_at scheme host) = url_at scheme host" "plain_base (url_at scheme host)"
    "url_channel (url_at scheme host @ rest) tls = (if ToLower scheme = ''https'' then Some tls
       else if ToLower scheme = ''http'' then Some Plaintext else None)"
proof -
  have "last host \<in> set host" "host \<noteq> []" "list_all plain_char host" using assms by (simp_all add: plain_host_def)
  then have "last host \<noteq> CHR ''/''" by (auto simp: list_all_iff plain_char_def)
  then show "TrimRight_slash (url_at scheme host) = url_at scheme host"
    using \<open>host \<noteq> []\<close> by (cases host rule: rev_cases) (simp_all add: url_at_def TrimRight_slash_def)
  have cut: "Cut (scheme @ ''://'' @ host @ r) ''://'' = Some (scheme, host @ r)" for r
    using assms(3) by (intro Cut_first) auto
  show "plain_base (url_at scheme host)"
    using cut [of "[]"] \<open>list_all plain_char host\<close> assms(2,3) by (simp add: url_at_def plain_base_def)
  show "url_channel (url_at scheme host @ rest) tls = (if ToLower scheme = ''https'' then Some tls
       else if ToLower scheme = ''http'' then Some Plaintext else None)"
    using cut [of rest] by (simp add: url_at_def url_channel_def)
qed

lemma schemes: "list_all plain_char ''https''" "CHR '':'' \<notin> set ''https''" "ToLower ''https'' = ''https''"
  "list_all plain_char ''http''" "CHR '':'' \<notin> set ''http''" "ToLower ''http'' = ''http''"
  by code_simp+

lemmas plain_host_url = url_at_plain [OF _ schemes(1,2), unfolded schemes(3), simplified]

lemma http_call_served:
  assumes "plain_host host" "good_path path" "header_ok authz" "tls = NoVerify \<or> tls = RootCAs (ca_PEM (auth_CA au))"
    and "dispatch mem_iface (tl_lib T) sn now au \<lparr>req_method = meth, req_path = path, req_authorization = authz,
        req_chains = Some [], req_body = body\<rparr> s = (s', resp)"
    and "\<nexists>p. resp_body resp = Location p"
  shows "http_call (controller_net T sn now au) tls meth (TrimRight_slash (https_at host) @ path) authz body s =
    (s', Inr resp)"
proof -
  have "url_path ((https_at host) @ path) = Some path"
    using assms(2) by (intro url_path_plain plain_host_url(2) [OF assms(1)]) (auto simp: good_path_def list_all_iff)
  moreover have "client_Do n (controller_net T sn now au tls) \<lparr>req_method = meth, req_path = path, req_authorization = authz,
        req_chains = Some [], req_body = body\<rparr> s = (s', Some resp)" for n
    using assms(2,4-6)
    by (auto simp: client_Do.simps controller_net_def serving_def serve_def good_path_def split: resp_body.splits)
  ultimately show ?thesis
    using assms(3,4) plain_host_url(3) [OF assms(1), of path tls]
    by (auto simp: http_call_def plain_host_url(1) [OF assms(1)])
qed

lemma fetchPinnedCA_served:
  assumes "tls_laws T" "plain_host host" "length (ca_PEM (auth_CA au)) \<le> 65536"
  shows "fetchPinnedCA T (controller_net T sn now au) (https_at host) (Fingerprint (tl_lib T) (ca_PEM (auth_CA au))) s =
    (s, Inr (ca_PEM (auth_CA au)))"
proof -
  have "good_path ''/cacerts''" "header_ok []" by code_simp+
  from http_call_served [OF assms(2) this, of NoVerify au T sn now "''GET''" None s] show ?thesis
    using assms(1,3) by (simp add: dispatch_def handleCACerts_def fetchPinnedCA_def tls_laws_def)
qed

lemma requestNodeCert_served:
  assumes "plain_host host" "header_ok (JoinSecret au)" "tl_pool T (ca_PEM (auth_CA au))" "validNodeID nodeID"
    and "SignNodeCSR (tl_lib T) sn now (auth_CA au) nodeID csr = Some certPEM"
  shows "requestNodeCert T (controller_net T sn now au) (https_at host) (ca_PEM (auth_CA au)) (JoinSecret au) nodeID csr s =
    (s, Inr certPEM)"
proof -
  let ?j = "JObj [(''nodeId'', JStr nodeID), (''csr'', JStr csr)]"
  have g: "good_path ''/nodes/join''" by code_simp
  have h: "header_ok (''Bearer '' @ JoinSecret au)"
    using assms(2) by (simp add: header_ok_def is_ctl_def)
  have "dec_join_payload True ?j \<lparr>pl_node_id = [], pl_csr = []\<rparr> = Some \<lparr>pl_node_id = nodeID, pl_csr = csr\<rparr>"
    by (simp add: dec_join_payload_def dec_struct_def find_field_def at_field_def)
  then have "dispatch mem_iface (tl_lib T) sn now au \<lparr>req_method = ''POST'', req_path = ''/nodes/join'',
      req_authorization = ''Bearer '' @ JoinSecret au, req_chains = Some [], req_body = Some ?j\<rparr> s =
      (s, writeJSON 200 (JObj [(''cert'', JStr certPEM)]))"
    using assms(4,5) by (simp add: dispatch_def handleJoin_def decodeJSON_def CutPrefix_def HasPrefix_def)
  from http_call_served [OF assms(1) g h _ this, of "RootCAs (ca_PEM (auth_CA au))"]
  have "http_call (controller_net T sn now au) (RootCAs (ca_PEM (auth_CA au))) ''POST''
      (TrimRight_slash (https_at host) @ ''/nodes/join'') (''Bearer '' @ JoinSecret au) (Some ?j) s =
      (s, Inr (writeJSON 200 (JObj [(''cert'', JStr certPEM)])))"
    by (simp add: writeJSON_def)
  moreover have "dec_cert_payload (JObj [(''cert'', JStr certPEM)]) \<lparr>pl_cert = []\<rparr> = Some \<lparr>pl_cert = certPEM\<rparr>"
    by (simp add: dec_cert_payload_def dec_struct_def find_field_def at_field_def)
  ultimately show ?thesis
    using assms(3) by (simp add: requestNodeCert_def roots_of_def poolFromPEM_def writeJSON_def)
qed

lemma paths_differ [simp]: "ca_path dir \<noteq> cert_path dir" "cert_path dir \<noteq> ca_path dir" "ca_path dir \<noteq> key_path dir"
    "key_path dir \<noteq> ca_path dir" "cert_path dir \<noteq> key_path dir" "key_path dir \<noteq> cert_path dir"
    "ca_path dir \<noteq> tmp_path (cert_path dir)" "key_path dir \<noteq> tmp_path (cert_path dir)" "key_path dir \<noteq> tmp_path (ca_path dir)"
    "cert_path dir \<noteq> tmp_path (ca_path dir)" "cert_path dir \<noteq> tmp_path (key_path dir)" "ca_path dir \<noteq> tmp_path (key_path dir)"
  by (simp_all add: ca_path_def cert_path_def key_path_def tmp_path_def)

lemma node_key_result:
  assumes "node_key T env keyPath d = (d1, Inr keyPEM)"
  shows "os_ReadFile d1 keyPath = Contents keyPEM"
    and "f \<noteq> keyPath \<Longrightarrow> f \<noteq> tmp_path keyPath \<Longrightarrow> fmlookup d1 f = fmlookup d f"
proof -
  have "os_ReadFile d keyPath = Contents keyPEM \<and> d1 = d \<or> snd (WriteFile (env_key_fault env) keyPath keyPEM d) \<and>
      d1 = fst (WriteFile (env_key_fault env) keyPath keyPEM d)"
    using assms by (auto simp: node_key_def Let_def split: read.splits option.splits prod.splits if_splits)
  then show "os_ReadFile d1 keyPath = Contents keyPEM"
    and "f \<noteq> keyPath \<Longrightarrow> f \<noteq> tmp_path keyPath \<Longrightarrow> fmlookup d1 f = fmlookup d f"
    by (auto simp: os_ReadFile_def WriteFile_lookup)
qed

text \<open>What a join of this controller needs on the node: no usable credentials yet, a token, a key.\<close>

definition join_ready ::
  "('c, 'k, 'p, 'r) tls_lib \<Rightarrow> int \<Rightarrow> time \<Rightarrow> ('c, 'k) auth \<Rightarrow> 'k join_env \<Rightarrow> string \<Rightarrow> string \<Rightarrow> string \<Rightarrow> string \<Rightarrow> fs \<Rightarrow>
     fs \<Rightarrow> string \<Rightarrow> string \<Rightarrow> bool" where
  "join_ready T sn now au env host raw nodeID dir d d1 keyPEM certPEM \<longleftrightarrow>
     plain_host host \<and> length (ca_PEM (auth_CA au)) \<le> 65536 \<and> tl_pool T (ca_PEM (auth_CA au)) \<and>
     ParseToken raw = Inr \<lparr>CAHash = Fingerprint (tl_lib T) (ca_PEM (auth_CA au)), Secret = JoinSecret au\<rparr> \<and>
     header_ok (JoinSecret au) \<and> validNodeID nodeID \<and> env_mkdir env \<and>
     loadNodeCredentials T now (ca_path dir) (cert_path dir) (key_path dir) nodeID d = None \<and>
     node_key T env (key_path dir) d = (d1, Inr keyPEM) \<and>
     (case ParseKey (tl_lib T) keyPEM of None \<Rightarrow> False
      | Some key \<Rightarrow> (case NewCSR T key (NodeCN nodeID) of None \<Rightarrow> False
        | Some csr \<Rightarrow> SignNodeCSR (tl_lib T) sn now (auth_CA au) nodeID csr = Some certPEM))"

lemma BootstrapNode_served:
  assumes "tls_laws T" "join_ready T sn now au env host raw nodeID dir d d1 keyPEM certPEM"
  shows "BootstrapNode T (controller_net T sn now au) now env (https_at host) raw nodeID dir d s =
    (let (d2, r) = store_credentials T env dir (ca_PEM (auth_CA au)) certPEM keyPEM d1 in (d2, s, r))"
proof -
  obtain key csr where key: "ParseKey (tl_lib T) keyPEM = Some key" "NewCSR T key (NodeCN nodeID) = Some csr"
      "SignNodeCSR (tl_lib T) sn now (auth_CA au) nodeID csr = Some certPEM"
    using assms(2) by (auto simp: join_ready_def split: option.splits)
  have j: "plain_host host" "length (ca_PEM (auth_CA au)) \<le> 65536" "header_ok (JoinSecret au)"
      "tl_pool T (ca_PEM (auth_CA au))" "validNodeID nodeID"
    using assms(2) by (simp_all add: join_ready_def)
  have "ParseToken [] = Inl NoTokenPrefix" by code_simp
  then have "raw \<noteq> []" using assms(2) by (auto simp: join_ready_def)
  then show ?thesis
    using assms(2) fetchPinnedCA_served [OF assms(1) j(1,2)] key
      requestNodeCert_served [OF j(1,3,4,5) key(3)]
    by (simp add: BootstrapNode_def join_ready_def)
qed

lemma SignNodeCSR_cert:
  assumes "tls_laws T" "ParseKey (tl_lib T) keyPEM = Some key" "NewCSR T key cn = Some csr"
    and "SignNodeCSR (tl_lib T) sn now ca nodeID csr = Some certPEM"
  shows "\<exists>cert. ParseCert (tl_lib T) certPEM = Some cert \<and> tl_CN T cert = NodeCN nodeID \<and>
    now + leafValidity - 1000000000 < tl_NotAfter T cert \<and> tl_keypair T certPEM keyPEM"
proof -
  let ?L = "tl_lib T"
  have laws: "crypto_laws ?L" using assms(1) by (simp add: tls_laws_def)
  obtain der where der: "tl_CreateCSR T cn key = Some der" "csr = pem_Encode ?L ''CERTIFICATE REQUEST'' der"
    using assms(3) by (auto simp: NewCSR_def)
  then obtain rq where rq: "x509_ParseCSR ?L der = Some rq" "csr_CheckSignature ?L rq" "csr_PublicKey ?L rq = key_Public ?L key"
    using assms(1) unfolding tls_laws_def by metis
  have "pem_Decode ?L csr = Some (''CERTIFICATE REQUEST'', der)"
    using laws by (simp add: der(2) crypto_laws_def)
  then obtain tmpl cder where c: "x509_CreateCertificate ?L tmpl (Issuer (ca_Cert ca)) (key_Public ?L key) (ca_Key ca) = Some cder"
      "certPEM = EncodeCert ?L cder" "SubjectCN tmpl = NodeCN nodeID" "NotAfter tmpl = now + leafValidity"
    using assms(4) rq by (auto simp: SignNodeCSR_def ClientCert_def)
  have "\<exists>cert. x509_ParseCertificate ?L cder = Some cert \<and> tl_CN T cert = SubjectCN tmpl \<and>
      NotAfter tmpl - 1000000000 < tl_NotAfter T cert"
    using assms(1) c(1) unfolding tls_laws_def by blast
  then obtain cert where cert: "x509_ParseCertificate ?L cder = Some cert" "tl_CN T cert = SubjectCN tmpl"
      "NotAfter tmpl - 1000000000 < tl_NotAfter T cert"
    by blast
  have "tl_keypair T (EncodeCert ?L cder) keyPEM"
    using assms(1,2) c(1) unfolding tls_laws_def by blast
  with cert c show ?thesis by (simp add: Parse_Encode(1) [OF laws])
qed

lemma store_credentials_ok:
  assumes "env_ca_fault env = NoFault"
  obtains d2 where "store_credentials T env dir caPEM certPEM keyPEM d = (d2, if env_cert_fault env \<noteq> NoFault then Inl CertNotWritten
      else case clientTLS T caPEM certPEM keyPEM of None \<Rightarrow> Inl UnusableCredentials | Some cfg \<Rightarrow> Inr cfg)"
    "os_ReadFile d2 (ca_path dir) = Contents caPEM" "os_ReadFile d2 (key_path dir) = os_ReadFile d (key_path dir)"
    "os_ReadFile d2 (cert_path dir) = (if env_cert_fault env = NoFault then Contents certPEM else os_ReadFile d (cert_path dir))"
proof -
  let ?d1 = "fst (WriteFile (env_ca_fault env) (ca_path dir) caPEM d)"
  let ?d2 = "fst (WriteFile (env_cert_fault env) (cert_path dir) certPEM ?d1)"
  have ok: "snd (WriteFile (env_ca_fault env) (ca_path dir) caPEM d)"
    using assms by (simp add: WriteFile_ok)
  show thesis
  proof (rule that [of ?d2])
    show "store_credentials T env dir caPEM certPEM keyPEM d = (?d2, if env_cert_fault env \<noteq> NoFault then Inl CertNotWritten
      else case clientTLS T caPEM certPEM keyPEM of None \<Rightarrow> Inl UnusableCredentials | Some cfg \<Rightarrow> Inr cfg)"
      using ok by (auto simp: store_credentials_def Let_def split_beta WriteFile_ok)
    show "os_ReadFile ?d2 (cert_path dir) = (if env_cert_fault env = NoFault then Contents certPEM else os_ReadFile d (cert_path dir))"
    proof (cases "env_cert_fault env = NoFault")
      case True
      then show ?thesis by (simp add: os_ReadFile_def WriteFile_lookup(1) WriteFile_ok)
    next
      case False
      then have "fmlookup ?d2 (cert_path dir) = fmlookup ?d1 (cert_path dir)"
        by (intro WriteFile_lookup(2)) (simp add: WriteFile_ok)
      with False show ?thesis by (simp add: os_ReadFile_def WriteFile_lookup(3))
    qed
  qed (simp_all add: os_ReadFile_def WriteFile_lookup(1) [OF ok] WriteFile_lookup(3))
qed

lemma loadNodeCredentials_stored:
  assumes "os_ReadFile d (ca_path dir) = Contents caPEM" "os_ReadFile d (cert_path dir) = Contents certPEM"
    and "os_ReadFile d (key_path dir) = Contents keyPEM" "ParseCert (tl_lib T) certPEM = Some cert"
    and "tl_CN T cert = NodeCN nodeID" "renewBefore \<le> tl_NotAfter T cert - now" "tl_pool T caPEM" "tl_keypair T certPEM keyPEM"
  shows "BootstrapNode T net now env server raw nodeID dir d w =
    (d, w, Inr \<lparr>tc_roots = caPEM, tc_cert = certPEM, tc_key = keyPEM\<rparr>)"
proof -
  have "\<not> time_Sub (tl_NotAfter T cert) now < renewBefore"
    using assms(6) by (simp add: time_Sub_def renewBefore_def)
  with assms show ?thesis
    by (simp add: BootstrapNode_def loadNodeCredentials_def clientTLS_def poolFromPEM_def)
qed

lemma BootstrapNode_joins:
  assumes "tls_laws T" "join_ready T sn now au env host raw nodeID dir d d1 keyPEM certPEM"
    and "env_ca_fault env = NoFault" "env_cert_fault env = NoFault"
  shows "\<exists>d' cfg. BootstrapNode T (controller_net T sn now au) now env (https_at host) raw nodeID dir d s = (d', s, Inr cfg) \<and>
    tc_roots cfg = ca_PEM (auth_CA au) \<and> NodeIDFromCN (tc_CN T cfg) = nodeID \<and>
    (\<forall>now'. now' \<le> now + leafValidity - renewBefore - 1000000000 \<longrightarrow>
      BootstrapNode T net' now' env' server' raw' nodeID dir d' w' = (d', w', Inr cfg))"
proof -
  let ?ca = "ca_PEM (auth_CA au)"
  obtain key csr where key: "ParseKey (tl_lib T) keyPEM = Some key" "NewCSR T key (NodeCN nodeID) = Some csr"
      "SignNodeCSR (tl_lib T) sn now (auth_CA au) nodeID csr = Some certPEM"
    using assms(2) by (auto simp: join_ready_def split: option.splits)
  obtain cert where cert: "ParseCert (tl_lib T) certPEM = Some cert" "tl_CN T cert = NodeCN nodeID"
      "now + leafValidity - 1000000000 < tl_NotAfter T cert" "tl_keypair T certPEM keyPEM"
    using SignNodeCSR_cert [OF assms(1) key] by blast
  have pool: "tl_pool T ?ca" and ne: "nodeID \<noteq> []" and nk: "node_key T env (key_path dir) d = (d1, Inr keyPEM)"
    using assms(2) by (simp_all add: join_ready_def validNodeID_def)
  obtain d2 where d2: "store_credentials T env dir ?ca certPEM keyPEM d1 = (d2,
      case clientTLS T ?ca certPEM keyPEM of None \<Rightarrow> Inl UnusableCredentials | Some cfg \<Rightarrow> Inr cfg)"
    "os_ReadFile d2 (ca_path dir) = Contents ?ca" "os_ReadFile d2 (key_path dir) = Contents keyPEM"
    "os_ReadFile d2 (cert_path dir) = Contents certPEM"
    using store_credentials_ok [OF assms(3), of T dir ?ca certPEM keyPEM d1] assms(4) node_key_result(1) [OF nk] by auto
  have "BootstrapNode T (controller_net T sn now au) now env (https_at host) raw nodeID dir d s =
      (d2, s, Inr \<lparr>tc_roots = ?ca, tc_cert = certPEM, tc_key = keyPEM\<rparr>)"
    using d2(1) pool cert(4) by (simp add: BootstrapNode_served [OF assms(1,2)] clientTLS_def poolFromPEM_def)
  moreover have "NodeIDFromCN (tc_CN T \<lparr>tc_roots = ?ca, tc_cert = certPEM, tc_key = keyPEM\<rparr>) = nodeID"
    using cert(1,2) ne NodeIDFromCN_eq [of "NodeCN nodeID" nodeID] by (simp add: tc_CN_def)
  moreover have "BootstrapNode T net' now' env' server' raw' nodeID dir d2 w' =
      (d2, w', Inr \<lparr>tc_roots = ?ca, tc_cert = certPEM, tc_key = keyPEM\<rparr>)"
    if "now' \<le> now + leafValidity - renewBefore - 1000000000" for now'
  proof -
    have "renewBefore \<le> tl_NotAfter T cert - now'" using that cert(3) by linarith
    with cert pool d2 show ?thesis by (intro loadNodeCredentials_stored) simp_all
  qed
  ultimately show ?thesis by auto
qed

text \<open>
  C29: A node that holds the controller's token gets its identity: over a network that ends at
  the controller, \<open>BootstrapNode\<close> succeeds, leaves the controller's store alone, and returns
  credentials that trust exactly the controller's CA and under which the controller takes the
  node for \<open>nodeID\<close>. Until 30 days before the certificate ends, every later start returns
  the same credentials from the disk, without using the network or the token.
\<close>

theorem join_served:
  assumes "tls_laws T" "join_ready T sn now au env host raw nodeID dir d d1 keyPEM certPEM"
    and "env_ca_fault env = NoFault" "env_cert_fault env = NoFault"
  shows "\<exists>d' cfg. BootstrapNode T (controller_net T sn now au) now env (https_at host) raw nodeID dir d s = (d', s, Inr cfg) \<and>
    tc_roots cfg = ca_PEM (auth_CA au) \<and> NodeIDFromCN (tc_CN T cfg) = nodeID \<and>
    (\<forall>now'. now' \<le> now + leafValidity - renewBefore - 1000000000 \<longrightarrow>
      BootstrapNode T net' now' env' server' raw' nodeID dir d' w' = (d', w', Inr cfg))"
  using BootstrapNode_joins [OF assms] .

text \<open>
  The CA is replaced before the certificate, and nothing checks one against the other: when a
  node that still has a certificate of another cluster joins again and the certificate cannot
  be written, the call fails, yet every later start accepts the new CA with the old
  certificate.
\<close>

theorem half_join_accepted:
  assumes "tls_laws T" "join_ready T sn now au env host raw nodeID dir d d1 keyPEM certPEM"
    and "env_ca_fault env = NoFault" "env_cert_fault env \<noteq> NoFault"
    and "os_ReadFile d (cert_path dir) = Contents old" "ParseCert (tl_lib T) old = Some cert"
    and "tl_CN T cert = NodeCN nodeID" "renewBefore \<le> tl_NotAfter T cert - now'" "tl_keypair T old keyPEM"
  shows "\<exists>d'. BootstrapNode T (controller_net T sn now au) now env (https_at host) raw nodeID dir d s =
      (d', s, Inl CertNotWritten) \<and>
    BootstrapNode T net' now' env' server' raw' nodeID dir d' w' =
      (d', w', Inr \<lparr>tc_roots = ca_PEM (auth_CA au), tc_cert = old, tc_key = keyPEM\<rparr>)"
proof -
  let ?ca = "ca_PEM (auth_CA au)"
  have pool: "tl_pool T ?ca" and nk: "node_key T env (key_path dir) d = (d1, Inr keyPEM)"
    using assms(2) by (simp_all add: join_ready_def)
  have "os_ReadFile d1 (cert_path dir) = Contents old"
    using assms(5) node_key_result(2) [OF nk, of "cert_path dir"] by (simp add: os_ReadFile_def)
  then obtain d2 where d2: "store_credentials T env dir ?ca certPEM keyPEM d1 = (d2, Inl CertNotWritten)"
    "os_ReadFile d2 (ca_path dir) = Contents ?ca" "os_ReadFile d2 (key_path dir) = Contents keyPEM"
    "os_ReadFile d2 (cert_path dir) = Contents old"
    using store_credentials_ok [OF assms(3), of T dir ?ca certPEM keyPEM d1] assms(4) node_key_result(1) [OF nk] by auto
  then have "BootstrapNode T (controller_net T sn now au) now env (https_at host) raw nodeID dir d s = (d2, s, Inl CertNotWritten)"
    by (simp add: BootstrapNode_served [OF assms(1,2)])
  moreover have "BootstrapNode T net' now' env' server' raw' nodeID dir d2 w' =
      (d2, w', Inr \<lparr>tc_roots = ?ca, tc_cert = old, tc_key = keyPEM\<rparr>)"
    using assms(6-9) pool d2(2-4) by (intro loadNodeCredentials_stored) simp_all
  ultimately show ?thesis by blast
qed

text \<open>
  Nothing asks for an https URL. With an http one the secret goes out in the clear, to whoever
  can hand on the controller's public CA.
\<close>

theorem secret_in_clear:
  assumes "tls_laws T" "plain_host host" "ParseToken raw = Inr tok" "header_ok (Secret tok)"
    and "Fingerprint (tl_lib T) caPEM = CAHash tok" "length caPEM \<le> 65536"
    and "net Plaintext = (\<lambda>r w. (w, Some \<lparr>resp_status = 200, resp_body = PemBody caPEM\<rparr>))"
    and "loadNodeCredentials T now (ca_path dir) (cert_path dir) (key_path dir) nodeID d = None" "env_mkdir env"
    and "node_key T env (key_path dir) d = (d1, Inr keyPEM)" "ParseKey (tl_lib T) keyPEM = Some key"
    and "NewCSR T key (NodeCN nodeID) = Some csr"
  shows "\<exists>d' ws' r q. BootstrapNode T (spy net) now env (url_at ''http'' host) raw nodeID dir d (w, []) = (d', ws', r) \<and>
    (Plaintext, q) \<in> set (snd ws') \<and> req_authorization q = ''Bearer '' @ Secret tok"
proof -
  let ?resp = "\<lparr>resp_status = 200, resp_body = PemBody caPEM\<rparr>"
  have *: "\<exists>q. req_authorization q = authz \<and>
      http_call (spy net) tls meth (TrimRight_slash (url_at ''http'' host) @ path) authz body ws =
        ((fst ws, snd ws @ [(Plaintext, q)]), Inr ?resp)"
    if "good_path path" "header_ok authz" for tls meth path authz body and ws :: "'e spied"
  proof -
    have "url_path (url_at ''http'' host @ path) = Some path"
      using that(1) by (intro url_path_plain url_at_plain(2) [OF assms(2) schemes(4,5)]) (auto simp: good_path_def list_all_iff)
    then show ?thesis
      using that(2) url_at_plain(3) [OF assms(2) schemes(4,5), of path tls]
      by (simp add: http_call_def url_at_plain(1) [OF assms(2) schemes(4,5)] schemes client_Do.simps spy_def assms(7))
  qed
  have paths: "good_path ''/cacerts''" "good_path ''/nodes/join''" "header_ok []" by code_simp+
  have h: "header_ok (''Bearer '' @ Secret tok)"
    using assms(4) by (simp add: header_ok_def is_ctl_def)
  obtain ws1 where ws1: "fetchPinnedCA T (spy net) (url_at ''http'' host) (CAHash tok) (w, []) = (ws1, Inr caPEM)"
    using *[OF paths(1,3), of NoVerify "''GET''" None "(w, [])"] assms(1,5,6) by (auto simp: fetchPinnedCA_def tls_laws_def)
  obtain q where q: "req_authorization q = ''Bearer '' @ Secret tok"
      "http_call (spy net) (roots_of (poolFromPEM T caPEM)) ''POST'' (TrimRight_slash (url_at ''http'' host) @ ''/nodes/join'')
        (''Bearer '' @ Secret tok) (Some (JObj [(''nodeId'', JStr nodeID), (''csr'', JStr csr)])) ws1 =
        ((fst ws1, snd ws1 @ [(Plaintext, q)]), Inr ?resp)"
    using *[OF paths(2) h, of "roots_of (poolFromPEM T caPEM)" "''POST''"
        "Some (JObj [(''nodeId'', JStr nodeID), (''csr'', JStr csr)])" ws1]
    by blast
  then have ws2: "requestNodeCert T (spy net) (url_at ''http'' host) caPEM (Secret tok) nodeID csr ws1 =
      ((fst ws1, snd ws1 @ [(Plaintext, q)]), Inl (JoinRefused BadResponse))"
    unfolding requestNodeCert_def by simp
  have "ParseToken [] = Inl NoTokenPrefix" by code_simp
  then have "raw \<noteq> []" using assms(3) by auto
  then have "BootstrapNode T (spy net) now env (url_at ''http'' host) raw nodeID dir d (w, []) = (d1, (fst ws1, snd ws1 @ [(Plaintext, q)]), Inl (JoinRefused BadResponse))"
    using assms(3,8-12) ws1 ws2 by (simp add: BootstrapNode_def)
  with q(1) show ?thesis by auto
qed

end
