(* ===== verification/Examples_Join.thy ===== *)
theory Examples_Join
  imports Examples_Api Join
begin

text \<open>A TLS library that meets the laws, and the properties of the join handshake applied with it.\<close>

section \<open>A TLS library\<close>

text \<open>
  A certificate is its end of validity in 21 decimal digits, its CommonName, a slash and the
  public key; keys and requests are their own bytes.
\<close>

primrec decimal :: "nat \<Rightarrow> time \<Rightarrow> string" where
  "decimal 0 t = []"
| "decimal (Suc n) t = digit (nat (t mod 10)) # decimal n (t div 10)"

primrec undecimal :: "string \<Rightarrow> time" where
  "undecimal [] = 0"
| "undecimal (c # s) = int (of_char c) - 48 + 10 * undecimal s"

definition toy_cert :: "cert_template \<Rightarrow> string \<Rightarrow> string option" where
  "toy_cert tmpl pub =
     (if NotAfter tmpl < 0 \<or> 10 ^ 21 \<le> NotAfter tmpl \<or> CHR ''/'' \<in> set (SubjectCN tmpl) then None
      else Some (decimal 21 (NotAfter tmpl) @ SubjectCN tmpl @ CHR ''/'' # pub))"

definition toy_x509 :: "(string, string, string, string) crypto" where
  "toy_x509 = toy\<lparr>x509_CreateCertificate := \<lambda>tmpl iss pub key. toy_cert tmpl pub\<rparr>"

fun toy_strings :: "nat \<Rightarrow> string \<Rightarrow> (string \<times> string) list option" where
  "toy_strings 0 s = None"
| "toy_strings (Suc n) s =
     (if s = [] then Some []
      else case (pem_Decode toy s) of None \<Rightarrow> None
      | Some (k, t) \<Rightarrow> (case pem_Decode toy t of None \<Rightarrow> None
        | Some (v, u) \<Rightarrow> map_option (Cons (k, v)) (toy_strings n u)))"

definition toy_tls :: "(string, string, string, string) tls_lib" where
  "toy_tls = \<lparr>
     tl_lib = toy_x509,
     tl_CN = (\<lambda>c. takeWhile (\<lambda>x. x \<noteq> CHR ''/'') (drop 21 c)),
     tl_NotAfter = (\<lambda>c. undecimal (take 21 c)),
     tl_pool = (\<lambda>pem. pem_Decode toy pem \<noteq> None),
     tl_keypair = (\<lambda>cert keyPEM. case (pem_Decode toy cert, ParseKey toy_x509 keyPEM) of
       (Some (_, der), Some key) \<Rightarrow> drop (length der - length key) der = key | _ \<Rightarrow> False),
     tl_CreateCSR = (\<lambda>cn key. Some key),
     tl_body = (\<lambda>b. case b of PemBody s \<Rightarrow> s | Text s \<Rightarrow> s @ [CHR 0x0A] | _ \<Rightarrow> []),
     tl_json = (\<lambda>s. map_option (\<lambda>kvs. JObj (map (\<lambda>(k, v). (k, JStr v)) kvs)) (toy_strings (length s + 1) s)),
     tl_json_text = (\<lambda>j. case j of
       JObj kvs \<Rightarrow> concat (map (\<lambda>(k, v). case v of JStr s \<Rightarrow> pem_Encode toy k (pem_Encode toy s []) | _ \<Rightarrow> []) kvs)
     | _ \<Rightarrow> [])\<rparr>"

lemma toy_pem: "pem_Decode toy (pem_Encode toy ty bytes) = Some (ty, bytes)"
proof -
  have "takeWhile (\<lambda>c. c = CHR ''#'') (replicate n (CHR ''#'') @ CHR ''|'' # s) = replicate n (CHR ''#'')" for n s
    by (induction n) simp_all
  then show ?thesis by (simp add: toy_def Let_def)
qed

lemma toy_x509_simps:
  "pem_Decode toy_x509 = pem_Decode toy" "pem_Encode toy_x509 = pem_Encode toy"
  "x509_ParseCertificate toy_x509 = Some" "x509_ParsePKCS8 toy_x509 = Some" "key_Signs toy_x509 = (\<lambda>_. True)"
  "x509_MarshalPKCS8 toy_x509 = Some" "key_Public toy_x509 = (\<lambda>k. k)"
  "x509_CreateCertificate toy_x509 = (\<lambda>tmpl iss pub key. toy_cert tmpl pub)"
  "x509_ParseCSR toy_x509 = Some" "csr_CheckSignature toy_x509 = (\<lambda>_. True)" "csr_PublicKey toy_x509 = (\<lambda>r. r)"
  "length (sha256_Sum toy_x509 bytes) = 32"
  by (simp_all add: toy_x509_def toy_def)

lemma undecimal_decimal: "0 \<le> t \<Longrightarrow> t < 10 ^ n \<Longrightarrow> undecimal (decimal n t) = t"
proof (induction n arbitrary: t)
  case (Suc n)
  then have "undecimal (decimal n (t div 10)) = t div 10" by (intro Suc.IH) auto
  moreover have "of_char (digit (nat (t mod 10))) = (48 :: nat) + nat (t mod 10)"
    unfolding digit_def by (subst of_char_of) auto
  ultimately show ?case using div_mult_mod_eq [of t 10] by simp
qed simp

lemma length_decimal [simp]: "length (decimal n t) = n"
  by (induction n arbitrary: t) simp_all

lemma takeWhile_slash: "c \<notin> set s \<Longrightarrow> takeWhile (\<lambda>x. x \<noteq> c) (s @ c # t) = s"
  by (induction s) auto

lemma toy_tls_laws: "tls_laws toy_tls"
proof -
  have cert: "tl_CN toy_tls der = SubjectCN tmpl \<and> tl_NotAfter toy_tls der = NotAfter tmpl \<and> drop (length der - length pub) der = pub"
    if "toy_cert tmpl pub = Some der" for tmpl pub der
    using that undecimal_decimal [of "NotAfter tmpl" 21]
    by (auto simp: toy_cert_def toy_tls_def takeWhile_slash simp del: decimal.simps split: if_splits)
  have lib: "tl_lib toy_tls = toy_x509" by (simp add: toy_tls_def)
  have "crypto_laws toy_x509"
    by (simp add: crypto_laws_def toy_x509_simps toy_pem)
  moreover have "tl_keypair toy_tls (EncodeCert toy_x509 der) keyPEM"
    if "toy_cert tmpl key = Some der" "ParseKey toy_x509 keyPEM = Some key" for tmpl key der keyPEM
    using cert [OF that(1)] that(2) by (simp add: toy_tls_def EncodeCert_def toy_x509_simps toy_pem)
  ultimately show ?thesis
    using cert unfolding tls_laws_def lib toy_x509_simps by (fastforce simp: toy_tls_def)
qed

section \<open>A join\<close>

definition env0 :: "string join_env" where
  "env0 = \<lparr>env_newKey = Some ''key'', env_mkdir = True, env_key_fault = NoFault, env_ca_fault = NoFault, env_cert_fault = NoFault\<rparr>"

definition token_a :: string where
  "token_a = Token_String \<lparr>CAHash = Fingerprint toy_x509 (ca_PEM toy_ca), Secret = ''s3cret''\<rparr>"

definition key_a :: "fs \<Rightarrow> fs \<times> (join_error + string)" where
  "key_a d = node_key toy_tls env0 (key_path ''/var'') d"

definition csr_a :: string where
  "csr_a = pem_Encode toy ''CERTIFICATE REQUEST'' ''key''"

definition cert_a :: string where
  "cert_a = the (SignNodeCSR toy_x509 1 t0 toy_ca ''node-a'' csr_a)"

lemma NewCSR_a: "NewCSR toy_tls ''key'' cn = Some csr_a"
  by (simp add: NewCSR_def toy_tls_def csr_a_def toy_x509_simps)

text \<open>Everything but the two parts of a result that are maps is evaluated.\<close>

lemma key_a_result: "node_key toy_tls (env0\<lparr>env_cert_fault := f\<rparr>) (key_path ''/var'') d = key_a d"
  by (cases "os_ReadFile d (key_path ''/var'')"; cases "EncodeKey (tl_lib toy_tls) ''key''")
    (simp_all add: key_a_def node_key_def env0_def)

lemma ready_a:
  assumes "\<not> isl (snd (key_a d))" "projr (snd (key_a d)) = pem_Encode toy ''PRIVATE KEY'' ''key''"
    and "loadNodeCredentials toy_tls t0 (ca_path ''/var'') (cert_path ''/var'') (key_path ''/var'') ''node-a'' d = None"
  shows "join_ready toy_tls 1 t0 au0 (env0\<lparr>env_cert_fault := f\<rparr>) ''ctl:8443'' token_a ''node-a'' ''/var'' d
    (fst (key_a d)) (pem_Encode toy ''PRIVATE KEY'' ''key'') cert_a"
proof -
  have "plain_host ''ctl:8443''" "length (ca_PEM (auth_CA au0)) \<le> 65536" "tl_pool toy_tls (ca_PEM (auth_CA au0))"
    "ParseToken token_a = Inr \<lparr>CAHash = Fingerprint (tl_lib toy_tls) (ca_PEM (auth_CA au0)), Secret = JoinSecret au0\<rparr>"
    "header_ok (JoinSecret au0)" "validNodeID ''node-a''"
    by code_simp+
  moreover have "env_mkdir (env0\<lparr>env_cert_fault := f\<rparr>)" by (simp add: env0_def)
  moreover have "node_key toy_tls (env0\<lparr>env_cert_fault := f\<rparr>) (key_path ''/var'') d =
      (fst (key_a d), Inr (pem_Encode toy ''PRIVATE KEY'' ''key''))"
    unfolding key_a_result using assms(1,2) by (cases "key_a d"; cases "snd (key_a d)") auto
  moreover have "ParseKey (tl_lib toy_tls) (pem_Encode toy ''PRIVATE KEY'' ''key'') = Some ''key''"
    "SignNodeCSR (tl_lib toy_tls) 1 t0 (auth_CA au0) ''node-a'' csr_a = Some cert_a"
    by code_simp+
  ultimately show ?thesis using assms(3) unfolding join_ready_def by (simp add: NewCSR_a)
qed

lemma ready_fresh: "join_ready toy_tls 1 t0 au0 env0 ''ctl:8443'' token_a ''node-a'' ''/var'' fmempty
    (fst (key_a fmempty)) (pem_Encode toy ''PRIVATE KEY'' ''key'') cert_a"
proof -
  have "\<not> isl (snd (key_a fmempty))" "projr (snd (key_a fmempty)) = pem_Encode toy ''PRIVATE KEY'' ''key''"
    "loadNodeCredentials toy_tls t0 (ca_path ''/var'') (cert_path ''/var'') (key_path ''/var'') ''node-a'' fmempty = None"
    by code_simp+
  from ready_a [OF this, of NoFault] show ?thesis by (simp add: env0_def)
qed

lemma faults_a: "env_ca_fault env0 = NoFault" "env_cert_fault env0 = NoFault"
  by (simp_all add: env0_def)

lemma join_served_witness:
  "\<exists>d' cfg. BootstrapNode toy_tls (controller_net toy_tls 1 t0 au0) t0 env0 (https_at ''ctl:8443'') token_a ''node-a'' ''/var'' fmempty store1 =
      (d', store1, Inr cfg) \<and> tc_roots cfg = ca_PEM toy_ca \<and> NodeIDFromCN (tc_CN toy_tls cfg) = ''node-a'' \<and>
    BootstrapNode toy_tls (\<lambda>ch r w. (w, None)) later env0 [] [] ''node-a'' ''/var'' d' () = (d', (), Inr cfg)"
proof -
  have "later \<le> t0 + leafValidity - renewBefore - 1000000000" by code_simp
  with join_served [OF toy_tls_laws ready_fresh faults_a, of store1 "\<lambda>ch r w. (w, None)" env0 "[]" "[]" "()"]
  show ?thesis by (auto simp: au0_def)
qed

text \<open>Someone in the middle who hands on the public CA and nothing else.\<close>

definition middle :: "unit net" where
  "middle ch r w = (w, if ch = NoVerify then Some \<lparr>resp_status = 200, resp_body = PemBody (ca_PEM toy_ca)\<rparr> else None)"

definition spied_a :: "fs \<times> unit spied \<times> (join_error + tls_config)" where
  "spied_a = BootstrapNode toy_tls (spy middle) t0 env0 (https_at ''ctl:8443'') token_a ''node-a'' ''/var''
     fmempty ((), [])"

lemma log_a: "map (apsnd req_authorization) (snd (fst (snd spied_a))) = [(NoVerify, []), (RootCAs (ca_PEM toy_ca), ''Bearer s3cret'')]"
  by code_simp

lemma pinned_pool: "Fingerprint toy_x509 pem = Fingerprint toy_x509 (ca_PEM toy_ca) \<Longrightarrow> tl_pool toy_tls pem"
proof -
  assume f: "Fingerprint toy_x509 pem = Fingerprint toy_x509 (ca_PEM toy_ca)"
  have hex: "last (Fingerprint toy_x509 b) = (if list_ex (\<lambda>c. c \<noteq> CHR ''#'') b then CHR ''1'' else CHR ''0'')" for b
    by (simp add: Fingerprint_def toy_x509_def toy_def hex_EncodeToString_def hex_digit_def)
  have "list_ex (\<lambda>c. c \<noteq> CHR ''#'') (ca_PEM toy_ca)" by code_simp
  with hex [of pem] hex [of "ca_PEM toy_ca"] f have "list_ex (\<lambda>c. c \<noteq> CHR ''#'') pem" by (auto split: if_splits)
  then have "takeWhile (\<lambda>c. c = CHR ''#'') pem \<noteq> pem" by (auto simp: list_ex_iff takeWhile_eq_all_conv)
  then have "drop (length (takeWhile (\<lambda>c. c = CHR ''#'') pem)) pem \<noteq> []"
    by (metis append_Nil2 dropWhile_eq_drop takeWhile_dropWhile_id)
  then show ?thesis by (simp add: toy_tls_def toy_def Let_def)
qed

lemma secret_only_pinned_witness:
  "\<exists>caPEM w1. fetchPinnedCA toy_tls (spy middle) (https_at ''ctl:8443'') (Fingerprint toy_x509 (ca_PEM toy_ca)) ((), []) = (w1, Inr caPEM) \<and>
    Fingerprint toy_x509 caPEM = Fingerprint toy_x509 (ca_PEM toy_ca) \<and> RootCAs (ca_PEM toy_ca) = RootCAs caPEM"
proof -
  have run: "BootstrapNode toy_tls (spy middle) t0 env0 (https_at ''ctl:8443'') token_a ''node-a'' ''/var''
      fmempty ((), []) = (fst spied_a, ((), snd (fst (snd spied_a))), snd (snd spied_a))"
    by (auto simp: spied_a_def prod_eq_iff)
  obtain x q where log: "snd (fst (snd spied_a)) = [x, (RootCAs (ca_PEM toy_ca), q)]" "req_authorization q = ''Bearer s3cret''"
    using log_a by auto
  have m: "(RootCAs (ca_PEM toy_ca), q) \<in> set (snd (fst (snd spied_a)))" and a: "req_authorization q \<noteq> []"
    by (simp_all add: log)
  have h: "https_url (https_at ''ctl:8443'')" by code_simp
  have lib: "tl_lib toy_tls = toy_x509" by (simp add: toy_tls_def)
  have t: "ParseToken token_a = Inr \<lparr>CAHash = Fingerprint toy_x509 (ca_PEM toy_ca), Secret = ''s3cret''\<rparr>" by code_simp
  have p: "tl_pool toy_tls pem"
    if "Fingerprint (tl_lib toy_tls) pem = CAHash \<lparr>CAHash = Fingerprint toy_x509 (ca_PEM toy_ca), Secret = ''s3cret''\<rparr>" for pem
    using that pinned_pool by (simp add: lib)
  from secret_only_pinned [OF run t p h m a] show ?thesis unfolding lib by simp
qed

text \<open>The other cluster's certificate for the same node, and a fault when the new one is written.\<close>

definition old_disk :: fs where
  "old_disk = fmupd (cert_path ''/var'') (Plain cert_a) (fst (key_a fmempty))"

lemma half_join_accepted_witness:
  "\<exists>d'. BootstrapNode toy_tls (controller_net toy_tls 1 t0 au0) t0 (env0\<lparr>env_cert_fault := OpenFails\<rparr>) (https_at ''ctl:8443'') token_a
      ''node-a'' ''/var'' old_disk store1 = (d', store1, Inl CertNotWritten) \<and>
    BootstrapNode toy_tls (\<lambda>ch r w. (w, None)) later env0 [] [] ''node-a'' ''/var'' d' () =
      (d', (), Inr \<lparr>tc_roots = ca_PEM toy_ca, tc_cert = cert_a, tc_key = pem_Encode toy ''PRIVATE KEY'' ''key''\<rparr>)"
proof -
  have "\<not> isl (snd (key_a old_disk))" "projr (snd (key_a old_disk)) = pem_Encode toy ''PRIVATE KEY'' ''key''"
    "loadNodeCredentials toy_tls t0 (ca_path ''/var'') (cert_path ''/var'') (key_path ''/var'') ''node-a'' old_disk = None"
    by code_simp+
  note ready = ready_a [OF this, of OpenFails]
  have f: "env_ca_fault (env0\<lparr>env_cert_fault := OpenFails\<rparr>) = NoFault" "env_cert_fault (env0\<lparr>env_cert_fault := OpenFails\<rparr>) \<noteq> NoFault"
    by (simp_all add: env0_def)
  have old: "os_ReadFile old_disk (cert_path ''/var'') = Contents cert_a"
    by (simp add: old_disk_def os_ReadFile_def)
  have c: "ParseCert (tl_lib toy_tls) cert_a = Some (the (ParseCert toy_x509 cert_a))"
      "tl_CN toy_tls (the (ParseCert toy_x509 cert_a)) = NodeCN ''node-a''"
      "renewBefore \<le> tl_NotAfter toy_tls (the (ParseCert toy_x509 cert_a)) - later"
      "tl_keypair toy_tls cert_a (pem_Encode toy ''PRIVATE KEY'' ''key'')"
    by code_simp+
  from half_join_accepted [OF toy_tls_laws ready f old c, of store1 "\<lambda>ch r w. (w, None)" env0 "[]" "[]" "()"]
  show ?thesis by (simp add: au0_def)
qed

lemma secret_in_clear_witness:
  "\<exists>d' ws' r q. BootstrapNode toy_tls (spy (\<lambda>ch r w. (w, Some \<lparr>resp_status = 200, resp_body = PemBody (ca_PEM toy_ca)\<rparr>))) t0 env0
      (url_at ''http'' ''ctl:8443'') token_a ''node-a'' ''/var'' fmempty ((), []) = (d', ws', r) \<and>
    (Plaintext, q) \<in> set (snd ws') \<and> req_authorization q = ''Bearer s3cret''"
proof -
  let ?tok = "\<lparr>CAHash = Fingerprint (tl_lib toy_tls) (ca_PEM toy_ca), Secret = ''s3cret''\<rparr>"
  have h: "plain_host ''ctl:8443''" "ParseToken token_a = Inr ?tok" "header_ok (Secret ?tok)"
      "Fingerprint (tl_lib toy_tls) (ca_PEM toy_ca) = CAHash ?tok" "length (ca_PEM toy_ca) \<le> 65536"
    using ready_fresh by (simp_all add: join_ready_def au0_def)
  have k: "loadNodeCredentials toy_tls t0 (ca_path ''/var'') (cert_path ''/var'') (key_path ''/var'') ''node-a'' fmempty = None"
      "env_mkdir env0" "ParseKey (tl_lib toy_tls) (pem_Encode toy ''PRIVATE KEY'' ''key'') = Some ''key''"
    by code_simp+
  have n: "node_key toy_tls env0 (key_path ''/var'') fmempty = (fst (key_a fmempty), Inr (pem_Encode toy ''PRIVATE KEY'' ''key''))"
    using ready_fresh by (simp add: join_ready_def)
  from secret_in_clear [OF toy_tls_laws h refl k(1,2) n k(3) NewCSR_a, of "()"] show ?thesis by simp
qed

end
