(* ===== verification/Startup.thy ===== *)
theory Startup
  imports Join Backup
begin

text \<open>
  The start of the controller, \<open>cmd/controller/main.go\<close>: restoring the database, opening it,
  loading or creating the CA and the token, the serving certificate and the admin's
  configuration. \<open>net.ParseIP\<close>, the interfaces, SQLite and the TLS library are parameters.
\<close>

section \<open>Model\<close>

definition loopback_url :: "string \<Rightarrow> string" where
  "loopback_url port = ''https://127.0.0.1:'' @ port"

text \<open>\<open>net.SplitHostPort\<close>; \<open>None\<close> is an \<open>AddrError\<close>.\<close>

definition SplitHostPort :: "string \<Rightarrow> (string \<times> string) option" where
  "SplitHostPort s =
     (if CHR '':'' \<notin> set s then None
      else
        let port = rev (takeWhile (\<lambda>c. c \<noteq> CHR '':'') (rev s)); pre = take (length s - length port - 1) s
        in if hd s = CHR ''['' then
             (let e = length (takeWhile (\<lambda>c. c \<noteq> CHR '']'') s) in
              if CHR '']'' \<notin> set s \<or> e + 1 \<noteq> length pre \<or> CHR ''['' \<in> set (tl s) \<or> CHR '']'' \<in> set (drop (e + 1) s) then None
              else Some (take (e - 1) (tl s), port))
           else if CHR '':'' \<in> set pre \<or> CHR ''['' \<in> set s \<or> CHR '']'' \<in> set s then None
           else Some (pre, port))"

text \<open>An address of an interface: a \<open>*net.IPNet\<close> with whether it is a loopback address, or another kind.\<close>

datatype iface_addr = IPNet string bool | OtherAddr

text \<open>\<open>servingNames\<close>; addresses are in their textual form, which \<open>parse_ip\<close> gives for a string that is one.\<close>

fun add_san :: "(string \<Rightarrow> string option) \<Rightarrow> string \<Rightarrow> string list \<times> string list \<Rightarrow> string list \<times> string list" where
  "add_san parse_ip raw (dns, ips) =
     (let san = TrimSpace raw in
      if san = [] then (dns, ips)
      else case parse_ip san of
        Some ip \<Rightarrow> (dns, ips @ [ip])
      | None \<Rightarrow> (dns @ [san], ips))"

definition servingNames ::
  "(string \<Rightarrow> string option) \<Rightarrow> string option \<Rightarrow> iface_addr list option \<Rightarrow> string \<Rightarrow> string list \<times> string list" where
  "servingNames parse_ip hostname addrs extra =
     (let dns = ''localhost'' # (case hostname of None \<Rightarrow> [] | Some host \<Rightarrow> if host \<noteq> [] then [host] else []);
          ips = [''127.0.0.1'', ''::1''] @
            (case addrs of None \<Rightarrow> []
             | Some as \<Rightarrow> concat (map (\<lambda>a. case a of IPNet ip loopback \<Rightarrow> if loopback then [] else [ip] | OtherAddr \<Rightarrow> []) as))
      in fold (add_san parse_ip) (split_on (CHR '','') extra) (dns, ips))"

datatype admin_error = NoAdminKey | AdminCertFailed | AdminKeyFailed | BadListen | AdminNotWritten

definition writeAdminConfig ::
  "('c, 'k, 'p, 'r) tls_lib \<Rightarrow> int \<Rightarrow> time \<Rightarrow> 'k option \<Rightarrow> write_fault \<Rightarrow> string \<Rightarrow> ('c, 'k) ca \<Rightarrow> string \<Rightarrow> fs \<Rightarrow>
     fs \<times> admin_error option" where
  "writeAdminConfig T sn now newKey flt path ca listenAddr d = (case newKey of
     None \<Rightarrow> (d, Some NoAdminKey)
   | Some key \<Rightarrow> (case ClientCert (tl_lib T) sn now ca AdminCN (key_Public (tl_lib T) key) of
       None \<Rightarrow> (d, Some AdminCertFailed)
     | Some certPEM \<Rightarrow> (case EncodeKey (tl_lib T) key of
         None \<Rightarrow> (d, Some AdminKeyFailed)
       | Some keyPEM \<Rightarrow> (case SplitHostPort listenAddr of
           None \<Rightarrow> (d, Some BadListen)
         | Some (_, port) \<Rightarrow>
             let data = tl_json_text T (enc_admin_config \<lparr>cfg_Server = loopback_url port, cfg_CA = ca_PEM ca,
                   cfg_Cert = certPEM, cfg_Key = keyPEM\<rparr>);
                 (d1, ok) = WriteFile flt path data d
             in (d1, if ok then None else Some AdminNotWritten)))))"

text \<open>
  \<open>OpenSQLite\<close> on the files: a missing database is created, an existing one is opened and
  checked; \<open>open_db\<close> is SQLite reading a file, \<open>vacuum\<close> the file for given tables. The data
  directory is taken to exist or to be created.
\<close>

definition OpenSQLite ::
  "(string \<Rightarrow> sqlite_store option) \<Rightarrow> (sqlite_store \<Rightarrow> string) \<Rightarrow> string \<Rightarrow> fs \<Rightarrow> fs \<times> sqlite_store option" where
  "OpenSQLite open_db vacuum path d = (case os_ReadFile d path of
     NotExist \<Rightarrow> (fmupd path (Plain (vacuum OpenSQLite_empty)) d, Some OpenSQLite_empty)
   | Contents bytes \<Rightarrow> (d, open_db bytes)
   | ReadError \<Rightarrow> (d, None))"

record start_flags =
  fl_listen :: string
  fl_token :: string
  fl_tls_san :: string
  fl_node_timeout :: duration
  fl_data_dir :: string
  fl_backup_dir :: string

text \<open>What the machine gives the process: random keys and serial numbers, its names, and faults.\<close>

record 'k start_env =
  se_restore :: restore_fault
  se_ca_key :: "'k option"
  se_ca_faults :: "write_fault \<times> write_fault"
  se_rand :: "8 word list option"
  se_token_fault :: write_fault
  se_hostname :: "string option"
  se_addrs :: "iface_addr list option"
  se_server_key :: "'k option"
  se_admin_key :: "'k option"
  se_admin_fault :: write_fault
  se_serials :: "int \<times> int \<times> int"

datatype start_error = RestoreError backup_error | DatabaseError | CAError ca_error | TokenError load_error
  | ServerCertError | AdminConfigError admin_error

record ('c, 'k) running =
  run_store :: sqlite_store
  run_auth :: "('c, 'k) auth"
  run_cert :: "string \<times> 'k"
  run_controller :: controller

definition main_start ::
  "('c, 'k, 'p, 'r) tls_lib \<Rightarrow> (string \<Rightarrow> string option) \<Rightarrow> (string \<Rightarrow> sqlite_store option) \<Rightarrow> (sqlite_store \<Rightarrow> string) \<Rightarrow>
     'k start_env \<Rightarrow> time \<Rightarrow> start_flags \<Rightarrow> fs \<Rightarrow> fs \<times> (start_error + ('c, 'k) running)" where
  "main_start T parse_ip open_db vacuum env now fl d =
     (let L = tl_lib T; dataDir = fl_data_dir fl; dbPath = dataDir @ ''/state.db'';
          (sn1, sn2, sn3) = se_serials env; (kflt, cflt) = se_ca_faults env in
      case (if fl_backup_dir fl \<noteq> [] then RestoreIfMissing (se_restore env) dbPath (fl_backup_dir fl) d else (d, Inr [])) of
        (d1, Inl e) \<Rightarrow> (d1, Inl (RestoreError e))
      | (d1, Inr _) \<Rightarrow> (case OpenSQLite open_db vacuum dbPath d1 of
          (d2, None) \<Rightarrow> (d2, Inl DatabaseError)
        | (d2, Some state) \<Rightarrow> (case LoadOrCreateCA L sn1 now (se_ca_key env) kflt cflt (dataDir @ ''/tls'') d2 of
            (d3, Inl e) \<Rightarrow> (d3, Inl (CAError e))
          | (d3, Inr ca) \<Rightarrow>
            (case LoadOrCreateToken L (se_rand env) (se_token_fault env) (dataDir @ ''/token'') ca (joinSecret (fl_token fl)) d3 of
               (d4, Inl e) \<Rightarrow> (d4, Inl (TokenError e))
             | (d4, Inr tok) \<Rightarrow>
               let (dnsNames, ips) = servingNames parse_ip (se_hostname env) (se_addrs env) (fl_tls_san fl) in
               (case ServerCert L sn2 now (se_server_key env) ca dnsNames ips of
                  None \<Rightarrow> (d4, Inl ServerCertError)
                | Some cert \<Rightarrow> (case writeAdminConfig T sn3 now (se_admin_key env) (se_admin_fault env)
                      (dataDir @ ''/admin.conf'') ca (fl_listen fl) d4 of
                    (d5, Some e) \<Rightarrow> (d5, Inl (AdminConfigError e))
                  | (d5, None) \<Rightarrow> (d5, Inr \<lparr>run_store = state, run_auth = \<lparr>auth_CA = ca, JoinSecret = Secret tok\<rparr>, run_cert = cert,
                      run_controller = New \<lparr>NodeTimeout = fl_node_timeout fl\<rparr> (fl_node_timeout fl)\<rparr>)))))))"

section \<open>The admin's configuration\<close>

text \<open>Documented behaviour of \<open>encoding/json\<close>: an object of ASCII strings survives printing and parsing. PEM is ASCII.\<close>

definition ascii :: "string \<Rightarrow> bool" where
  "ascii s \<longleftrightarrow> list_all (\<lambda>c. (of_char c :: nat) < 128) s"

definition json_laws :: "('c, 'k, 'p, 'r) tls_lib \<Rightarrow> bool" where
  "json_laws T \<longleftrightarrow>
     (\<forall>kvs. list_all (\<lambda>(k, v). ascii k \<and> ascii v) kvs \<longrightarrow>
       tl_json T (tl_json_text T (JObj (map (\<lambda>(k, v). (k, JStr v)) kvs))) = Some (JObj (map (\<lambda>(k, v). (k, JStr v)) kvs))) \<and>
     (\<forall>ty bytes. ascii (pem_Encode (tl_lib T) ty bytes))"

lemma admin_config_decodes:
  assumes "json_laws T" "ascii (cfg_Server c)" "ascii (cfg_CA c)" "ascii (cfg_Cert c)" "ascii (cfg_Key c)"
  shows "\<exists>j. tl_json T (tl_json_text T (enc_admin_config c)) = Some j \<and>
    dec_admin_config j \<lparr>cfg_Server = [], cfg_CA = [], cfg_Cert = [], cfg_Key = []\<rparr> = Some c"
proof -
  let ?kvs = "[(''server'', cfg_Server c), (''ca'', cfg_CA c), (''cert'', cfg_Cert c), (''key'', cfg_Key c)]"
  have "ascii ''server''" "ascii ''ca''" "ascii ''cert''" "ascii ''key''" by code_simp+
  then have "list_all (\<lambda>(k, v). ascii k \<and> ascii v) ?kvs" using assms by simp
  then have "tl_json T (tl_json_text T (JObj (map (\<lambda>(k, v). (k, JStr v)) ?kvs))) = Some (JObj (map (\<lambda>(k, v). (k, JStr v)) ?kvs))"
    using assms(1) unfolding json_laws_def by blast
  moreover have "JObj (map (\<lambda>(k, v). (k, JStr v)) ?kvs) = enc_admin_config c" by (simp add: enc_admin_config_def)
  moreover have "dec_admin_config (enc_admin_config c) \<lparr>cfg_Server = [], cfg_CA = [], cfg_Cert = [], cfg_Key = []\<rparr> = Some c"
    by (simp add: enc_admin_config_def dec_admin_config_def dec_struct_def find_field_def at_field_def)
  ultimately show ?thesis by simp
qed

lemma ClientCert_credentials:
  assumes "tls_laws T" "ClientCert (tl_lib T) sn now ca cn (key_Public (tl_lib T) key) = Some certPEM"
    and "EncodeKey (tl_lib T) key = Some keyPEM"
  shows "\<exists>cert. ParseCert (tl_lib T) certPEM = Some cert \<and> tl_CN T cert = cn \<and> tl_keypair T certPEM keyPEM \<and>
    (\<exists>der. certPEM = pem_Encode (tl_lib T) ''CERTIFICATE'' der)"
proof -
  let ?L = "tl_lib T"
  have laws: "crypto_laws ?L" using assms(1) by (simp add: tls_laws_def)
  obtain tmpl der where c: "x509_CreateCertificate ?L tmpl (Issuer (ca_Cert ca)) (key_Public ?L key) (ca_Key ca) = Some der"
      "certPEM = EncodeCert ?L der" "SubjectCN tmpl = cn"
    using assms(2) by (auto simp: ClientCert_def)
  obtain cert where cert: "x509_ParseCertificate ?L der = Some cert" "tl_CN T cert = SubjectCN tmpl"
    using assms(1) c(1) unfolding tls_laws_def by blast
  have "tl_keypair T certPEM keyPEM"
    using assms(1) c(1,2) Parse_Encode(2) [OF laws assms(3)] unfolding tls_laws_def by blast
  moreover have "ParseCert ?L certPEM = Some cert" using Parse_Encode(1) [OF laws] cert(1) c(2) by simp
  moreover have "tl_CN T cert = cn" using cert(2) c(3) by simp
  moreover have "certPEM = pem_Encode ?L ''CERTIFICATE'' der" using c(2) by (simp add: EncodeCert_def)
  ultimately show ?thesis by blast
qed

text \<open>
  What the controller writes for its admin works: a configuration \<open>writeAdminConfig\<close> has
  written loads, after any change of other files, as a client of the loopback address at the
  port the controller listens on, that trusts the controller's CA and that the controller takes
  for the admin. When the write fails, the file is what it was before.
\<close>

theorem admin_config_works:
  assumes "tls_laws T" "json_laws T" "tl_pool T (ca_PEM ca)" "ascii (ca_PEM ca)" "ascii listenAddr"
    and "writeAdminConfig T sn now newKey flt path ca listenAddr d = (d1, err)"
    and "fmlookup d2 path = fmlookup d1 path"
  shows "(err = None \<longrightarrow> (\<exists>host port tls. SplitHostPort listenAddr = Some (host, port) \<and>
      LoadAdminConfig T path d2 = Inr (New_Client (loopback_url port) AdminCN, tls) \<and> tc_roots tls = ca_PEM ca)) \<and>
    (err \<noteq> None \<longrightarrow> fmlookup d2 path = fmlookup d path)"
proof (cases "err = None")
  case True
  obtain key certPEM keyPEM host port where w: "ClientCert (tl_lib T) sn now ca AdminCN (key_Public (tl_lib T) key) = Some certPEM"
      "EncodeKey (tl_lib T) key = Some keyPEM" "SplitHostPort listenAddr = Some (host, port)"
      "d1 = fst (WriteFile flt path (tl_json_text T (enc_admin_config \<lparr>cfg_Server = loopback_url port, cfg_CA = ca_PEM ca,
        cfg_Cert = certPEM, cfg_Key = keyPEM\<rparr>)) d)" "snd (WriteFile flt path (tl_json_text T (enc_admin_config
        \<lparr>cfg_Server = loopback_url port, cfg_CA = ca_PEM ca, cfg_Cert = certPEM, cfg_Key = keyPEM\<rparr>)) d)"
    using assms(6) True by (auto simp: writeAdminConfig_def Let_def split: option.splits prod.splits if_splits)
  let ?c = "\<lparr>cfg_Server = loopback_url port, cfg_CA = ca_PEM ca, cfg_Cert = certPEM, cfg_Key = keyPEM\<rparr>"
  obtain cert der where c: "ParseCert (tl_lib T) certPEM = Some cert" "tl_CN T cert = AdminCN" "tl_keypair T certPEM keyPEM"
      "certPEM = pem_Encode (tl_lib T) ''CERTIFICATE'' der"
    using ClientCert_credentials [OF assms(1) w(1,2)] by blast
  have "set port \<subseteq> set listenAddr"
    using w(3) by (auto simp: SplitHostPort_def Let_def split: if_splits dest!: set_takeWhileD)
  moreover have "ascii ''https://127.0.0.1:''" by code_simp
  ultimately have "ascii (loopback_url port)"
    using assms(5) by (auto simp: ascii_def loopback_url_def list_all_iff)
  moreover have "ascii certPEM" "ascii keyPEM"
    using assms(2) w(2) by (auto simp: c(4) json_laws_def EncodeKey_def)
  ultimately obtain j where "tl_json T (tl_json_text T (enc_admin_config ?c)) = Some j"
      "dec_admin_config j \<lparr>cfg_Server = [], cfg_CA = [], cfg_Cert = [], cfg_Key = []\<rparr> = Some ?c"
    using admin_config_decodes [OF assms(2), of ?c] assms(4) by auto
  moreover have "os_ReadFile d2 path = Contents (tl_json_text T (enc_admin_config ?c))"
    using WriteFile_lookup(1) [OF w(5)] assms(7) by (simp add: os_ReadFile_def w(4))
  ultimately show ?thesis
    using True assms(3) c w(3) by (simp add: LoadAdminConfig_def clientTLS_def poolFromPEM_def tc_CN_def)
next
  case False
  then have "fmlookup d1 path = fmlookup d path"
    using assms(6) WriteFile_lookup(2)
    by (auto simp: writeAdminConfig_def Let_def split: option.splits prod.splits if_splits) (metis fst_conv snd_conv)+
  then have "fmlookup d2 path = fmlookup d path" using assms(7) by simp
  then show ?thesis using False by blast
qed

section \<open>Restarts\<close>

text \<open>
  The bytes a start opens: those of the database, or without one those of the newest snapshot. And
  two disks that agree on the files that identify the controller.
\<close>

definition starts_from :: "start_flags \<Rightarrow> fs \<Rightarrow> string \<Rightarrow> bool" where
  "starts_from fl d bytes \<longleftrightarrow>
     os_ReadFile d (fl_data_dir fl @ ''/state.db'') = Contents bytes \<or>
     fmlookup d (fl_data_dir fl @ ''/state.db'') = None \<and> fl_backup_dir fl \<noteq> [] \<and>
       (case LatestBackup (fl_backup_dir fl) d of
          Inr latest \<Rightarrow> latest \<noteq> [] \<and> os_ReadFile d latest = Contents bytes | Inl e \<Rightarrow> False)"

definition same_identity :: "string \<Rightarrow> fs \<Rightarrow> fs \<Rightarrow> bool" where
  "same_identity dataDir d d' \<longleftrightarrow>
     list_all (\<lambda>f. fmlookup d' (dataDir @ f) = fmlookup d (dataDir @ f)) [''/tls/ca.crt'', ''/tls/ca.key'', ''/token'']"

lemma load_state:
  assumes "starts_from fl d bytes" "open_db bytes = Some st"
  obtains d1 x where "(if fl_backup_dir fl = [] then (d, Inr []) else
      RestoreIfMissing NoRestoreFault (fl_data_dir fl @ ''/state.db'') (fl_backup_dir fl) d) = (d1, Inr x)"
    "OpenSQLite open_db vacuum (fl_data_dir fl @ ''/state.db'') d1 = (d1, Some st)" "same_identity (fl_data_dir fl) d d1"
proof -
  let ?db = "fl_data_dir fl @ ''/state.db''"
  consider (here) "os_ReadFile d ?db = Contents bytes"
    | (lost) latest where "fmlookup d ?db = None" "fl_backup_dir fl \<noteq> []" "LatestBackup (fl_backup_dir fl) d = Inr latest"
        "latest \<noteq> []" "os_ReadFile d latest = Contents bytes"
    using assms(1) by (auto simp: starts_from_def split: sum.splits)
  then show thesis
  proof cases
    case here
    then have "fmlookup d ?db \<noteq> None" by (cases "fmlookup d ?db") (simp_all add: os_ReadFile_def)
    then show thesis
      using here assms(2) by (intro that [of d "[]"]) (simp_all add: RestoreIfMissing_def OpenSQLite_def same_identity_def)
  next
    case lost
    let ?d1 = "os_Rename (?db @ ''.restore'') ?db (fmupd (?db @ ''.restore'') (Plain bytes) d)"
    have "os_ReadFile ?d1 ?db = Contents bytes" by (simp add: os_ReadFile_def os_Rename_def)
    then show thesis
      using lost assms(2)
      by (intro that [of ?d1 latest]) (simp_all add: RestoreIfMissing_def OpenSQLite_def same_identity_def os_Rename_def Let_def)
  qed
qed

text \<open>The CA and the token a start has used are on its disk.\<close>

lemma main_start_identity:
  assumes "crypto_laws (tl_lib T)" "main_start T parse_ip open_db vacuum env now fl d = (d1, Inr run)"
    and "\<And>bs. se_rand env = Some bs \<Longrightarrow> length bs = 32"
  obtains ca keyPEM cert bytes tok where "run_auth run = \<lparr>auth_CA = ca, JoinSecret = Secret tok\<rparr>"
    "os_ReadFile d1 (fl_data_dir fl @ ''/tls/ca.crt'') = Contents (ca_PEM ca)"
    "os_ReadFile d1 (fl_data_dir fl @ ''/tls/ca.key'') = Contents keyPEM"
    "ParseCert (tl_lib T) (ca_PEM ca) = Some cert" "ca_Cert ca = Some cert"
    "ParseKey (tl_lib T) keyPEM = Some (ca_Key ca)"
    "os_ReadFile d1 (fl_data_dir fl @ ''/token'') = Contents bytes" "ParseToken bytes = Inr tok"
    "CAHash tok = Fingerprint (tl_lib T) (ca_PEM ca)"
    "joinSecret (fl_token fl) \<noteq> [] \<longrightarrow> joinSecret (fl_token fl) = Secret tok"
proof -
  let ?D = "fl_data_dir fl" and ?L = "tl_lib T"
  obtain d2 d3 d4 ca tok sn1 sn3 kflt cflt where
      ca: "LoadOrCreateCA ?L sn1 now (se_ca_key env) kflt cflt (?D @ ''/tls'') d2 = (d3, Inr ca)"
    and tok: "LoadOrCreateToken ?L (se_rand env) (se_token_fault env) (?D @ ''/token'') ca (joinSecret (fl_token fl)) d3 = (d4, Inr tok)"
    and adm: "writeAdminConfig T sn3 now (se_admin_key env) (se_admin_fault env) (?D @ ''/admin.conf'') ca (fl_listen fl) d4 = (d1, None)"
    and run: "run_auth run = \<lparr>auth_CA = ca, JoinSecret = Secret tok\<rparr>"
    using assms(2) by (auto simp: main_start_def Let_def split: prod.splits sum.splits option.splits if_splits)
  have "fmlookup d1 f = fmlookup d4 f" if "f \<noteq> ?D @ ''/admin.conf''" "f \<noteq> tmp_path (?D @ ''/admin.conf'')" for f
    using adm WriteFile_lookup(3) [OF that]
    by (auto simp: writeAdminConfig_def Let_def split: option.splits prod.splits if_splits) (metis fst_conv)+
  then have keep: "os_ReadFile d1 (?D @ f) = os_ReadFile d4 (?D @ f)" if "f \<in> {''/tls/ca.crt'', ''/tls/ca.key'', ''/token''}" for f
    using that by (intro os_ReadFile_cong) (auto simp: tmp_path_def)
  have "fmlookup d4 f = fmlookup d3 f" if "f \<noteq> ?D @ ''/token''" "f \<noteq> tmp_path (?D @ ''/token'')" for f
    using tok WriteFile_lookup(3) [OF that]
    by (auto simp: LoadOrCreateToken_def Let_def split: read.splits sum.splits prod.splits if_splits) (metis fst_conv)+
  then have keep': "os_ReadFile d4 (?D @ f) = os_ReadFile d3 (?D @ f)" if "f \<in> {''/tls/ca.crt'', ''/tls/ca.key''}" for f
    using that by (intro os_ReadFile_cong) (auto simp: tmp_path_def)
  obtain keyPEM cert where c: "os_ReadFile d3 (?D @ ''/tls/ca.crt'') = Contents (ca_PEM ca)"
      "os_ReadFile d3 (?D @ ''/tls/ca.key'') = Contents keyPEM" "ParseCert ?L (ca_PEM ca) = Some cert" "ca_Cert ca = Some cert"
      "ParseKey ?L keyPEM = Some (ca_Key ca)"
    using LoadOrCreateCA_files [OF assms(1) ca] by (metis append.assoc append_Cons append_Nil)
  note t = LoadOrCreateToken_again [OF assms(1) tok assms(3) joinSecret_trimmed]
  then obtain bytes where "os_ReadFile d4 (?D @ ''/token'') = Contents bytes" "ParseToken bytes = Inr tok"
    by (cases "os_ReadFile d4 (?D @ ''/token'')") auto
  with c t show thesis
    by (intro that [of ca tok keyPEM cert bytes]) (simp_all add: run keep keep')
qed

text \<open>
  C34: A controller that is started again is the same controller: on a disk with the CA and the
  token an earlier start has left, and with a database that opens or, without one, a newest
  snapshot that does, \<open>main\<close> serves the store of that database with the same CA and
  the same join secret, so that tokens and certificates given out before stay good. It does
  so whether its \<open>-token\<close> is empty or the earlier one, and whatever its names and address;
  it can only still fail to issue its own serving certificate or to write the admin's.
\<close>

theorem startup_again:
  assumes "crypto_laws (tl_lib T)" "main_start T parse_ip open_db vacuum env now fl d = (d1, Inr run)"
    and "\<And>bs. se_rand env = Some bs \<Longrightarrow> length bs = 32"
    and "fl_data_dir fl' = fl_data_dir fl" "fl_token fl' \<in> {[], fl_token fl}"
    and "same_identity (fl_data_dir fl) d1 d2" "starts_from fl' d2 bytes" "open_db bytes = Some st" "se_restore env' = NoRestoreFault"
  shows "case snd (main_start T parse_ip' open_db vacuum env' now' fl' d2) of
      Inr run' \<Rightarrow> run_store run' = st \<and> run_auth run' = run_auth run
    | Inl e \<Rightarrow> e = ServerCertError \<or> (\<exists>a. e = AdminConfigError a)"
proof -
  let ?D = "fl_data_dir fl" and ?L = "tl_lib T"
  obtain ca keyPEM cert tokbytes tok where id: "run_auth run = \<lparr>auth_CA = ca, JoinSecret = Secret tok\<rparr>"
    "os_ReadFile d1 (?D @ ''/tls/ca.crt'') = Contents (ca_PEM ca)"
    "os_ReadFile d1 (?D @ ''/tls/ca.key'') = Contents keyPEM"
    "ParseCert ?L (ca_PEM ca) = Some cert" "ca_Cert ca = Some cert"
    "ParseKey ?L keyPEM = Some (ca_Key ca)"
    "os_ReadFile d1 (?D @ ''/token'') = Contents tokbytes" "ParseToken tokbytes = Inr tok"
    "CAHash tok = Fingerprint ?L (ca_PEM ca)"
    "joinSecret (fl_token fl) \<noteq> [] \<longrightarrow> joinSecret (fl_token fl) = Secret tok"
    by (rule main_start_identity [OF assms(1-3)])
  obtain d3 x where load: "(if fl_backup_dir fl' = [] then (d2, Inr []) else
      RestoreIfMissing NoRestoreFault (?D @ ''/state.db'') (fl_backup_dir fl') d2) = (d3, Inr x)" "OpenSQLite open_db vacuum (?D @ ''/state.db'') d3 = (d3, Some st)" "same_identity ?D d2 d3"
    by (rule load_state [where open_db = open_db and vacuum = vacuum, OF assms(7,8), unfolded assms(4)])
  have eq: "os_ReadFile d3 (?D @ f) = os_ReadFile d1 (?D @ f)" if "f \<in> {''/tls/ca.crt'', ''/tls/ca.key'', ''/token''}" for f
    using that load(3) assms(6) by (intro os_ReadFile_cong) (auto simp: same_identity_def)
  have ca: "LoadOrCreateCA ?L sn now' key kf cf (?D @ ''/tls'') d3 = (d3, Inr ca)" for sn key kf cf
    by (rule LoadOrCreateCA_again [OF _ _ id(4-6)]) (use id(2,3) eq in simp_all)
  have "joinSecret [] = []" by code_simp
  then have sec: "joinSecret (fl_token fl') = [] \<or> joinSecret (fl_token fl') = Secret tok" using assms(5) id(10) by auto
  have "os_ReadFile d3 (?D @ ''/token'') = Contents tokbytes" using id(7) eq by simp
  then have tok: "LoadOrCreateToken ?L rand tf (?D @ ''/token'') ca (joinSecret (fl_token fl')) d3 = (d3, Inr tok)" for rand tf
    using sec id(8,9) by (auto simp: LoadOrCreateToken_def Let_def)
  obtain sn1 sn2 sn3 kf cf dns ips where e: "se_serials env' = (sn1, sn2, sn3)" "se_ca_faults env' = (kf, cf)"
      "servingNames parse_ip' (se_hostname env') (se_addrs env') (fl_tls_san fl') = (dns, ips)"
    by (metis prod.exhaust)
  have "main_start T parse_ip' open_db vacuum env' now' fl' d2 = (case ServerCert ?L sn2 now' (se_server_key env') ca dns ips of
      None \<Rightarrow> (d3, Inl ServerCertError)
    | Some cert \<Rightarrow> (case writeAdminConfig T sn3 now' (se_admin_key env') (se_admin_fault env') (?D @ ''/admin.conf'') ca (fl_listen fl') d3 of
        (d5, Some e) \<Rightarrow> (d5, Inl (AdminConfigError e))
      | (d5, None) \<Rightarrow> (d5, Inr \<lparr>run_store = st, run_auth = \<lparr>auth_CA = ca, JoinSecret = Secret tok\<rparr>, run_cert = cert,
          run_controller = New \<lparr>NodeTimeout = fl_node_timeout fl'\<rparr> (fl_node_timeout fl')\<rparr>)))"
    using load(1,2) by (cases "fl_backup_dir fl' = []") (simp_all add: main_start_def Let_def assms(4,9) e ca tok)
  then show ?thesis using id(1) by (simp split: option.splits prod.splits)
qed

end
