(* ===== verification/Examples_Startup.thy ===== *)
theory Examples_Startup
  imports Examples_Join Examples_Backup Startup
begin

text \<open>A TLS library whose PEM is ASCII, and the properties of the start of the controller applied with it.\<close>

section \<open>An ASCII armour\<close>

definition armor :: "string \<Rightarrow> string" where
  "armor s = concat (map (\<lambda>c. [char_of (48 + (of_char c :: nat) div 16), char_of (48 + (of_char c :: nat) mod 16)]) s)"

fun dearmor :: "string \<Rightarrow> string" where
  "dearmor (a # b # s) = char_of (16 * ((of_char a :: nat) - 48) + ((of_char b :: nat) - 48)) # dearmor s"
| "dearmor s = []"

definition armored_x509 :: "(string, string, string, string) crypto" where
  "armored_x509 = toy_x509\<lparr>pem_Encode := \<lambda>ty bytes. armor (pem_Encode toy ty bytes),
     pem_Decode := \<lambda>s. pem_Decode toy (dearmor s)\<rparr>"

definition armored_tls :: "(string, string, string, string) tls_lib" where
  "armored_tls = toy_tls\<lparr>tl_lib := armored_x509, tl_pool := \<lambda>pem. pem_Decode toy (dearmor pem) \<noteq> None,
     tl_keypair := \<lambda>cert keyPEM. case (pem_Decode toy (dearmor cert), ParseKey armored_x509 keyPEM) of
       (Some (_, der), Some key) \<Rightarrow> drop (length der - length key) der = key | _ \<Rightarrow> False\<rparr>"

lemma code_div: "(of_char c :: nat) div 16 < 16" "(of_char c :: nat) mod 16 < 16"
proof -
  have "(of_char c :: nat) < 256" by (rule nat_of_char_less_256)
  then show "(of_char c :: nat) div 16 < 16" by (intro less_mult_imp_div_less) simp
qed simp

lemma char_code: "n < 256 \<Longrightarrow> of_char (char_of n) = (n :: nat)"
  by simp

lemma dearmor_armor: "dearmor (armor s) = s"
proof (induction s)
  case (Cons c s)
  have "(of_char (char_of (48 + (of_char c :: nat) div 16)) :: nat) = 48 + of_char c div 16"
    "(of_char (char_of (48 + (of_char c :: nat) mod 16)) :: nat) = 48 + of_char c mod 16"
    using code_div [of c] by (auto intro!: char_code)
  with Cons show ?case by (simp add: armor_def)
qed (simp add: armor_def)

lemma ascii_armor: "ascii (armor s)"
proof (induction s)
  case (Cons c s)
  have "(of_char (char_of (48 + (of_char c :: nat) div 16)) :: nat) < 128"
    "(of_char (char_of (48 + (of_char c :: nat) mod 16)) :: nat) < 128"
    using code_div [of c] by (subst char_code; simp)+
  with Cons show ?case by (simp add: armor_def ascii_def)
qed (simp add: armor_def ascii_def)

lemma armored_simps:
  "pem_Decode armored_x509 s = pem_Decode toy (dearmor s)" "pem_Encode armored_x509 ty bytes = armor (pem_Encode toy ty bytes)"
  "x509_ParseCertificate armored_x509 = Some" "x509_ParsePKCS8 armored_x509 = Some" "key_Signs armored_x509 = (\<lambda>_. True)"
  "x509_MarshalPKCS8 armored_x509 = Some" "key_Public armored_x509 = (\<lambda>k. k)"
  "x509_CreateCertificate armored_x509 = (\<lambda>tmpl iss pub key. toy_cert tmpl pub)"
  "x509_ParseCSR armored_x509 = Some" "csr_CheckSignature armored_x509 = (\<lambda>_. True)" "csr_PublicKey armored_x509 = (\<lambda>r. r)"
  "length (sha256_Sum armored_x509 bytes) = 32"
  by (simp_all add: armored_x509_def toy_x509_simps)

lemma armored_crypto: "crypto_laws armored_x509"
  by (simp add: crypto_laws_def armored_simps toy_pem dearmor_armor)

lemma armored_laws: "tls_laws armored_tls"
proof -
  have cert: "tl_CN armored_tls der = SubjectCN tmpl \<and> tl_NotAfter armored_tls der = NotAfter tmpl \<and> drop (length der - length pub) der = pub"
    if "toy_cert tmpl pub = Some der" for tmpl pub der
    using that undecimal_decimal [of "NotAfter tmpl" 21]
    by (auto simp: toy_cert_def toy_tls_def armored_tls_def takeWhile_slash simp del: decimal.simps split: if_splits)
  have lib: "tl_lib armored_tls = armored_x509" by (simp add: armored_tls_def)
  have "tl_keypair armored_tls (EncodeCert armored_x509 der) keyPEM"
    if "toy_cert tmpl key = Some der" "ParseKey armored_x509 keyPEM = Some key" for tmpl key der keyPEM
    using cert [OF that(1)] that(2) by (simp add: armored_tls_def EncodeCert_def armored_simps toy_pem dearmor_armor)
  then show ?thesis
    using cert armored_crypto unfolding tls_laws_def lib armored_simps by (fastforce simp: armored_tls_def toy_tls_def)
qed

lemma toy_pem_append: "pem_Encode toy k s @ t = pem_Encode toy k (s @ t)"
  by (simp add: toy_def)

lemma toy_strings_text:
  "length kvs < n \<Longrightarrow> toy_strings n (concat (map (\<lambda>(k, v). pem_Encode toy k (pem_Encode toy v [])) kvs)) = Some kvs"
proof (induction kvs arbitrary: n)
  case Nil
  then show ?case by (cases n) simp_all
next
  case (Cons kv kvs)
  obtain k v m where "kv = (k, v)" "n = Suc m" using Cons.prems by (cases kv; cases n) auto
  moreover have "pem_Encode toy k s \<noteq> []" for s by (simp add: toy_def)
  ultimately show ?case using Cons by (simp add: toy_pem_append toy_pem)
qed

lemma armored_json: "json_laws armored_tls"
proof -
  have "tl_json armored_tls (tl_json_text armored_tls (JObj (map (\<lambda>(k, v). (k, JStr v)) kvs))) = Some (JObj (map (\<lambda>(k, v). (k, JStr v)) kvs))"
    for kvs
  proof -
    let ?t = "concat (map (\<lambda>(k, v). pem_Encode toy k (pem_Encode toy v [])) kvs)"
    have "length kvs \<le> length ?t"
      by (induction kvs) (auto simp: toy_def)
    then have "toy_strings (length ?t + 1) ?t = Some kvs" by (intro toy_strings_text) simp
    then show ?thesis by (simp add: armored_tls_def toy_tls_def o_def split_def)
  qed
  then show ?thesis
    by (simp add: json_laws_def armored_tls_def armored_simps ascii_armor)
qed

section \<open>The admin's configuration\<close>

definition ctl_ca :: "(string, string) ca" where
  "ctl_ca = \<lparr>ca_Cert = Some ''ca'', ca_Key = ''cakey'', ca_PEM = armor (pem_Encode toy ''CERTIFICATE'' ''ca'')\<rparr>"

definition admin_run :: "write_fault \<Rightarrow> fs \<times> admin_error option" where
  "admin_run flt = writeAdminConfig armored_tls 7 t0 (Some ''adminkey'') flt ''/var/admin.conf'' ctl_ca '':6443'' fmempty"

lemma admin_config_works_witness:
  "(\<exists>host port tls. SplitHostPort '':6443'' = Some (host, port) \<and>
      LoadAdminConfig armored_tls ''/var/admin.conf'' (fst (admin_run NoFault)) =
        Inr (New_Client (loopback_url port) AdminCN, tls) \<and> tc_roots tls = ca_PEM ctl_ca) \<and>
    fmlookup (fst (admin_run RenameFails)) ''/var/admin.conf'' = fmlookup fmempty ''/var/admin.conf''"
proof -
  have p: "tl_pool armored_tls (ca_PEM ctl_ca)" "ascii (ca_PEM ctl_ca)" "ascii '':6443''"
    using ascii_armor by (simp_all add: armored_tls_def ctl_ca_def dearmor_armor toy_pem) (simp add: ascii_def)
  have run: "writeAdminConfig armored_tls 7 t0 (Some ''adminkey'') flt ''/var/admin.conf'' ctl_ca '':6443'' fmempty =
      (fst (admin_run flt), snd (admin_run flt))" for flt
    by (simp add: admin_run_def)
  have "snd (admin_run NoFault) = None" by code_simp
  moreover have "snd (admin_run RenameFails) \<noteq> None" by code_simp
  ultimately show ?thesis
    using admin_config_works [OF armored_laws armored_json p run refl] by blast
qed

section \<open>A restart\<close>

definition senv0 :: "string start_env" where
  "senv0 = \<lparr>se_restore = NoRestoreFault, se_ca_key = Some ''cakey'', se_ca_faults = (NoFault, NoFault),
     se_rand = Some (replicate 32 7), se_token_fault = NoFault, se_hostname = Some ''ctl'',
     se_addrs = Some [IPNet ''127.0.0.1'' True, IPNet ''10.0.0.5'' False], se_server_key = Some ''srv'',
     se_admin_key = Some ''adm'', se_admin_fault = NoFault, se_serials = (1, 2, 3)\<rparr>"

definition fl0 :: start_flags where
  "fl0 = \<lparr>fl_listen = '':6443'', fl_token = [], fl_tls_san = ''ctl.lan, 10.0.0.9'', fl_node_timeout = 10000000000,
     fl_data_dir = ''/var'', fl_backup_dir = []\<rparr>"

definition ip0 :: "string \<Rightarrow> string option" where
  "ip0 s = (if s \<noteq> [] \<and> list_all (\<lambda>c. c = CHR ''.'' \<or> is_digit c) s then Some s else None)"

definition start0 :: "fs \<times> (start_error + (string, string) running)" where
  "start0 = main_start armored_tls ip0 undump dump senv0 t0 fl0 fmempty"

text \<open>The first start, step by step.\<close>

definition fresh_db :: fs where
  "fresh_db = fst (OpenSQLite undump dump ''/var/state.db'' fmempty)"

definition ca0 :: "fs \<times> (ca_error + (string, string) ca)" where
  "ca0 = LoadOrCreateCA armored_x509 1 t0 (Some ''cakey'') NoFault NoFault ''/var/tls'' fresh_db"

lemma fresh_db: "OpenSQLite undump dump ''/var/state.db'' fmempty = (fresh_db, Some OpenSQLite_empty)"
  by (simp add: fresh_db_def OpenSQLite_def os_ReadFile_def)

lemma ca0: "\<not> isl (snd ca0)" "os_ReadFile (fst ca0) ''/var/token'' = NotExist"
  by code_simp+

lemma tok0:
  assumes "os_ReadFile d ''/var/token'' = NotExist"
  shows "\<exists>d1 tok. LoadOrCreateToken L (Some r) NoFault ''/var/token'' ca [] d = (d1, Inr tok)"
  using assms by (simp add: LoadOrCreateToken_def WriteFile_def Let_def)

lemma cert0: "ServerCert armored_x509 2 t0 (Some ''srv'') ca dns ips \<noteq> None"
proof -
  have "NotAfter tmpl = t0 + leafValidity \<Longrightarrow> SubjectCN tmpl = ''k8-controller'' \<Longrightarrow> toy_cert tmpl pub \<noteq> None" for tmpl pub
    by (simp add: toy_cert_def) code_simp
  then show ?thesis by (simp add: ServerCert_def armored_simps)
qed

lemma admin0: "\<exists>d1. writeAdminConfig armored_tls 3 t0 (Some ''adm'') NoFault path ca '':6443'' d = (d1, None)"
proof -
  have "NotAfter tmpl = t0 + leafValidity \<Longrightarrow> SubjectCN tmpl = AdminCN \<Longrightarrow> toy_cert tmpl pub \<noteq> None" for tmpl pub
    by (simp add: toy_cert_def) code_simp
  then obtain certPEM where "ClientCert armored_x509 3 t0 ca AdminCN ''adm'' = Some certPEM"
    by (fastforce simp: ClientCert_def armored_simps)
  moreover have "SplitHostPort '':6443'' = Some ([], ''6443'')" by code_simp
  moreover have "tl_lib armored_tls = armored_x509" by (simp add: armored_tls_def)
  ultimately show ?thesis
    by (simp add: writeAdminConfig_def EncodeKey_def armored_simps WriteFile_def Let_def)
qed

lemma start0: "\<exists>d run. start0 = (d, Inr run) \<and> auth_CA (run_auth run) = projr (snd ca0)"
proof -
  obtain d1 ca where ca: "ca0 = (d1, Inr ca)" using ca0(1) by (intro that [of "fst ca0" "projr (snd ca0)"]) (cases ca0; simp)
  have pem: "projr (snd ca0) = ca" by (simp add: ca)
  have "os_ReadFile d1 ''/var/token'' = NotExist" using ca0(2) by (simp add: ca)
  then obtain d2 tok where tok: "LoadOrCreateToken armored_x509 (Some (replicate 32 7)) NoFault ''/var/token'' ca [] d1 = (d2, Inr tok)"
    using tok0 by blast
  obtain cert where cert: "ServerCert armored_x509 2 t0 (Some ''srv'') ca
      (fst (servingNames ip0 (se_hostname senv0) (se_addrs senv0) (fl_tls_san fl0)))
      (snd (servingNames ip0 (se_hostname senv0) (se_addrs senv0) (fl_tls_san fl0))) = Some cert"
    using cert0 by blast
  obtain d3 where "writeAdminConfig armored_tls 3 t0 (Some ''adm'') NoFault ''/var/admin.conf'' ca '':6443'' d2 = (d3, None)"
    using admin0 by blast
  moreover have "joinSecret [] = []" by code_simp
  moreover have "tl_lib armored_tls = armored_x509" by (simp add: armored_tls_def)
  ultimately show ?thesis
    using ca [unfolded ca0_def] pem tok cert
    by (simp add: start0_def main_start_def senv0_def fl0_def fresh_db Let_def split_def)
qed

text \<open>The second start finds other keys and names, and a disk without the database but with a snapshot of it.\<close>

definition senv1 :: "string start_env" where
  "senv1 = senv0\<lparr>se_ca_key := None, se_rand := None, se_hostname := None, se_server_key := Some ''srv2''\<rparr>"

definition fl1 :: start_flags where
  "fl1 = fl0\<lparr>fl_backup_dir := ''/nas'', fl_listen := '':7443''\<rparr>"

definition disk1 :: fs where
  "disk1 = fmupd (backup_path ''/nas'' t0) (Plain (dump OpenSQLite_empty))
     (fmfilter (\<lambda>f. f \<in> {''/var/tls/ca.crt'', ''/var/tls/ca.key'', ''/var/token''}) (fst start0))"

lemma latest1: "LatestBackup ''/nas'' disk1 = Inr (backup_path ''/nas'' t0)"
proof -
  have "\<not> is_backup ''/nas'' ''/var/tls/ca.crt''" "\<not> is_backup ''/nas'' ''/var/tls/ca.key''" "\<not> is_backup ''/nas'' ''/var/token''"
    by (simp_all add: is_backup_def)
  moreover have "backup_path ''/nas'' t0 \<noteq> ''/var/tls/ca.crt''" "backup_path ''/nas'' t0 \<noteq> ''/var/tls/ca.key''"
      "backup_path ''/nas'' t0 \<noteq> ''/var/token''"
    by (simp_all add: backup_path_def)
  ultimately have "snapshots ''/nas'' disk1 = [backup_path ''/nas'' t0]"
    by (intro snapshots_eqI) (auto simp: set_snapshots disk1_def is_backup_path split: if_splits)
  moreover have "plain_dir ''/nas''" by code_simp
  ultimately show ?thesis by (simp add: LatestBackup_def listBackups_plain)
qed

lemma startup_again_witness:
  "case snd (main_start armored_tls ip0 undump dump senv1 later fl1 disk1) of
      Inr run \<Rightarrow> run_store run = OpenSQLite_empty \<and> run_auth run = run_auth (projr (snd start0))
    | Inl e \<Rightarrow> e = ServerCertError \<or> (\<exists>a. e = AdminConfigError a)"
proof -
  obtain d1 run where s: "start0 = (d1, Inr run)" using start0 by blast
  have rand: "length bs = 32" if "se_rand senv0 = Some bs" for bs
    using that by (auto simp: senv0_def)
  have laws: "crypto_laws (tl_lib armored_tls)" using armored_crypto by (simp add: armored_tls_def)
  have fl: "fl_data_dir fl1 = fl_data_dir fl0" "fl_token fl1 \<in> {[], fl_token fl0}" by (simp_all add: fl1_def fl0_def)
  have same: "same_identity (fl_data_dir fl0) d1 disk1"
    by (simp add: same_identity_def disk1_def s backup_path_def fl0_def)
  have db: "starts_from fl1 disk1 (dump OpenSQLite_empty)"
    using latest1 by (simp add: starts_from_def fl1_def fl0_def) (simp add: disk1_def os_ReadFile_def backup_path_def)
  have flt: "se_restore senv1 = NoRestoreFault" by (simp add: senv1_def senv0_def)
  show ?thesis
    unfolding s snd_conv sum.sel by (rule startup_again [OF laws s [unfolded start0_def] rand fl same db undump flt])
qed

end
