(* ===== verification/K8ctl.thy ===== *)
theory K8ctl
  imports Join Jobs
begin

text \<open>
  The command line, \<open>cmd/k8ctl\<close>, and the label flag of \<open>cmd/agent/main.go\<close>: the values of flags,
  Go's \<open>flag\<close> package as far as it is used, the commands with what they print and their exit
  status, and the tables as \<open>text/tabwriter\<close> lays them out. The network, the TLS library and
  the text of JSON are parameters. What goes to standard error is left out.
\<close>

section \<open>Values of flags\<close>

text \<open>The pairs of \<open>parseMap\<close>, a later one replacing an earlier one with its key.\<close>

definition add_pair :: "string \<Rightarrow> (string, string) fmap \<Rightarrow> (string, string) fmap" where
  "add_pair pair values = (case Cut (TrimSpace pair) ''='' of
     None \<Rightarrow> values
   | Some (key, val) \<Rightarrow> if key = [] then values else fmupd key val values)"

definition parseMap :: "string \<Rightarrow> strmap" where
  "parseMap input =
     (if TrimSpace input = [] then None else Some (fold add_pair (split_on (CHR '','') input) fmempty))"

text \<open>The copy in the agent tests for the empty string only.\<close>

definition agent_parseMap :: "string \<Rightarrow> strmap" where
  "agent_parseMap input = (if input = [] then None else Some (fold add_pair (split_on (CHR '','') input) fmempty))"

text \<open>
  \<open>strconv\<close>: \<open>Atoi\<close>, and \<open>ParseInt\<close> with base 0, which knows the prefixes of Go's integer literals
  and underscores between digits. A number out of range is an error.
\<close>

definition parse_signed :: "(string \<Rightarrow> nat option) \<Rightarrow> string \<Rightarrow> goint option" where
  "parse_signed digits s =
     (let (neg, ds) = (case s of [] \<Rightarrow> (False, [])
        | c # cs \<Rightarrow> if c = CHR ''-'' then (True, cs) else if c = CHR ''+'' then (False, cs) else (False, s))
      in case digits ds of
           None \<Rightarrow> None
         | Some n \<Rightarrow>
             let i = (if neg then - int n else int n)
             in if - (2 ^ 63) \<le> i \<and> i < 2 ^ 63 then Some (word_of_int i) else None)"

definition Atoi :: "string \<Rightarrow> goint option" where
  "Atoi s = parse_signed num s"

definition digit_value :: "char \<Rightarrow> nat option" where
  "digit_value c = (let n = of_char c :: nat in
     if 48 \<le> n \<and> n \<le> 57 then Some (n - 48) else if 65 \<le> n \<and> n \<le> 90 then Some (n - 55)
     else if 97 \<le> n \<and> n \<le> 122 then Some (n - 87) else None)"

fun accum :: "nat \<Rightarrow> nat \<Rightarrow> string \<Rightarrow> nat option" where
  "accum base n [] = Some n"
| "accum base n (c # cs) =
     (if c = CHR ''_'' then accum base n cs
      else case digit_value c of
        None \<Rightarrow> None
      | Some d \<Rightarrow> if base \<le> d then None else accum base (n * base + d) cs)"

definition ParseUint :: "string \<Rightarrow> nat option" where
  "ParseUint s = (case s of
     [] \<Rightarrow> None
   | c # r \<Rightarrow>
       if c \<noteq> CHR ''0'' then accum 10 0 s
       else (case r of
         x # y # t \<Rightarrow>
           let l = lower_char x in
           if l = CHR ''b'' then accum 2 0 (y # t)
           else if l = CHR ''o'' then accum 8 0 (y # t)
           else if l = CHR ''x'' then accum 16 0 (y # t)
           else accum 8 0 r
       | _ \<Rightarrow> accum 8 0 r))"

text \<open>\<open>underscoreOK\<close>; \<open>saw\<close> is the kind of the last character.\<close>

fun underscore_loop :: "bool \<Rightarrow> char \<Rightarrow> string \<Rightarrow> bool" where
  "underscore_loop hex saw [] = (saw \<noteq> CHR ''_'')"
| "underscore_loop hex saw (c # cs) =
     (if is_digit c \<or> hex \<and> lower_char c \<in> set ''abcdef'' then underscore_loop hex (CHR ''0'') cs
      else if c = CHR ''_'' then saw = CHR ''0'' \<and> underscore_loop hex (CHR ''_'') cs
      else saw \<noteq> CHR ''_'' \<and> underscore_loop hex (CHR ''!'') cs)"

definition underscoreOK :: "string \<Rightarrow> bool" where
  "underscoreOK s =
     (let u = (case s of c # cs \<Rightarrow> if c = CHR ''-'' \<or> c = CHR ''+'' then cs else s | [] \<Rightarrow> s)
      in case u of
        a # b # t \<Rightarrow>
          if a = CHR ''0'' \<and> lower_char b \<in> set ''box'' then underscore_loop (lower_char b = CHR ''x'') (CHR ''0'') t
          else underscore_loop False (CHR ''^'') u
      | _ \<Rightarrow> underscore_loop False (CHR ''^'') u)"

definition ParseInt :: "string \<Rightarrow> goint option" where
  "ParseInt s = (if CHR ''_'' \<in> set s \<and> \<not> underscoreOK s then None else parse_signed ParseUint s)"

definition ParseBool :: "string \<Rightarrow> bool option" where
  "ParseBool s =
     (if s \<in> {''1'', ''t'', ''T'', ''TRUE'', ''true'', ''True''} then Some True
      else if s \<in> {''0'', ''f'', ''F'', ''FALSE'', ''false'', ''False''} then Some False else None)"

fun port_loop :: "string list \<Rightarrow> goint list option" where
  "port_loop [] = Some []"
| "port_loop (raw # rest) = (case Atoi (TrimSpace raw) of
     None \<Rightarrow> None
   | Some port \<Rightarrow> if port <s 1 \<or> 65535 <s port then None else map_option (Cons port) (port_loop rest))"

definition parsePorts :: "string \<Rightarrow> goint slice option" where
  "parsePorts input =
     (if TrimSpace input = [] then Some None else map_option Some (port_loop (split_on (CHR '','') input)))"

text \<open>\<open>strings.Fields\<close>.\<close>

fun Fields_from :: "string \<Rightarrow> string \<Rightarrow> string list" where
  "Fields_from cur [] = (if cur = [] then [] else [rev cur])"
| "Fields_from cur (c # s) =
     (if is_space c then (if cur = [] then Fields_from [] s else rev cur # Fields_from [] s)
      else Fields_from (c # cur) s)"

definition splitCommand :: "string \<Rightarrow> string slice" where
  "splitCommand input = (if TrimSpace input = [] then None else Some (Fields_from [] input))"

section \<open>Flags\<close>

text \<open>
  A flag set as its defined flags with their values. Parsing stops at the first argument that is
  no flag, at \<open>-\<close> or after \<open>--\<close>; \<open>-h\<close> and \<open>-help\<close>, when not defined, ask for help. The flag
  sets of \<open>k8ctl\<close> are made with \<open>ExitOnError\<close>.
\<close>

datatype flag_val = StringFlag string | IntFlag goint | BoolFlag bool

datatype flag_error = HelpAsked | BadFlag

type_synonym flag_set = "string \<rightharpoonup> flag_val"

fun flag_Set :: "flag_val \<Rightarrow> string \<Rightarrow> flag_val option" where
  "flag_Set (StringFlag _) s = Some (StringFlag s)"
| "flag_Set (IntFlag _) s = map_option IntFlag (ParseInt s)"
| "flag_Set (BoolFlag _) s = map_option BoolFlag (ParseBool s)"

fun is_bool :: "flag_val \<Rightarrow> bool" where
  "is_bool (BoolFlag _) = True"
| "is_bool _ = False"

text \<open>A name and the value after the first \<open>=\<close> that is not its first character.\<close>

definition split_flag :: "string \<Rightarrow> string \<times> string option" where
  "split_flag name = (case Cut (tl name) ''='' of
     None \<Rightarrow> (name, None)
   | Some (a, b) \<Rightarrow> (hd name # a, Some b))"

definition flag_name :: "string \<Rightarrow> string" where
  "flag_name s = (if hd (tl s) = CHR ''-'' then drop 2 s else drop 1 s)"

function (sequential) flag_Parse :: "flag_set \<Rightarrow> string list \<Rightarrow> flag_error + flag_set \<times> string list" where
  "flag_Parse fs [] = Inr (fs, [])"
| "flag_Parse fs (s # args) =
     (if length s < 2 \<or> hd s \<noteq> CHR ''-'' then Inr (fs, s # args)
      else if s = ''--'' then Inr (fs, args)
      else if hd (flag_name s) = CHR ''-'' \<or> hd (flag_name s) = CHR ''='' then Inl BadFlag
      else
        let (name, given) = split_flag (flag_name s) in
        case fs name of
          None \<Rightarrow> Inl (if name = ''help'' \<or> name = ''h'' then HelpAsked else BadFlag)
        | Some f \<Rightarrow>
            (case (if is_bool f then Some (case given of None \<Rightarrow> ''true'' | Some v \<Rightarrow> v, args)
                   else case given of
                     Some v \<Rightarrow> Some (v, args)
                   | None \<Rightarrow> (case args of [] \<Rightarrow> None | v # rest \<Rightarrow> Some (v, rest))) of
               None \<Rightarrow> Inl BadFlag
             | Some (v, rest) \<Rightarrow>
                 (case flag_Set f v of None \<Rightarrow> Inl BadFlag | Some f' \<Rightarrow> flag_Parse (fs(name \<mapsto> f')) rest)))"

  by pat_completeness auto

termination
  by (relation "measure (\<lambda>(fs, args). length args)") (auto split: if_splits option.splits list.splits)

declare flag_Parse.simps(2) [simp del]

section \<open>Output\<close>

definition newline :: string where
  "newline = [CHR 0x0A]"

fun Strings_Join :: "string list \<Rightarrow> string \<Rightarrow> string" where
  "Strings_Join [] sep = []"
| "Strings_Join [s] sep = s"
| "Strings_Join (s # ss) sep = s @ sep @ Strings_Join ss sep"

text \<open>The verb \<open>%q\<close>; text beyond ASCII is taken to be printable.\<close>

definition quote_char :: "char \<Rightarrow> string" where
  "quote_char c = (let n = of_char c :: nat; esc = (\<lambda>x. [CHR 0x5C, x]) in
     if n = 34 \<or> n = 92 then esc c
     else if 32 \<le> n \<and> n \<noteq> 127 then [c]
     else if n = 7 then esc (CHR ''a'') else if n = 8 then esc (CHR ''b'') else if n = 9 then esc (CHR ''t'')
     else if n = 10 then esc (CHR ''n'') else if n = 11 then esc (CHR ''v'') else if n = 12 then esc (CHR ''f'')
     else if n = 13 then esc (CHR ''r'')
     else esc (CHR ''x'') @ [hex_digit (n div 16), hex_digit (n mod 16)])"

definition Quote :: "string \<Rightarrow> string" where
  "Quote s = [CHR 0x22] @ concat (map quote_char s) @ [CHR 0x22]"

text \<open>
  \<open>text/tabwriter\<close> with a padding of two blanks: the cells of a line end with tabs, all but the
  last; a column is a run of lines that have a tab after their cell in it, as wide as the widest
  of those cells. A form feed starts the layout afresh. Widths count UTF-8 characters.
\<close>

definition text_width :: "string \<Rightarrow> nat" where
  "text_width s = length (filter (\<lambda>c. (of_char c :: nat) < 128 \<or> 192 \<le> (of_char c :: nat)) s)"

definition tab_cells :: "string \<Rightarrow> string list" where
  "tab_cells line = split_on (CHR 0x09) (map (\<lambda>c. if c = CHR 0x0B then CHR 0x09 else c) line)"

definition in_column :: "nat \<Rightarrow> string list \<Rightarrow> bool" where
  "in_column j cells \<longleftrightarrow> j + 1 < length cells"

definition column_width :: "nat \<Rightarrow> string list list \<Rightarrow> string list list \<Rightarrow> nat" where
  "column_width j previous following =
     fold (\<lambda>cells w. max w (text_width (cells ! j)))
       (takeWhile (in_column j) previous @ takeWhile (in_column j) following) 0 + 2"

definition pad_cell :: "nat \<Rightarrow> string \<Rightarrow> string" where
  "pad_cell w cell = cell @ replicate (w - text_width cell) (CHR '' '')"

definition format_line :: "string list list \<Rightarrow> string list \<Rightarrow> string list list \<Rightarrow> string" where
  "format_line previous cells following = concat (map (\<lambda>j.
     if in_column j cells then pad_cell (column_width j previous (cells # following)) (cells ! j) else cells ! j)
     [0..<length cells])"

fun format_lines :: "string list list \<Rightarrow> string list list \<Rightarrow> string list" where
  "format_lines previous [] = []"
| "format_lines previous (cells # following) =
     format_line previous cells following # format_lines (cells # previous) following"

definition tabwriter :: "string \<Rightarrow> string" where
  "tabwriter text = Strings_Join (map (\<lambda>chunk.
     Strings_Join (format_lines [] (map tab_cells (split_on (CHR 0x0A) chunk))) newline) (split_on (CHR 0x0C) text)) newline"

definition tab_row :: "string list \<Rightarrow> string" where
  "tab_row cells = Strings_Join cells [CHR 0x09] @ newline"

section \<open>print.go\<close>

definition formatMap :: "strmap \<Rightarrow> string" where
  "formatMap values =
     (if entries values = fmempty then ''-''
      else Strings_Join (map (\<lambda>key. key @ ''='' @ map_get values key) (sorted_list_of_fset (fmdom (entries values)))) '','')"

text \<open>
  Division truncates. (Go divides as \<open>float64\<close>, which for more than a thousand hours may round up
  within the last nanosecond of an hour.)
\<close>

definition trunc_div :: "int \<Rightarrow> int \<Rightarrow> int" where
  "trunc_div a b = sgn a * (\<bar>a\<bar> div b)"

definition age :: "time \<Rightarrow> time \<Rightarrow> string" where
  "age now t =
     (let d = time_Sub now t in
      if d < 60 * 1000000000 then show_int (trunc_div d 1000000000) @ ''s''
      else if d < 3600 * 1000000000 then show_int (trunc_div d (60 * 1000000000)) @ ''m''
      else show_int (trunc_div d (3600 * 1000000000)) @ ''h'')"

definition show_goint :: "goint \<Rightarrow> string" where
  "show_goint i = show_int (sint i)"

text \<open>A table is a list of rows, the header first; an empty listing prints nothing.\<close>

definition print_table :: "string \<Rightarrow> string list list \<Rightarrow> string" where
  "print_table title rows = title @ newline @ tabwriter (concat (map tab_row rows)) @ newline"

definition node_table :: "time \<Rightarrow> node list \<Rightarrow> string list list" where
  "node_table now nodes = [''ID'', ''LABELS'', ''CPU'', ''MEMORY'', ''HEARTBEAT''] #
     map (\<lambda>n. [node_ID n, formatMap (node_labels n), show_goint (res_CPU (node_capacity n)),
        show_goint (res_Memory (node_capacity n)), age now (last_heartbeat n)]) nodes"

definition printNodes :: "time \<Rightarrow> node list \<Rightarrow> string" where
  "printNodes now nodes = (if nodes = [] then [] else print_table ''NODES'' (node_table now nodes))"

definition service_table :: "service list \<Rightarrow> string list list" where
  "service_table services = [''NAME'', ''IMAGE'', ''REPLICAS'', ''RUNNING'', ''PENDING'', ''ASSIGNMENTS''] #
     map (\<lambda>v. [service_name v, service_image v, show_goint (desired_replicas (service_st v)),
        show_goint (running_replicas (service_st v)), show_goint (pending_replicas (service_st v)),
        Strings_Join (elems (assignment_IDs (service_st v))) '','']) services"

definition printServices :: "service list \<Rightarrow> string" where
  "printServices services = (if services = [] then [] else print_table ''SERVICES'' (service_table services))"

definition job_shown :: "job \<Rightarrow> string" where
  "job_shown j =
     (if job_succeeded (job_st j) then ''succeeded''
      else if job_retries j <s failed_attempts (job_st j) then ''failed'' else ''running'')"

definition job_table :: "job list \<Rightarrow> string list list" where
  "job_table jobs = [''NAME'', ''IMAGE'', ''ATTEMPTS'', ''STATUS''] #
     map (\<lambda>j. [job_name j, job_image j, show_goint (failed_attempts (job_st j)), job_shown j]) jobs"

definition printJobs :: "job list \<Rightarrow> string" where
  "printJobs jobs = (if jobs = [] then [] else print_table ''JOBS'' (job_table jobs))"

definition assignment_table :: "assignment list \<Rightarrow> string list list" where
  "assignment_table assignments = [''ID'', ''OWNER'', ''NODE'', ''PHASE'', ''IMAGE'', ''CPU'', ''MEMORY''] #
     map (\<lambda>a. [asg_ID a, kind_string (owner_kind a) @ ''/'' @ owner_name a, asg_node a, phase_string (asg_phase a),
        asg_image a, show_goint (res_CPU (asg_resources a)), show_goint (res_Memory (asg_resources a))]) assignments"

definition printAssignments :: "assignment list \<Rightarrow> string" where
  "printAssignments assignments = (if assignments = [] then [] else print_table ''ASSIGNMENTS'' (assignment_table assignments))"

definition printState :: "time \<Rightarrow> state_snapshot \<Rightarrow> string" where
  "printState now state = printNodes now (snap_nodes state) @ printServices (snap_services state) @
     printJobs (snap_jobs state) @ printAssignments (snap_assignments state)"

definition printJSON :: "('c, 'k, 'p, 'r) tls_lib \<Rightarrow> json \<Rightarrow> string" where
  "printJSON T j = tl_json_text T j @ newline"

section \<open>Commands\<close>

text \<open>
  A command takes the network's state to the next one, what it writes to standard output, and its
  exit status. \<open>K8_CONFIG\<close> is empty when it is not set.
\<close>

type_synonym 'w outcome = "'w \<times> string \<times> nat"

record k8ctl_env =
  K8_CONFIG :: string
  time_Now :: time

definition usage :: string where
  "usage = concat (map (\<lambda>line. line @ newline)
     [''usage:'',
      ''  k8ctl service create -name web -image nginx -replicas 2 -cpu 100 -memory 256'',
      ''  k8ctl service delete web'',
      ''  k8ctl job create -name backup -image alpine -command '' @ Quote ''backup now'' @ '' -retries 1'',
      ''  k8ctl job delete backup'',
      ''  k8ctl get [--json] nodes|services|jobs|assignments'',
      ''  k8ctl state [--json]''])"

definition defaultConfigPath :: "k8ctl_env \<Rightarrow> string" where
  "defaultConfigPath e = (if K8_CONFIG e \<noteq> [] then K8_CONFIG e else ''/var/lib/k8/admin.conf'')"

definition configFlag :: "k8ctl_env \<Rightarrow> flag_set" where
  "configFlag e = [''config'' \<mapsto> StringFlag (defaultConfigPath e)]"

text \<open>The connections of a client: those its base URL asks for, with its certificate when they are TLS.\<close>

definition client_transport :: "'w net \<Rightarrow> client \<Rightarrow> tls_config \<Rightarrow> 'w transport" where
  "client_transport net c tls = (case url_channel (cl_base c) (RootCAs (tc_roots tls)) of
     None \<Rightarrow> (\<lambda>r w. (w, None))
   | Some ch \<Rightarrow> (\<lambda>r w. net ch (if ch = Plaintext then r\<lparr>req_chains := None\<rparr> else r) w))"

text \<open>\<open>connect\<close>, and a call whose error ends the program.\<close>

definition connect ::
  "('c, 'k, 'p, 'r) tls_lib \<Rightarrow> 'w net \<Rightarrow> string \<Rightarrow> fs \<Rightarrow> ('w transport \<times> client) option" where
  "connect T net path d = (case LoadAdminConfig T path d of
     Inl e \<Rightarrow> None
   | Inr (c, tls) \<Rightarrow> Some (client_transport net c tls, c))"

definition call_or_exit ::
  "('w transport \<times> client) option \<Rightarrow> ('w transport \<Rightarrow> client \<Rightarrow> 'w \<Rightarrow> 'w \<times> (client_error + 'a)) \<Rightarrow>
     ('a \<Rightarrow> string \<times> nat) \<Rightarrow> 'w \<Rightarrow> 'w outcome" where
  "call_or_exit conn call show w = (case conn of
     None \<Rightarrow> (w, [], 1)
   | Some (send, c) \<Rightarrow> (case call send c w of
       (w1, Inl e) \<Rightarrow> (w1, [], 1)
     | (w1, Inr x) \<Rightarrow> (w1, show x)))"

text \<open>\<open>fs.Parse\<close> under \<open>ExitOnError\<close>.\<close>

definition parse_or_exit :: "flag_set \<Rightarrow> string list \<Rightarrow> 'w \<Rightarrow> (flag_set \<Rightarrow> string list \<Rightarrow> 'w outcome) \<Rightarrow> 'w outcome" where
  "parse_or_exit fs args w run = (case flag_Parse fs args of
     Inl HelpAsked \<Rightarrow> (w, [], 0)
   | Inl BadFlag \<Rightarrow> (w, [], 2)
   | Inr (vals, rest) \<Rightarrow> run vals rest)"

definition flag_str :: "flag_set \<Rightarrow> string \<Rightarrow> string" where
  "flag_str fs name = (case fs name of Some (StringFlag s) \<Rightarrow> s | _ \<Rightarrow> [])"

definition flag_int :: "flag_set \<Rightarrow> string \<Rightarrow> goint" where
  "flag_int fs name = (case fs name of Some (IntFlag i) \<Rightarrow> i | _ \<Rightarrow> 0)"

definition flag_bool :: "flag_set \<Rightarrow> string \<Rightarrow> bool" where
  "flag_bool fs name = (case fs name of Some (BoolFlag b) \<Rightarrow> b | _ \<Rightarrow> False)"

definition applied :: "string \<Rightarrow> string \<Rightarrow> string \<Rightarrow> string" where
  "applied kind name verb = kind @ '' '' @ Quote name @ '' '' @ verb @ newline"

definition service_flags :: "k8ctl_env \<Rightarrow> flag_set" where
  "service_flags e = configFlag e ++
     [''name'' \<mapsto> StringFlag [], ''image'' \<mapsto> StringFlag [], ''command'' \<mapsto> StringFlag [], ''replicas'' \<mapsto> IntFlag 1,
      ''cpu'' \<mapsto> IntFlag 100, ''memory'' \<mapsto> IntFlag 128, ''env'' \<mapsto> StringFlag [], ''labels'' \<mapsto> StringFlag [],
      ''ports'' \<mapsto> StringFlag []]"

definition service_of_flags :: "flag_set \<Rightarrow> goint slice \<Rightarrow> service" where
  "service_of_flags fs ports = zero_service\<lparr>
     service_name := flag_str fs ''name'',
     service_image := flag_str fs ''image'',
     service_command := splitCommand (flag_str fs ''command''),
     service_env := parseMap (flag_str fs ''env''),
     service_replicas := flag_int fs ''replicas'',
     service_resources := \<lparr>res_CPU = flag_int fs ''cpu'', res_Memory = flag_int fs ''memory''\<rparr>,
     service_placement := \<lparr>required_labels = parseMap (flag_str fs ''labels'')\<rparr>,
     service_ports := ports\<rparr>"

definition runServiceCreate ::
  "('c, 'k, 'p, 'r) tls_lib \<Rightarrow> 'w net \<Rightarrow> k8ctl_env \<Rightarrow> fs \<Rightarrow> string list \<Rightarrow> 'w \<Rightarrow> 'w outcome" where
  "runServiceCreate T net e d args w = parse_or_exit (service_flags e) args w (\<lambda>fs rest.
     case parsePorts (flag_str fs ''ports'') of
       None \<Rightarrow> (w, [], 1)
     | Some ports \<Rightarrow>
         let v = service_of_flags fs ports
         in call_or_exit (connect T net (flag_str fs ''config'') d) (\<lambda>send c. ApplyService send c v)
              (\<lambda>_. (applied ''service'' (service_name v) ''applied'', 0)) w)"

text \<open>The two deletions, which differ in the call they make.\<close>

definition run_delete ::
  "(string \<Rightarrow> 'w transport \<Rightarrow> client \<Rightarrow> 'w \<Rightarrow> 'w \<times> (client_error + unit)) \<Rightarrow> string \<Rightarrow>
     ('c, 'k, 'p, 'r) tls_lib \<Rightarrow> 'w net \<Rightarrow> k8ctl_env \<Rightarrow> fs \<Rightarrow> string list \<Rightarrow> 'w \<Rightarrow> 'w outcome" where
  "run_delete call kind T net e d args w = parse_or_exit (configFlag e) args w (\<lambda>fs rest.
     case rest of
       [name] \<Rightarrow> call_or_exit (connect T net (flag_str fs ''config'') d) (call name)
                  (\<lambda>_. (applied kind name ''deleted'', 0)) w
     | _ \<Rightarrow> (w, usage, 1))"

definition runServiceDelete ::
  "('c, 'k, 'p, 'r) tls_lib \<Rightarrow> 'w net \<Rightarrow> k8ctl_env \<Rightarrow> fs \<Rightarrow> string list \<Rightarrow> 'w \<Rightarrow> 'w outcome" where
  "runServiceDelete = run_delete (\<lambda>name send c. Client_DeleteService send c name) ''service''"

definition job_flags :: "k8ctl_env \<Rightarrow> flag_set" where
  "job_flags e = configFlag e ++
     [''name'' \<mapsto> StringFlag [], ''image'' \<mapsto> StringFlag [], ''command'' \<mapsto> StringFlag [], ''retries'' \<mapsto> IntFlag 0,
      ''cpu'' \<mapsto> IntFlag 100, ''memory'' \<mapsto> IntFlag 128, ''env'' \<mapsto> StringFlag [], ''labels'' \<mapsto> StringFlag []]"

definition job_of_flags :: "flag_set \<Rightarrow> job" where
  "job_of_flags fs = zero_job\<lparr>
     job_name := flag_str fs ''name'',
     job_image := flag_str fs ''image'',
     job_command := splitCommand (flag_str fs ''command''),
     job_env := parseMap (flag_str fs ''env''),
     job_retries := flag_int fs ''retries'',
     job_resources := \<lparr>res_CPU = flag_int fs ''cpu'', res_Memory = flag_int fs ''memory''\<rparr>,
     job_placement := \<lparr>required_labels = parseMap (flag_str fs ''labels'')\<rparr>\<rparr>"

definition runJobCreate ::
  "('c, 'k, 'p, 'r) tls_lib \<Rightarrow> 'w net \<Rightarrow> k8ctl_env \<Rightarrow> fs \<Rightarrow> string list \<Rightarrow> 'w \<Rightarrow> 'w outcome" where
  "runJobCreate T net e d args w = parse_or_exit (job_flags e) args w (\<lambda>fs rest.
     let j = job_of_flags fs
     in call_or_exit (connect T net (flag_str fs ''config'') d) (\<lambda>send c. ApplyJob send c j)
          (\<lambda>_. (applied ''job'' (job_name j) ''applied'', 0)) w)"

definition runJobDelete ::
  "('c, 'k, 'p, 'r) tls_lib \<Rightarrow> 'w net \<Rightarrow> k8ctl_env \<Rightarrow> fs \<Rightarrow> string list \<Rightarrow> 'w \<Rightarrow> 'w outcome" where
  "runJobDelete = run_delete (\<lambda>name send c. Client_DeleteJob send c name) ''job''"

text \<open>\<open>runService\<close> and \<open>runJob\<close>.\<close>

definition run_verb :: "(string list \<Rightarrow> 'w \<Rightarrow> 'w outcome) \<Rightarrow> (string list \<Rightarrow> 'w \<Rightarrow> 'w outcome) \<Rightarrow> string list \<Rightarrow> 'w \<Rightarrow> 'w outcome" where
  "run_verb create delete args w = (case args of
     [] \<Rightarrow> (w, usage, 1)
   | verb # rest \<Rightarrow>
       if verb = ''create'' then create rest w else if verb = ''delete'' then delete rest w else (w, usage, 1))"

text \<open>The arguments of \<open>get\<close>, in any order: the path of the configuration, whether JSON is asked for, the resource.\<close>

function (sequential) get_args :: "string \<times> bool \<times> string \<Rightarrow> string list \<Rightarrow> string \<times> bool \<times> string" where
  "get_args (config, asJSON, resource) [] = (config, asJSON, resource)"
| "get_args (config, asJSON, resource) (arg # rest) =
     (if arg = ''-config'' \<or> arg = ''--config''
      then (case rest of [] \<Rightarrow> (config, asJSON, resource) | x # rest' \<Rightarrow> get_args (x, asJSON, resource) rest')
      else if HasPrefix arg ''-config='' \<or> HasPrefix arg ''--config=''
      then get_args (case Cut arg ''='' of Some (_, x) \<Rightarrow> x | None \<Rightarrow> [], asJSON, resource) rest
      else if arg = ''-json'' \<or> arg = ''--json'' then get_args (config, True, resource) rest
      else get_args (config, asJSON, if resource = [] then arg else resource) rest)"
  by pat_completeness auto

termination
  by (relation "measure (\<lambda>(_, args). length args)") auto

definition runGet ::
  "('c, 'k, 'p, 'r) tls_lib \<Rightarrow> 'w net \<Rightarrow> k8ctl_env \<Rightarrow> fs \<Rightarrow> string list \<Rightarrow> 'w \<Rightarrow> 'w outcome" where
  "runGet T net e d args w =
     (let (config, asJSON, resource) = get_args (defaultConfigPath e, False, []) args in
      if resource = [] then (w, usage, 1)
      else call_or_exit (connect T net config d) FetchState (\<lambda>state.
        if resource = ''nodes''
        then (if asJSON then printJSON T (JArr (map enc_node (snap_nodes state))) else printNodes (time_Now e) (snap_nodes state), 0)
        else if resource = ''services''
        then (if asJSON then printJSON T (JArr (map enc_service (snap_services state))) else printServices (snap_services state), 0)
        else if resource = ''jobs''
        then (if asJSON then printJSON T (JArr (map enc_job (snap_jobs state))) else printJobs (snap_jobs state), 0)
        else if resource = ''assignments''
        then (if asJSON then printJSON T (JArr (map enc_assignment (snap_assignments state)))
              else printAssignments (snap_assignments state), 0)
        else (usage, 1)) w)"

definition runState ::
  "('c, 'k, 'p, 'r) tls_lib \<Rightarrow> 'w net \<Rightarrow> k8ctl_env \<Rightarrow> fs \<Rightarrow> string list \<Rightarrow> 'w \<Rightarrow> 'w outcome" where
  "runState T net e d args w = parse_or_exit (configFlag e ++ [''json'' \<mapsto> BoolFlag False]) args w (\<lambda>fs rest.
     call_or_exit (connect T net (flag_str fs ''config'') d) FetchState (\<lambda>state.
       (if flag_bool fs ''json'' then printJSON T (enc_snapshot state) else printState (time_Now e) state, 0)) w)"

text \<open>\<open>main\<close>, on the arguments after the program's name.\<close>

definition k8ctl_main ::
  "('c, 'k, 'p, 'r) tls_lib \<Rightarrow> 'w net \<Rightarrow> k8ctl_env \<Rightarrow> fs \<Rightarrow> string list \<Rightarrow> 'w \<Rightarrow> 'w outcome" where
  "k8ctl_main T net e d args w = (case args of
     [] \<Rightarrow> (w, usage, 1)
   | command # rest \<Rightarrow>
       if command = ''service'' then run_verb (runServiceCreate T net e d) (runServiceDelete T net e d) rest w
       else if command = ''job'' then run_verb (runJobCreate T net e d) (runJobDelete T net e d) rest w
       else if command = ''get'' then runGet T net e d rest w
       else if command = ''state'' then runState T net e d rest w
       else (w, usage, 1))"

end
