(* ===== verification/K8ctl_Lines.thy ===== *)
theory K8ctl_Lines
  imports K8ctl
begin

text \<open>
  Theorems on the command line: what is printed as labels is read back the same, a service written
  as a line of flags is the service the controller stores, and what the status column says.
\<close>

section \<open>Joining and splitting\<close>

lemma split_on_Join:
  assumes "xs \<noteq> []" "\<forall>x \<in> set xs. c \<notin> set x"
  shows "split_on c (Strings_Join xs [c]) = xs"
  using assms
proof (induction xs "[c]" rule: Strings_Join.induct)
  case (3 s x xs)
  then show ?case using split_on_append [of c s "Strings_Join (x # xs) [c]"] by simp
qed (simp_all add: split_on_last)

lemma set_Join: "set (Strings_Join xs sep) \<subseteq> \<Union> (set ` set xs) \<union> set sep"
  by (induction xs sep rule: Strings_Join.induct) auto

lemma Join_empty: "Strings_Join xs sep = [] \<Longrightarrow> x \<in> set xs \<Longrightarrow> x = []"
  by (induction xs sep rule: Strings_Join.induct) auto

lemma hd_Join: "x \<noteq> [] \<Longrightarrow> Strings_Join (x # xs) sep \<noteq> [] \<and> hd (Strings_Join (x # xs) sep) = hd x"
  by (cases xs) simp_all

lemma TrimSpace_Nil: "TrimSpace s = [] \<longleftrightarrow> list_all is_space s"
proof (cases "list_all is_space s")
  case True
  then have "dropWhile is_space s = []" by (simp only: dropWhile_eq_Nil_conv list_all_iff)
  then have "TrimSpace s = []" by (simp only: TrimSpace_def rev.simps dropWhile.simps)
  then show ?thesis using True by simp
next
  case False
  then have "dropWhile is_space s \<noteq> []" by (metis dropWhile_eq_Nil_conv list_all_iff)
  then have "hd (dropWhile is_space s) \<in> set (dropWhile is_space s)" "\<not> is_space (hd (dropWhile is_space s))"
    by (rule hd_in_set, rule hd_dropWhile)
  then have "dropWhile is_space (rev (dropWhile is_space s)) \<noteq> []" by (auto simp: dropWhile_eq_Nil_conv)
  then show ?thesis using False by (simp add: TrimSpace_def)
qed

section \<open>Labels\<close>

text \<open>What a label must be for its text to be read back.\<close>

definition plain_label :: "string \<Rightarrow> string \<Rightarrow> bool" where
  "plain_label k v \<longleftrightarrow> k \<noteq> [] \<and> CHR '','' \<notin> set k \<and> CHR ''='' \<notin> set k \<and> CHR '','' \<notin> set v \<and>
     \<not> is_space (hd k) \<and> (v = [] \<or> \<not> is_space (last v))"

lemma add_pair_plain: "plain_label k v \<Longrightarrow> add_pair (k @ ''='' @ v) m = fmupd k v m"
proof -
  assume p: "plain_label k v"
  then have "\<not> is_space (last (k @ ''='' @ v))" by (auto simp: plain_label_def is_space_def)
  with p have "TrimSpace (k @ ''='' @ v) = k @ ''='' @ v"
    by (intro TrimSpace_id) (auto simp: plain_label_def)
  moreover have "Cut (k @ ''='' @ v) ''='' = Some (k, v)"
    using p by (intro Cut_first) (simp_all add: plain_label_def)
  ultimately show ?thesis using p by (simp add: add_pair_def plain_label_def)
qed

definition label_text :: "(string, string) fmap \<Rightarrow> string \<Rightarrow> string" where
  "label_text m k = k @ ''='' @ map_get (Some m) k"

lemma fold_add_pair:
  assumes "\<And>k. k \<in> set ks \<Longrightarrow> \<exists>v. fmlookup m k = Some v \<and> plain_label k v"
  shows "fmlookup (fold add_pair (map (label_text m) ks) m0) k = (if k \<in> set ks then fmlookup m k else fmlookup m0 k)"
  using assms
proof (induction ks arbitrary: m0)
  case (Cons x ks)
  obtain v where v: "fmlookup m x = Some v" "plain_label x v" using Cons.prems by auto
  then have "add_pair (label_text m x) m0 = fmupd x v m0"
    by (simp add: label_text_def map_get_def entries_def add_pair_plain [simplified])
  then show ?case using Cons v by auto
qed simp

lemma read_labels:
  assumes "m \<noteq> fmempty" "\<And>k v. fmlookup m k = Some v \<Longrightarrow> plain_label k v"
  shows "fold add_pair (split_on (CHR '','') (formatMap (Some m))) fmempty = m"
    and "TrimSpace (formatMap (Some m)) \<noteq> []" "formatMap (Some m) \<noteq> []"
proof -
  let ?ks = "sorted_list_of_fset (fmdom m)"
  have ks: "\<exists>v. fmlookup m k = Some v \<and> plain_label k v" if "k \<in> set ?ks" for k
    using that assms(2) by (auto simp: fmlookup_dom_iff)
  have joined: "formatMap (Some m) = Strings_Join (map (label_text m) ?ks) '',''"
    using assms(1) by (simp add: formatMap_def label_text_def [abs_def] entries_def)
  have ne: "?ks \<noteq> []"
  proof
    assume "?ks = []"
    then have "set ?ks = {}" by simp
    then have "fmlookup m k = None" for k by (intro fmdom_notD) simp
    then show False using assms(1) by (metis fmap_ext fmempty_lookup)
  qed
  then obtain k0 rest where k0: "?ks = k0 # rest" by (cases ?ks) auto
  have "CHR '','' \<notin> set x" if "x \<in> set (map (label_text m) ?ks)" for x
  proof -
    obtain k where k: "k \<in> set ?ks" "x = label_text m k" using \<open>x \<in> set (map (label_text m) ?ks)\<close> by auto
    obtain v where "fmlookup m k = Some v" "plain_label k v" using ks [OF k(1)] by blast
    then show ?thesis by (simp add: k(2) label_text_def map_get_def entries_def plain_label_def)
  qed
  then have split: "split_on (CHR '','') (formatMap (Some m)) = map (label_text m) ?ks"
    unfolding joined by (intro split_on_Join) (use ne in auto)
  show "fold add_pair (split_on (CHR '','') (formatMap (Some m))) fmempty = m"
  proof (rule fmap_ext)
    fix k
    have "fmlookup (fold add_pair (map (label_text m) ?ks) fmempty) k = (if k \<in> set ?ks then fmlookup m k else fmlookup fmempty k)"
      by (rule fold_add_pair) (rule ks)
    then show "fmlookup (fold add_pair (split_on (CHR '','') (formatMap (Some m))) fmempty) k = fmlookup m k"
      unfolding split by (cases "k |\<in>| fmdom m") (simp_all add: fmdom_notD)
  qed
  have "label_text m k0 \<noteq> []" "\<not> is_space (hd (label_text m k0))"
    using ks [of k0] k0 by (auto simp: label_text_def plain_label_def)
  then have "formatMap (Some m) \<noteq> []" "\<not> is_space (hd (formatMap (Some m)))"
    using hd_Join [of "label_text m k0" "map (label_text m) rest" "'',''"] by (simp_all add: joined k0)
  then show "TrimSpace (formatMap (Some m)) \<noteq> []" "formatMap (Some m) \<noteq> []"
    by (cases "formatMap (Some m)"; simp add: TrimSpace_Nil)+
qed

text \<open>
  C38: A label means the same wherever it is typed: whatever the text, the agent's \<open>-labels\<close> and
  k8ctl's \<open>-labels\<close> are read as the same map; and what \<open>k8ctl get nodes\<close> prints as a node's labels,
  when they have no comma, no \<open>=\<close> in a key and no blanks at their ends, is read back by both as
  those very labels.
\<close>

theorem labels_read_alike:
  "entries (agent_parseMap input) = entries (parseMap input) \<and>
    (m \<noteq> fmempty \<and> (\<forall>k v. fmlookup m k = Some v \<longrightarrow> plain_label k v) \<longrightarrow>
      parseMap (formatMap (Some m)) = Some m \<and> agent_parseMap (formatMap (Some m)) = Some m)"
proof
  show "entries (agent_parseMap input) = entries (parseMap input)"
  proof (cases "TrimSpace input = []")
    case True
    then have "CHR '','' \<notin> set input" by (auto simp: TrimSpace_Nil list_all_iff is_space_def)
    then have "split_on (CHR '','') input = [input]" by (rule split_on_last)
    then show ?thesis using True by (simp add: agent_parseMap_def parseMap_def add_pair_def entries_def)
  next
    case False
    moreover have "TrimSpace [] = []" by code_simp
    ultimately show ?thesis by (auto simp: agent_parseMap_def parseMap_def)
  qed
  show "m \<noteq> fmempty \<and> (\<forall>k v. fmlookup m k = Some v \<longrightarrow> plain_label k v) \<longrightarrow>
      parseMap (formatMap (Some m)) = Some m \<and> agent_parseMap (formatMap (Some m)) = Some m"
    using read_labels [of m] by (auto simp: parseMap_def agent_parseMap_def)
qed

section \<open>Numbers and words\<close>

lemma show_nat_digits: "list_all is_digit (show_nat n)" "show_nat n \<noteq> []"
  using show_nat_pad [of n] by (metis all_digits_pad, metis length_pad list.size(3) nat.distinct(1))

lemma show_nat_zero: "0 < n \<Longrightarrow> hd (show_nat n) \<noteq> CHR ''0''"
proof (induction n rule: show_nat.induct)
  case (1 n)
  show ?case
  proof (cases "n < 10")
    case True
    then have "hd (show_nat n) = char_of (48 + n)" by (simp add: show_nat.simps [of n])
    moreover have "(of_char (char_of (48 + n)) :: nat) = 48 + n" using True by simp
    moreover have "(of_char (CHR ''0'') :: nat) = 48" by simp
    ultimately show ?thesis using 1(2) by (metis add_cancel_right_right neq0_conv)
  next
    case False
    then show ?thesis using 1 show_nat_digits(2) [of "n div 10"] by (simp add: show_nat.simps [of n])
  qed
qed

lemma digit_value_digit: "is_digit c \<Longrightarrow> digit_value c = Some (digit_val c) \<and> digit_val c < 10 \<and> c \<noteq> CHR ''_''"
  by (auto simp: digit_value_def digit_val_def is_digit_def Let_def)

lemma accum_digits: "list_all is_digit s \<Longrightarrow> accum 10 n s = Some (foldl (\<lambda>n c. n * 10 + digit_val c) n s)"
  by (induction s arbitrary: n) (simp_all add: digit_value_digit not_le)

lemma ParseUint_show_nat: "ParseUint (show_nat n) = Some n"
proof (cases "n = 0")
  case True
  then show ?thesis by (simp only:) code_simp
next
  case False
  have "accum 10 0 (show_nat n) = Some n"
    using accum_digits [OF show_nat_digits(1)] num_show_nat [of n] by (simp add: num_def digits_val_def split: if_splits)
  moreover obtain c cs where "show_nat n = c # cs" using show_nat_digits(2) by (meson list.exhaust)
  ultimately show ?thesis using show_nat_zero [of n] False by (simp add: ParseUint_def)
qed

lemma parse_signed_show:
  assumes "\<And>n. digits (show_nat n) = Some n"
  shows "parse_signed digits (show_goint w) = Some w"
proof (cases "sint w < 0")
  case True
  have "- (2 ^ 63) \<le> sint w" using sint_ge [of w] by simp
  with True show ?thesis by (simp add: parse_signed_def show_goint_def show_int_def assms)
next
  case False
  have "sint w < 2 ^ 63" using sint_lt [of w] by simp
  moreover obtain c cs where c: "show_nat (nat (sint w)) = c # cs" using show_nat_digits(2) by (meson list.exhaust)
  moreover have "c \<noteq> CHR ''-''" "c \<noteq> CHR ''+''"
    using show_nat_digits(1) [of "nat (sint w)"] by (auto simp: c is_digit_def)
  ultimately show ?thesis using False assms [of "nat (sint w)"] by (simp add: parse_signed_def show_goint_def show_int_def)
qed

lemma show_goint_chars: "c \<in> set (show_goint w) \<Longrightarrow> is_digit c \<or> c = CHR ''-''" "show_goint w \<noteq> []"
  using show_nat_digits(1) by (auto simp: show_goint_def show_int_def list_all_iff show_nat_digits(2) split: if_splits)

lemma show_goint_others: "CHR '','' \<notin> set (show_goint w)" "CHR ''_'' \<notin> set (show_goint w)"
  using show_goint_chars(1) [of "CHR '',''" w] show_goint_chars(1) [of "CHR ''_''" w] by (auto simp: is_digit_def Let_def)

lemma show_goint_no_space: "c \<in> set (show_goint w) \<Longrightarrow> \<not> is_space c"
  using show_goint_chars(1) [of c w] by (auto simp: is_digit_def is_space_def Let_def)

lemma ParseInt_show [simp]: "ParseInt (show_goint w) = Some w"
  by (simp add: ParseInt_def show_goint_others parse_signed_show ParseUint_show_nat)

lemma Atoi_show [simp]: "Atoi (TrimSpace (show_goint w)) = Some w"
proof -
  have "TrimSpace (show_goint w) = show_goint w"
    by (rule TrimSpace_id [OF show_goint_chars(2) show_goint_no_space [OF hd_in_set [OF show_goint_chars(2)]]
        show_goint_no_space [OF last_in_set [OF show_goint_chars(2)]]])
  then show ?thesis by (simp add: Atoi_def parse_signed_show)
qed

definition port_ok :: "goint \<Rightarrow> bool" where
  "port_ok p \<longleftrightarrow> \<not> p <s 1 \<and> \<not> 65535 <s p"

lemma port_loop_show: "list_all port_ok ps \<Longrightarrow> port_loop (map show_goint ps) = Some ps"
  by (induction ps) (simp_all add: port_ok_def)

lemma parsePorts_show:
  assumes "ps \<noteq> []" "list_all port_ok ps"
  shows "parsePorts (Strings_Join (map show_goint ps) '','') = Some (Some ps)"
proof -
  obtain p qs where p: "ps = p # qs" using assms(1) by (cases ps) auto
  have "split_on (CHR '','') (Strings_Join (map show_goint ps) '','') = map show_goint ps"
    using assms(1) by (intro split_on_Join) (auto simp: show_goint_others)
  moreover have "\<not> is_space (hd (show_goint p))" using show_goint_no_space show_goint_chars(2) hd_in_set by blast
  then have "TrimSpace (Strings_Join (map show_goint ps) '','') \<noteq> []"
    using hd_Join [OF show_goint_chars(2), of p "map show_goint qs" "'',''"]
    by (cases "Strings_Join (map show_goint ps) '',''") (simp_all add: p TrimSpace_Nil)
  ultimately show ?thesis using assms(2) by (simp add: parsePorts_def port_loop_show)
qed

definition plain_word :: "string \<Rightarrow> bool" where
  "plain_word w \<longleftrightarrow> w \<noteq> [] \<and> list_all (\<lambda>c. \<not> is_space c) w"

lemma Fields_word: "list_all (\<lambda>c. \<not> is_space c) w \<Longrightarrow> Fields_from cur (w @ rest) = Fields_from (rev w @ cur) rest"
  by (induction w arbitrary: cur) simp_all

lemma Fields_Join: "list_all plain_word ws \<Longrightarrow> Fields_from [] (Strings_Join ws '' '') = ws"
proof (induction ws "'' ''" rule: Strings_Join.induct)
  case (2 s)
  then show ?case using Fields_word [of s "[]" "[]"] by (simp add: plain_word_def)
next
  case (3 s x xs)
  then show ?case using Fields_word [of s "[]"] by (simp add: plain_word_def is_space_def)
qed simp

lemma splitCommand_Join: "ws \<noteq> [] \<Longrightarrow> list_all plain_word ws \<Longrightarrow> splitCommand (Strings_Join ws '' '') = Some ws"
proof -
  assume ws: "ws \<noteq> []" "list_all plain_word ws"
  then obtain w vs where w: "ws = w # vs" "w \<noteq> []" "\<not> is_space (hd w)"
    by (cases ws) (auto simp: plain_word_def list_all_iff)
  then have "TrimSpace (Strings_Join ws '' '') \<noteq> []"
    using hd_Join [of w vs "'' ''"] by (cases "Strings_Join ws '' ''") (simp_all add: TrimSpace_Nil)
  then show ?thesis using ws by (simp add: splitCommand_def Fields_Join)
qed

section \<open>A service as a line of flags\<close>

text \<open>
  The flags that describe a service, and the services that can be described: no volumes, no status
  of their own, lists and maps that are absent or not empty.
\<close>

definition map_text :: "strmap \<Rightarrow> string" where
  "map_text m = (case m of None \<Rightarrow> [] | Some _ \<Rightarrow> formatMap m)"

definition service_line :: "string \<Rightarrow> service \<Rightarrow> string list" where
  "service_line config v = [''-config'', config, ''-name'', service_name v, ''-image'', service_image v,
     ''-command'', Strings_Join (elems (service_command v)) '' '', ''-replicas'', show_goint (service_replicas v),
     ''-cpu'', show_goint (res_CPU (service_resources v)), ''-memory'', show_goint (res_Memory (service_resources v)),
     ''-env'', map_text (service_env v), ''-labels'', map_text (required_labels (service_placement v)),
     ''-ports'', Strings_Join (map show_goint (elems (service_ports v))) '','']"

definition slice_ok :: "('a \<Rightarrow> bool) \<Rightarrow> 'a slice \<Rightarrow> bool" where
  "slice_ok P xs = (case xs of None \<Rightarrow> True | Some ys \<Rightarrow> ys \<noteq> [] \<and> list_all P ys)"

definition map_ok :: "strmap \<Rightarrow> bool" where
  "map_ok m = (case m of None \<Rightarrow> True | Some f \<Rightarrow> f \<noteq> fmempty \<and> fmpred plain_label f)"

definition describable :: "service \<Rightarrow> bool" where
  "describable v \<longleftrightarrow> service_name v \<noteq> [] \<and> service_image v \<noteq> [] \<and> slice_ok plain_word (service_command v) \<and>
     map_ok (service_env v) \<and> map_ok (required_labels (service_placement v)) \<and> slice_ok port_ok (service_ports v) \<and>
     service_volumes v = None \<and> service_st v = service_st zero_service"

lemma TrimSpace_empty [simp]: "TrimSpace [] = []"
  by (simp add: TrimSpace_def)

lemma parseMap_text: "map_ok m \<Longrightarrow> parseMap (map_text m) = m"
  using read_labels [of "the m"] by (auto simp: map_ok_def map_text_def parseMap_def fmpred_iff split: option.splits)

lemma splitCommand_text: "slice_ok plain_word ws \<Longrightarrow> splitCommand (Strings_Join (elems ws) '' '') = ws"
  using splitCommand_Join [of "the ws"] by (auto simp: slice_ok_def elems_def splitCommand_def split: option.splits)

lemma parsePorts_text: "slice_ok port_ok ps \<Longrightarrow> parsePorts (Strings_Join (map show_goint (elems ps)) '','') = Some ps"
  using parsePorts_show [of "the ps"] by (auto simp: slice_ok_def elems_def parsePorts_def split: option.splits)

text \<open>One flag with its value in the next argument.\<close>

definition flag_word :: "string \<Rightarrow> bool" where
  "flag_word n \<longleftrightarrow> n \<noteq> [] \<and> hd n \<noteq> CHR ''-'' \<and> CHR ''='' \<notin> set n"

lemma Cut_none: "c \<notin> set s \<Longrightarrow> Cut s [c] = None"
  by (induction s) (auto simp: HasPrefix_def)

lemma flag_Parse_next:
  assumes "flag_word n" "fs n = Some f" "\<not> is_bool f" "flag_Set f x = Some f'"
  shows "flag_Parse fs ((CHR ''-'' # n) # x # rest) = flag_Parse (fs(n \<mapsto> f')) rest"
proof -
  obtain c cs where n: "n = c # cs" "c \<noteq> CHR ''-''" "c \<noteq> CHR ''=''" "CHR ''='' \<notin> set cs"
    using assms(1) by (cases n) (auto simp: flag_word_def)
  have "split_flag n = (n, None)" using n Cut_none by (simp add: split_flag_def)
  moreover have "flag_name (CHR ''-'' # n) = n" using n by (simp add: flag_name_def)
  ultimately show ?thesis using n assms(2-4) by (simp add: flag_Parse.simps(2))
qed

lemma flag_words: "flag_word ''config''" "flag_word ''name''" "flag_word ''image''" "flag_word ''command''" "flag_word ''replicas''"
  "flag_word ''cpu''" "flag_word ''memory''" "flag_word ''env''" "flag_word ''labels''" "flag_word ''ports''"
  by (simp_all add: flag_word_def)

lemmas flag_steps = flag_words [THEN flag_Parse_next]

lemma service_line_parsed:
  assumes "describable v"
  shows "\<exists>fs. flag_Parse (service_flags e) (service_line config v) = Inr (fs, []) \<and> flag_str fs ''config'' = config \<and>
    parsePorts (flag_str fs ''ports'') = Some (service_ports v) \<and> service_of_flags fs (service_ports v) = v"
proof -
  have v: "map_ok (service_env v)" "map_ok (required_labels (service_placement v))" "slice_ok plain_word (service_command v)"
      "slice_ok port_ok (service_ports v)" "service_volumes v = None" "service_st v = service_st zero_service"
    using assms by (simp_all add: describable_def)
  show ?thesis
    by (simp add: service_line_def service_flags_def configFlag_def flag_steps flag_str_def flag_int_def service_of_flags_def
        parseMap_text [OF v(1)] parseMap_text [OF v(2)] splitCommand_text [OF v(3)] parsePorts_text [OF v(4)] v(5,6) zero_service_def)
qed

section \<open>Commands that reach the controller\<close>

text \<open>The configuration at a path is the admin's, for the controller with the CA of \<open>au\<close>.\<close>

definition admin_ready :: "('c, 'k, 'p, 'r) tls_lib \<Rightarrow> ('c, 'k) auth \<Rightarrow> string \<Rightarrow> fs \<Rightarrow> bool" where
  "admin_ready T au config d = (case LoadAdminConfig T config d of
     Inl _ \<Rightarrow> False
   | Inr (c, tls) \<Rightarrow> cl_cn c = AdminCN \<and> tc_roots tls = ca_PEM (auth_CA au) \<and>
       HasPrefix (cl_base c) ''https://'' \<and> plain_host (drop 8 (cl_base c)))"

lemma client_transport_controller:
  assumes "plain_host host" "tc_roots tls = ca_PEM (auth_CA au)" "cl_base c = https_at host"
  shows "client_transport (controller_net T sn now au) c tls = serving (tl_lib T) sn now au"
  using assms(2,3) plain_host_url(3) [OF assms(1), of "[]"] by (simp add: client_transport_def controller_net_def fun_eq_iff)

lemma connect_ready:
  assumes "admin_ready T au config d"
  obtains c where "connect T (controller_net T sn now au) config d = Some (serving (tl_lib T) sn now au, c)"
    "cl_cn c = AdminCN" "plain_base (cl_base c)"
proof -
  obtain c tls where l: "LoadAdminConfig T config d = Inr (c, tls)" "cl_cn c = AdminCN" "tc_roots tls = ca_PEM (auth_CA au)"
      "HasPrefix (cl_base c) ''https://''" "plain_host (drop 8 (cl_base c))"
    using assms by (auto simp: admin_ready_def split: sum.splits)
  then obtain host where h: "cl_base c = https_at host" "plain_host host"
    by (auto simp: HasPrefix_iff url_at_def)
  then have "client_transport (controller_net T sn now au) c tls = serving (tl_lib T) sn now au"
    by (intro client_transport_controller [OF h(2) l(3) h(1)])
  then show thesis
    using l(1,2) h plain_host_url(2) by (intro that [of c]) (simp_all add: connect_def)
qed

lemma service_line_served:
  assumes "admin_ready T au config d" "describable v"
  shows "k8ctl_main T (controller_net T sn now au) e d (''service'' # ''create'' # service_line config v) s =
    (UpsertService (posted_service v) s, applied ''service'' (service_name v) ''applied'', 0)"
proof -
  obtain c where c: "connect T (controller_net T sn now au) config d = Some (serving (tl_lib T) sn now au, c)"
      "cl_cn c = AdminCN" "plain_base (cl_base c)"
    using connect_ready [OF assms(1)] .
  obtain fs where fs: "flag_Parse (service_flags e) (service_line config v) = Inr (fs, [])" "flag_str fs ''config'' = config"
      "parsePorts (flag_str fs ''ports'') = Some (service_ports v)" "service_of_flags fs (service_ports v) = v"
    using service_line_parsed [OF assms(2)] by blast
  have "ApplyService (serving (tl_lib T) sn now au) c v s = (UpsertService (posted_service v) s, Inr ())"
    using assms(2) c by (intro ApplyService_served) (simp_all add: describable_def)
  then show ?thesis
    by (simp add: k8ctl_main_def run_verb_def runServiceCreate_def parse_or_exit_def fs c(1) call_or_exit_def)
qed

text \<open>After \<open>--\<close> any name is an argument.\<close>

lemma service_delete_served:
  assumes "admin_ready T au config d" "plain_name nm"
  shows "k8ctl_main T (controller_net T sn now au) e d [''service'', ''delete'', ''-config'', config, ''--'', nm] s =
    (if snd (DeleteService nm s) then (fst (DeleteService nm s), applied ''service'' nm ''deleted'', 0)
     else (fst (DeleteService nm s), [], 1))"
proof -
  obtain c where c: "connect T (controller_net T sn now au) config d = Some (serving (tl_lib T) sn now au, c)"
      "cl_cn c = AdminCN" "plain_base (cl_base c)"
    using connect_ready [OF assms(1)] .
  have "flag_Parse (configFlag e) [''-config'', config, ''--'', nm] = Inr ([''config'' \<mapsto> StringFlag config], [nm])"
    by (simp add: configFlag_def flag_steps) (simp add: flag_Parse.simps(2))
  then show ?thesis
    using Client_DeleteService_served [where L = "tl_lib T", OF c(3,2) assms(2)]
    by (simp add: k8ctl_main_def run_verb_def runServiceDelete_def run_delete_def parse_or_exit_def flag_str_def c(1) call_or_exit_def)
qed

section \<open>The status column\<close>

lemma scan_job_unsuccessful:
  "scan_job live as w = Inr w' \<Longrightarrow> job_succeeded (scan_status w') = job_succeeded (scan_status w)"
proof (induction as arbitrary: w)
  case (Cons a as)
  have "job_succeeded (scan_status (note_terminal a w)) = job_succeeded (scan_status w)"
    by (simp add: note_terminal_def Let_def)
  with Cons show ?case by (auto split: if_splits)
qed simp

lemma job_shown_after:
  assumes "reconcileJob mem_iface c now j ent s = Inr (s', ent')" "fmlookup (m_jobs s) (job_name j) = Some j0"
    and "job_retries j0 = job_retries j"
  shows "\<exists>j'. fmlookup (m_jobs s') (job_name j) = Some j' \<and> job_retries j' = job_retries j \<and> job_name j' = job_name j0 \<and>
    (let as = ListAssignmentsForOwner KindJob (job_name j) s; done = (\<exists>a \<in> set as. asg_phase a = Succeeded) in
      (job_shown j' = ''succeeded'' \<longleftrightarrow> done) \<and>
      ((\<forall>a \<in> set as. \<not> (active a \<and> asg_node a \<in> live_ids c now s)) \<longrightarrow>
        (job_shown j' = ''failed'' \<longleftrightarrow> \<not> done \<and> job_retries j <s of_nat (failures as))))"
proof -
  let ?as = "ListAssignmentsForOwner KindJob (job_name j) s"
  have shown: "\<exists>j'. fmlookup (m_jobs (fst (UpdateJobStatus (job_name j) st s1))) (job_name j) = Some j' \<and>
      job_st j' = st \<and> job_retries j' = job_retries j \<and> job_name j' = job_name j0" if "m_jobs s1 = m_jobs s" for st s1
    using that assms(2,3) by (simp add: UpdateJobStatus_def)
  show ?thesis
  proof (cases "\<exists>a \<in> set ?as. asg_phase a = Succeeded")
    case True
    then obtain st where "scan_job (live_ids c now s) ?as scan_start = Inl st" "job_succeeded st"
      using scan_job_Inl [OF True] by blast
    then have "s' = fst (UpdateJobStatus (job_name j) st s)" using assms(1) by (simp add: reconcileJob_def Let_def live_ids_def)
    then show ?thesis using shown [of s st] True \<open>job_succeeded st\<close> by (auto simp: job_shown_def Let_def)
  next
    case False
    then have no: "\<forall>a \<in> set ?as. asg_phase a \<noteq> Succeeded" by blast
    note scan = scan_job_Inr [OF no, of "live_ids c now s" scan_start, unfolded scan_start_fields add_0 simp_thms]
    then obtain w where w: "scan_job (live_ids c now s) ?as scan_start = Inr w"
        "failed_attempts (scan_status w) = of_nat (failures ?as)"
        "scan_active w = None \<longleftrightarrow> (\<forall>a \<in> set ?as. \<not> (active a \<and> asg_node a \<in> live_ids c now s))"
      by (elim exE conjE) (rule that)
    have "\<not> job_succeeded (scan_status w)"
      using scan_job_unsuccessful [OF w(1)] by (simp add: scan_start_def zero_job_status_def)
    then have "\<exists>st s1. s' = fst (UpdateJobStatus (job_name j) st s1) \<and> m_jobs s1 = m_jobs s \<and> \<not> job_succeeded st \<and>
        (scan_active w = None \<longrightarrow> failed_attempts st = failed_attempts (scan_status w))"
      using assms(1) w(1)
      by (fastforce simp: reconcileJob_def Let_def live_ids_def and_then_Inr SaveAssignment_def
          split: option.splits if_splits sum.splits)
    then obtain st s1 where st: "s' = fst (UpdateJobStatus (job_name j) st s1)" "m_jobs s1 = m_jobs s" "\<not> job_succeeded st"
        "scan_active w = None \<longrightarrow> failed_attempts st = of_nat (failures ?as)"
      using w(2) by auto
    then show ?thesis using shown [OF st(2), of st] False w(3) by (auto simp: job_shown_def Let_def)
  qed
qed

lemma reconcileJob_not_due:
  assumes "reconcileJob mem_iface c now j ent s = Inr (s', ent')" "\<not> job_due c now j s"
  shows "m_assignments s' = m_assignments s"
  using reconcileJob_starts_when_due [OF assms(1)] assms(2) by simp

text \<open>
  C39: What the status column of \<open>k8ctl get jobs\<close> says after a run of \<open>reconcileJob\<close> on a stored job.
  It is \<open>succeeded\<close> exactly when an attempt has succeeded. When no attempt is active on a live node,
  \<open>failed\<close> and \<open>succeeded\<close> mean that the run has started no attempt and no later run on these
  assignments will, at any time and whatever the nodes do, and \<open>running\<close> that the run has
  started one if any node was eligible; it is \<open>failed\<close> exactly when more attempts have failed
  than \<open>Retries\<close> and none has succeeded. A run that starts an attempt always leaves \<open>running\<close>.
\<close>

theorem status_column:
  assumes "reconcileJob mem_iface c now j ent s = Inr (s', ent')" "fmlookup (m_jobs s) (job_name j) = Some j0"
    and "job_retries j0 = job_retries j" "wf_store s"
  shows "\<exists>j'. fmlookup (m_jobs s') (job_name j) = Some j' \<and>
    (let as = ListAssignmentsForOwner KindJob (job_name j) s; done = (\<exists>a \<in> set as. asg_phase a = Succeeded) in
      (job_shown j' = ''succeeded'' \<longleftrightarrow> done) \<and>
      (m_assignments s' \<noteq> m_assignments s \<longrightarrow> job_shown j' = ''running'') \<and>
      ((\<forall>a \<in> set as. \<not> (active a \<and> asg_node a \<in> live_ids c now s)) \<longrightarrow>
        (job_shown j' = ''failed'' \<longleftrightarrow> \<not> done \<and> job_retries j <s of_nat (failures as)) \<and>
        (job_shown j' = ''running'' \<and> job_placeable c now j s \<longrightarrow> m_assignments s' \<noteq> m_assignments s) \<and>
        (job_shown j' \<noteq> ''running'' \<longrightarrow> m_assignments s' = m_assignments s \<and>
          (\<forall>c2 now2 ent2 s2 ent3. reconcileJob mem_iface c2 now2 j' ent2 s' = Inr (s2, ent3) \<longrightarrow>
            m_assignments s2 = m_assignments s'))))"
proof -
  let ?as = "ListAssignmentsForOwner KindJob (job_name j) s"
  let ?done = "\<exists>a \<in> set ?as. asg_phase a = Succeeded" and ?idle = "\<forall>a \<in> set ?as. \<not> (active a \<and> asg_node a \<in> live_ids c now s)"
  obtain j' where j': "fmlookup (m_jobs s') (job_name j) = Some j'" "job_retries j' = job_retries j" "job_name j' = job_name j0"
      "job_shown j' = ''succeeded'' \<longleftrightarrow> ?done"
      "?idle \<Longrightarrow> job_shown j' = ''failed'' \<longleftrightarrow> \<not> ?done \<and> job_retries j <s of_nat (failures ?as)"
    using job_shown_after [OF assms(1-3)] by (auto simp: Let_def)
  have cases: "job_shown j' \<in> {''succeeded'', ''failed'', ''running''}" by (simp add: job_shown_def)
  have due: "job_due c now j s \<longleftrightarrow> ?idle \<and> job_shown j' = ''running''" if ?idle
    using that j'(4) j'(5) [OF that] cases by (auto simp: job_due_def Let_def)
  have busy: "\<not> job_due c now j s" if "\<not> ?idle" using that by (auto simp: job_due_def Let_def)
  note starts = reconcileJob_starts_when_due [OF assms(1)]
  have kept: "m_assignments s' = m_assignments s" if "job_shown j' \<noteq> ''running''"
    using reconcileJob_not_due [OF assms(1)] due busy that by blast
  have started: "m_assignments s' \<noteq> m_assignments s" if i: ?idle and "job_shown j' = ''running''" "job_placeable c now j s"
  proof
    assume "m_assignments s' = m_assignments s"
    moreover have "job_due c now j s \<and> job_placeable c now j s" using due [OF i] that by blast
    ultimately obtain k x where "fmlookup (m_assignments s) k = None" "m_assignments s = fmupd k x (m_assignments s)"
      using starts by (simp only: if_True) metis
    then show False by (metis fmupd_lookup option.distinct(1))
  qed
  have later: "m_assignments s2 = m_assignments s'"
    if i: ?idle and n: "job_shown j' \<noteq> ''running''" and run: "reconcileJob mem_iface c2 now2 j' ent2 s' = Inr (s2, ent3)"
    for c2 now2 ent2 s2 ent3
  proof -
    have "job_name j' = job_name j" using wf_job [OF assms(4,2)] j'(3) by simp
    moreover have "ListAssignmentsForOwner KindJob (job_name j) s' = ?as"
      using kept [OF n] by (simp add: ListAssignmentsForOwner_def ListAssignments_def)
    ultimately have "\<not> job_due c2 now2 j' s'"
      using n cases j'(2,4) j'(5) [OF i] by (auto simp: job_due_def Let_def)
    then show ?thesis by (rule reconcileJob_not_due [OF run])
  qed
  show ?thesis
    using j'(1,4,5) kept started later unfolding Let_def by blast
qed

end
