(* ===== verification/K8ctl_Served.thy ===== *)
theory K8ctl_Served
  imports K8ctl_Lines
begin

text \<open>
  \<open>k8ctl\<close> against the controller's API: jobs written as flags, and what \<open>k8ctl get\<close> and \<open>k8ctl state\<close>
  print of the store.
\<close>

section \<open>Jobs as lines of flags\<close>

definition job_line :: "string \<Rightarrow> job \<Rightarrow> string list" where
  "job_line config j = [''-config'', config, ''-name'', job_name j, ''-image'', job_image j,
     ''-command'', Strings_Join (elems (job_command j)) '' '', ''-retries'', show_goint (job_retries j),
     ''-cpu'', show_goint (res_CPU (job_resources j)), ''-memory'', show_goint (res_Memory (job_resources j)),
     ''-env'', map_text (job_env j), ''-labels'', map_text (required_labels (job_placement j))]"

definition job_describable :: "job \<Rightarrow> bool" where
  "job_describable j \<longleftrightarrow> job_name j \<noteq> [] \<and> job_image j \<noteq> [] \<and> slice_ok plain_word (job_command j) \<and>
     map_ok (job_env j) \<and> map_ok (required_labels (job_placement j)) \<and>
     job_volumes j = None \<and> job_st j = job_st zero_job"

lemma flag_word_retries: "flag_word ''retries''"
  by (simp add: flag_word_def)

lemma job_line_parsed:
  assumes "job_describable j"
  shows "\<exists>fs. flag_Parse (job_flags e) (job_line config j) = Inr (fs, []) \<and> flag_str fs ''config'' = config \<and> job_of_flags fs = j"
proof -
  have j: "map_ok (job_env j)" "map_ok (required_labels (job_placement j))" "slice_ok plain_word (job_command j)"
      "job_volumes j = None" "job_st j = job_st zero_job"
    using assms by (simp_all add: job_describable_def)
  show ?thesis
    by (simp add: job_line_def job_flags_def configFlag_def flag_steps flag_word_retries [THEN flag_Parse_next] flag_str_def
        flag_int_def job_of_flags_def parseMap_text [OF j(1)] parseMap_text [OF j(2)] splitCommand_text [OF j(3)] j(4,5) zero_job_def)
qed

lemma job_line_served:
  assumes "admin_ready T au config d" "job_describable j"
  shows "k8ctl_main T (controller_net T sn now au) e d (''job'' # ''create'' # job_line config j) s =
    (UpsertJob j s, applied ''job'' (job_name j) ''applied'', 0)"
proof -
  obtain c where c: "connect T (controller_net T sn now au) config d = Some (serving (tl_lib T) sn now au, c)"
      "cl_cn c = AdminCN" "plain_base (cl_base c)"
    using connect_ready [OF assms(1)] .
  obtain fs where fs: "flag_Parse (job_flags e) (job_line config j) = Inr (fs, [])" "flag_str fs ''config'' = config" "job_of_flags fs = j"
    using job_line_parsed [OF assms(2)] by blast
  have "job_encodable j" using assms(2) by (simp add: job_describable_def job_encodable_def zero_job_def zero_job_status_def)
  then have "ApplyJob (serving (tl_lib T) sn now au) c j s = (UpsertJob j s, Inr ())"
    using assms(2) c by (intro ApplyJob_served) (simp_all add: job_describable_def)
  then show ?thesis
    by (simp add: k8ctl_main_def run_verb_def runJobCreate_def parse_or_exit_def fs c(1) call_or_exit_def)
qed

section \<open>Reading the state\<close>

text \<open>The times in a store that JSON can carry.\<close>

definition sendable :: "mem_store \<Rightarrow> bool" where
  "sendable s \<longleftrightarrow> (\<forall>n \<in> set (ListNodes s). rfc3339_ok (last_heartbeat n)) \<and> (\<forall>j \<in> set (ListJobs s). job_encodable j) \<and>
     (\<forall>a \<in> set (ListAssignments s). assignment_encodable a)"

lemma at_list_map:
  assumes "sel r = []" "\<And>x. x \<in> set xs \<Longrightarrow> d (f x) z = Some x"
  shows "at_list sel upd d z (JArr (map f xs)) r = Some (upd (\<lambda>_. xs) r)"
  using assms(1) dec_elems_map [of xs d f z, OF assms(2)] by (simp add: at_list_def dec_slice_def)

lemma dec_enc_snapshot:
  assumes "\<And>n. n \<in> set (snap_nodes st) \<Longrightarrow> dec_node strict (enc_node n) zero_node = Some n"
    and "\<And>v. v \<in> set (snap_services st) \<Longrightarrow> dec_service strict (enc_service v) zero_service = Some v"
    and "\<And>j. j \<in> set (snap_jobs st) \<Longrightarrow> dec_job strict (enc_job j) zero_job = Some j"
    and "\<And>a. a \<in> set (snap_assignments st) \<Longrightarrow> dec_assignment strict (enc_assignment a) zero_assignment = Some a"
  shows "dec_snapshot strict (enc_snapshot st)
    \<lparr>snap_nodes = [], snap_services = [], snap_jobs = [], snap_assignments = []\<rparr> = Some st"
  using assms by (cases st) (simp add: dec_snapshot_def enc_snapshot_def dec_struct_def at_list_map find_field_def)

lemma dec_enc_Snapshot:
  assumes "wf_store s" "sendable s"
  shows "dec_snapshot strict (enc_snapshot (Snapshot s))
    \<lparr>snap_nodes = [], snap_services = [], snap_jobs = [], snap_assignments = []\<rparr> = Some (Snapshot s)"
proof (rule dec_enc_snapshot)
  show "dec_node strict (enc_node n) zero_node = Some n" if "n \<in> set (snap_nodes (Snapshot s))" for n
  proof -
    have n: "n \<in> set (ListNodes s)" using that by (simp add: Snapshot_def)
    then have "Node_Clone n = n" using wf_node [OF assms(1)] mem_ListNodes [OF assms(1)] by blast
    then show ?thesis using n assms(2) dec_enc_node [of n strict] by (simp add: sendable_def)
  qed
  show "dec_service strict (enc_service v) zero_service = Some v" if "v \<in> set (snap_services (Snapshot s))" for v
  proof -
    have "v \<in> set (ListServices s)" using that by (simp add: Snapshot_def)
    then have "Service_Clone v = v" using wf_service [OF assms(1)] mem_ListServices [OF assms(1)] by blast
    then show ?thesis using dec_enc_service [of strict v] by simp
  qed
  show "dec_job strict (enc_job j) zero_job = Some j" if "j \<in> set (snap_jobs (Snapshot s))" for j
  proof -
    have j: "j \<in> set (ListJobs s)" using that by (simp add: Snapshot_def)
    then have "Job_Clone j = j" using wf_job [OF assms(1)] mem_ListJobs [OF assms(1)] by blast
    then show ?thesis using j assms(2) dec_enc_job [of j strict] by (simp add: sendable_def)
  qed
  show "dec_assignment strict (enc_assignment a) zero_assignment = Some a" if "a \<in> set (snap_assignments (Snapshot s))" for a
  proof -
    have a: "a \<in> set (ListAssignments s)" using that by (simp add: Snapshot_def)
    then have "Assignment_Clone a = a" using wf_assignment [OF assms(1)] mem_ListAssignments [OF assms(1)] by blast
    then show ?thesis using a assms(2) dec_enc_assignment [of a strict] by (simp add: sendable_def)
  qed
qed

lemma FetchState_served:
  assumes "plain_base (cl_base c)" "cl_cn c = AdminCN" "wf_store s" "sendable s"
  shows "FetchState (serving L sn now au) c s = (s, Inr (Snapshot s))"
proof -
  let ?resp = "writeJSON 200 (enc_snapshot (Snapshot s))"
  have "dispatch mem_iface L sn now au (client_request c ''GET'' ''/state'' None) s = (s, ?resp)"
    using assms(2) by (simp add: dispatch_def adminOnly_def handleState_def HasPrefix_def Let_def)
  with client_do_served [OF assms(1) good_paths(5), of None L sn now au "''GET''" s]
  have "client_do (serving L sn now au) c ''GET'' ''/state'' None s = (s, Inr ?resp)"
    by (simp add: writeJSON_def)
  then show ?thesis
    by (simp add: FetchState_def getJSON_def writeJSON_def dec_enc_Snapshot [OF assms(3,4)])
qed

lemma get_args_resource:
  "resource \<noteq> [] \<Longrightarrow> resource ! 0 \<noteq> CHR ''-'' \<Longrightarrow> get_args (c, j, []) [resource, ''-config'', config] = (config, j, resource)"
  by (cases resource) (auto simp: HasPrefix_def)

lemma state_printed:
  assumes "admin_ready T au config d" "wf_store s" "sendable s"
  shows "k8ctl_main T (controller_net T sn now au) e d [''state'', ''-config'', config] s =
      (s, printState (time_Now e) (Snapshot s), 0)"
    "k8ctl_main T (controller_net T sn now au) e d [''get'', ''nodes'', ''-config'', config] s =
      (s, printNodes (time_Now e) (ListNodes s), 0)"
    "k8ctl_main T (controller_net T sn now au) e d [''get'', ''services'', ''-config'', config] s =
      (s, printServices (ListServices s), 0)"
    "k8ctl_main T (controller_net T sn now au) e d [''get'', ''jobs'', ''-config'', config] s =
      (s, printJobs (ListJobs s), 0)"
    "k8ctl_main T (controller_net T sn now au) e d [''get'', ''assignments'', ''-config'', config] s =
      (s, printAssignments (ListAssignments s), 0)"
proof -
  obtain c where c: "connect T (controller_net T sn now au) config d = Some (serving (tl_lib T) sn now au, c)"
      "cl_cn c = AdminCN" "plain_base (cl_base c)"
    using connect_ready [OF assms(1)] .
  note fetch = FetchState_served [where L = "tl_lib T", OF c(3,2) assms(2,3)]
  note prints = k8ctl_main_def call_or_exit_def c(1) fetch Snapshot_def
  show "k8ctl_main T (controller_net T sn now au) e d [''state'', ''-config'', config] s =
      (s, printState (time_Now e) (Snapshot s), 0)"
    by (simp add: prints runState_def parse_or_exit_def configFlag_def flag_steps flag_str_def flag_bool_def)
  show "k8ctl_main T (controller_net T sn now au) e d [''get'', ''nodes'', ''-config'', config] s =
      (s, printNodes (time_Now e) (ListNodes s), 0)"
    "k8ctl_main T (controller_net T sn now au) e d [''get'', ''services'', ''-config'', config] s =
      (s, printServices (ListServices s), 0)"
    "k8ctl_main T (controller_net T sn now au) e d [''get'', ''jobs'', ''-config'', config] s =
      (s, printJobs (ListJobs s), 0)"
    "k8ctl_main T (controller_net T sn now au) e d [''get'', ''assignments'', ''-config'', config] s =
      (s, printAssignments (ListAssignments s), 0)"
    by (simp_all add: prints runGet_def get_args_resource HasPrefix_def)
qed

section \<open>Deleting a job\<close>

lemma job_delete_served:
  assumes "admin_ready T au config d" "plain_name nm"
  shows "k8ctl_main T (controller_net T sn now au) e d [''job'', ''delete'', ''-config'', config, ''--'', nm] s =
    (if snd (DeleteJob nm s) then (fst (DeleteJob nm s), applied ''job'' nm ''deleted'', 0)
     else (fst (DeleteJob nm s), [], 1))"
proof -
  obtain c where c: "connect T (controller_net T sn now au) config d = Some (serving (tl_lib T) sn now au, c)"
      "cl_cn c = AdminCN" "plain_base (cl_base c)"
    using connect_ready [OF assms(1)] .
  have "flag_Parse (configFlag e) [''-config'', config, ''--'', nm] = Inr ([''config'' \<mapsto> StringFlag config], [nm])"
    by (simp add: configFlag_def flag_steps) (simp add: flag_Parse.simps(2))
  then show ?thesis
    using Client_DeleteJob_served [where L = "tl_lib T", OF c(3,2) assms(2)]
    by (simp add: k8ctl_main_def run_verb_def runJobDelete_def run_delete_def parse_or_exit_def flag_str_def c(1) call_or_exit_def)
qed

end
