(* ===== verification/Administration.thy ===== *)
theory Administration
  imports K8ctl_Served Startup
begin

text \<open>
  The admin at the controller: \<open>k8ctl\<close> with the configuration a start of the controller has written,
  against the controller that runs with it.
\<close>

lemma main_start_admin:
  assumes "main_start T parse_ip open_db vacuum env now fl d = (d1, Inr run)"
  obtains sn key flt d4 where "writeAdminConfig T sn now key flt (fl_data_dir fl @ ''/admin.conf'') (auth_CA (run_auth run))
    (fl_listen fl) d4 = (d1, None)"
  using assms by (auto simp: main_start_def Let_def split: prod.splits sum.splits option.splits if_splits)

lemma SplitHostPort_port: "SplitHostPort s = Some (host, port) \<Longrightarrow> set port \<subseteq> set s"
  by (auto simp: SplitHostPort_def Let_def split: if_splits dest!: set_takeWhileD)

lemma started_admin_ready:
  assumes "tls_laws T" "json_laws T" "main_start T parse_ip open_db vacuum env now fl d = (d1, Inr run)"
    and "tl_pool T (ca_PEM (auth_CA (run_auth run)))" "ascii (ca_PEM (auth_CA (run_auth run)))"
    and "ascii (fl_listen fl)" "list_all plain_char (fl_listen fl)"
  shows "admin_ready T (run_auth run) (fl_data_dir fl @ ''/admin.conf'') d1"
proof -
  let ?ca = "auth_CA (run_auth run)" and ?path = "fl_data_dir fl @ ''/admin.conf''"
  obtain sn key flt d4 where w: "writeAdminConfig T sn now key flt ?path ?ca (fl_listen fl) d4 = (d1, None)"
    using main_start_admin [OF assms(3)] .
  obtain host port tls where l: "SplitHostPort (fl_listen fl) = Some (host, port)"
      "LoadAdminConfig T ?path d1 = Inr (New_Client (loopback_url port) AdminCN, tls)" "tc_roots tls = ca_PEM ?ca"
    using admin_config_works [OF assms(1,2,4,5,6) w refl] by auto
  have "list_all plain_char ''127.0.0.1:''" by code_simp
  then have host: "plain_host (''127.0.0.1:'' @ port)"
    using SplitHostPort_port [OF l(1)] assms(7) by (auto simp: plain_host_def list_all_iff)
  have "loopback_url port = https_at (''127.0.0.1:'' @ port)" by (simp add: loopback_url_def url_at_def)
  then have "cl_base (New_Client (loopback_url port) AdminCN) = https_at (''127.0.0.1:'' @ port)"
    using plain_host_url(1) [OF host] by (simp add: New_Client_def)
  then show ?thesis
    using l(2,3) host by (simp add: admin_ready_def New_Client_def url_at_def HasPrefix_def)
qed

text \<open>
  C35: From the flags to the store: once the controller has started, a service and a job written as
  flags of \<open>k8ctl service create\<close> and \<open>k8ctl job create\<close>, run on the controller's machine with the
  configuration the start has left there, are stored as that very service, its replicas desired,
  and that very job, with every field as written; \<open>k8ctl service delete\<close> and \<open>k8ctl job delete\<close> then
  remove them. Each says so and exits with 0, and the deletion of what is not there with 1.
\<close>

theorem admin_line_served:
  assumes "tls_laws T" "json_laws T" "main_start T parse_ip open_db vacuum env now fl d = (d1, Inr run)"
    and "tl_pool T (ca_PEM (auth_CA (run_auth run)))" "ascii (ca_PEM (auth_CA (run_auth run)))"
    and "ascii (fl_listen fl)" "list_all plain_char (fl_listen fl)"
    and "describable v" "job_describable j" "config = fl_data_dir fl @ ''/admin.conf''"
  shows "k8ctl_main T (controller_net T sn now' (run_auth run)) e d1 (''service'' # ''create'' # service_line config v) s =
      (UpsertService (posted_service v) s, applied ''service'' (service_name v) ''applied'', 0) \<and>
    k8ctl_main T (controller_net T sn now' (run_auth run)) e d1 (''job'' # ''create'' # job_line config j) s =
      (UpsertJob j s, applied ''job'' (job_name j) ''applied'', 0) \<and>
    (plain_name nm \<longrightarrow>
      k8ctl_main T (controller_net T sn now' (run_auth run)) e d1 [''service'', ''delete'', ''-config'', config, ''--'', nm] s =
        (if snd (DeleteService nm s) then (fst (DeleteService nm s), applied ''service'' nm ''deleted'', 0)
         else (fst (DeleteService nm s), [], 1)) \<and>
      k8ctl_main T (controller_net T sn now' (run_auth run)) e d1 [''job'', ''delete'', ''-config'', config, ''--'', nm] s =
        (if snd (DeleteJob nm s) then (fst (DeleteJob nm s), applied ''job'' nm ''deleted'', 0)
         else (fst (DeleteJob nm s), [], 1)))"
proof -
  note ready = started_admin_ready [OF assms(1-7), folded assms(10)]
  show ?thesis
    by (intro conjI impI service_line_served [OF ready assms(8)] job_line_served [OF ready assms(9)]
        service_delete_served [OF ready] job_delete_served [OF ready])
qed

text \<open>
  C36: What the admin reads is what the controller stores: \<open>k8ctl state\<close> and \<open>k8ctl get\<close>, run on the
  controller's machine with the configuration its start has left there, print exactly the listings
  of the store, in its order and with nothing lost on the way through JSON, change nothing and exit
  with 0, for every well-formed store whose times are of the years 0 to 9999.
\<close>

theorem admin_reads:
  assumes "tls_laws T" "json_laws T" "main_start T parse_ip open_db vacuum env now fl d = (d1, Inr run)"
    and "tl_pool T (ca_PEM (auth_CA (run_auth run)))" "ascii (ca_PEM (auth_CA (run_auth run)))"
    and "ascii (fl_listen fl)" "list_all plain_char (fl_listen fl)"
    and "wf_store s" "sendable s" "config = fl_data_dir fl @ ''/admin.conf''"
  shows "k8ctl_main T (controller_net T sn now' (run_auth run)) e d1 [''state'', ''-config'', config] s =
      (s, printState (time_Now e) (Snapshot s), 0) \<and>
    k8ctl_main T (controller_net T sn now' (run_auth run)) e d1 [''get'', ''nodes'', ''-config'', config] s =
      (s, printNodes (time_Now e) (ListNodes s), 0) \<and>
    k8ctl_main T (controller_net T sn now' (run_auth run)) e d1 [''get'', ''services'', ''-config'', config] s =
      (s, printServices (ListServices s), 0) \<and>
    k8ctl_main T (controller_net T sn now' (run_auth run)) e d1 [''get'', ''jobs'', ''-config'', config] s =
      (s, printJobs (ListJobs s), 0) \<and>
    k8ctl_main T (controller_net T sn now' (run_auth run)) e d1 [''get'', ''assignments'', ''-config'', config] s =
      (s, printAssignments (ListAssignments s), 0)"
  by (intro conjI state_printed [OF started_admin_ready [OF assms(1-7), folded assms(10)] assms(8,9)])

end
