(* ===== verification/Agent_Command.thy ===== *)
theory Agent_Command
  imports Agent Administration
begin

text \<open>
  \<open>cmd/agent/main.go\<close>: how the agent's process comes up, from its flags to \<open>Run\<close>. The flags are
  taken as parsed; what containerd answers to a new connection is a parameter.
\<close>

section \<open>Model\<close>

record agent_flags =
  af_server :: string
  af_token :: string
  af_data_dir :: string
  af_node_id :: string
  af_cpu :: goint
  af_memory :: goint
  af_labels :: string
  af_runtime :: string

definition agent_node :: "agent_flags \<Rightarrow> node" where
  "agent_node fl = zero_node\<lparr>
     node_ID := af_node_id fl,
     node_labels := agent_parseMap (af_labels fl),
     node_capacity := \<lparr>res_CPU = af_cpu fl, res_Memory = af_memory fl\<rparr>\<rparr>"

text \<open>The executor the process runs with: the client of containerd, or a new simulated one.\<close>

datatype 'x chosen_runtime = UseContainerd 'x | UseSim

datatype agent_error = JoinClusterFailed join_error | NoContainerd string | UnknownRuntime

definition agent_main ::
  "('c, 'k, 'p, 'r) tls_lib \<Rightarrow> 'w net \<Rightarrow> time \<Rightarrow> 'k join_env \<Rightarrow> string + 'x \<Rightarrow> nat \<Rightarrow> agent_flags \<Rightarrow> fs \<Rightarrow> 'w \<Rightarrow>
     fs \<times> 'w \<times> (agent_error + agent \<times> tls_config \<times> 'x chosen_runtime)" where
  "agent_main T net now env containerd self fl d w =
     (let node = agent_node fl in
      case BootstrapNode T net now env (af_server fl) (af_token fl) (node_ID node) (af_data_dir fl) d w of
        (d1, w1, Inl e) \<Rightarrow> (d1, w1, Inl (JoinClusterFailed e))
      | (d1, w1, Inr tls) \<Rightarrow>
          let c = New_Client (af_server fl) (tc_CN T tls) in
          if af_runtime fl = ''containerd''
          then (case containerd of
              Inl err \<Rightarrow> (d1, w1, Inl (NoContainerd err))
            | Inr x \<Rightarrow> (d1, w1, Inr (New_Agent self node c, tls, UseContainerd x)))
          else if af_runtime fl = ''sim'' then (d1, w1, Inr (New_Agent self node c, tls, UseSim))
          else (d1, w1, Inl UnknownRuntime))"

section \<open>A node comes up\<close>

lemma tc_CN_NodeCN: "NodeIDFromCN (tc_CN T tls) = i \<Longrightarrow> i \<noteq> [] \<Longrightarrow> tc_CN T tls = NodeCN i"
  using NodeIDFromCN_eq [of "tc_CN T tls" i] by simp

lemma Run_start_registers:
  assumes "plain_base (cl_base (ag_client ag))" "cl_cn (ag_client ag) = NodeCN (node_ID (ag_node ag))" "node_ID (ag_node ag) \<noteq> []"
    and "rfc3339_ok (last_heartbeat (ag_node ag))"
  shows "Run_start X (serving L sn now au) order \<lparr>the_agent = ag, the_exec = e, the_world = s\<rparr> =
    (fst (syncAssignments X (serving L sn now au) order
       \<lparr>the_agent = ag, the_exec = e, the_world = UpsertNode ((ag_node ag)\<lparr>last_heartbeat := now\<rparr>) s\<rparr>), None)"
  using RegisterNode_served [where L = L and sn = sn and now = now and au = au and s = s, OF assms] by (simp add: Run_start_def)

lemma agent_main_booted:
  assumes "BootstrapNode T net now env (af_server fl) (af_token fl) (af_node_id fl) (af_data_dir fl) d w = (d1, w1, Inr tls)"
    and "af_runtime fl = ''sim'' \<or> af_runtime fl = ''containerd'' \<and> \<not> isl containerd"
  shows "agent_main T net now env containerd self fl d w = (d1, w1,
    Inr (New_Agent self (agent_node fl) (New_Client (af_server fl) (tc_CN T tls)), tls,
      if af_runtime fl = ''sim'' then UseSim else UseContainerd (projr containerd)))"
  using assms by (auto simp: agent_main_def Let_def agent_node_def split: sum.splits)

text \<open>
  C37: A node comes up: started with the controller's https address and its join token, the agent's
  process gets its credentials without a change to the store, and from then on, whatever the
  runtime and whenever it calls, \<open>Run\<close> registers exactly the node of the flags, with the time of
  the controller, and goes on to synchronise. Started again later on the same disk, with another
  token and even without a network, it is the same agent again, until 30 days before its
  certificate ends.
\<close>

theorem agent_comes_up:
  assumes "tls_laws T" "join_ready T sn now au env host (af_token fl) (af_node_id fl) (af_data_dir fl) d d0 keyPEM certPEM"
    and "env_ca_fault env = NoFault" "env_cert_fault env = NoFault" "af_server fl = https_at host"
    and "af_runtime fl = ''sim'' \<or> af_runtime fl = ''containerd'' \<and> \<not> isl containerd"
  shows "\<exists>d1 ag tls rt. agent_main T (controller_net T sn now au) now env containerd self fl d s = (d1, s, Inr (ag, tls, rt)) \<and>
    (\<forall>sn' now' s' e.
      Run_start X (client_transport (controller_net T sn' now' au) (ag_client ag) tls) order
          \<lparr>the_agent = ag, the_exec = e, the_world = s'\<rparr> =
        (fst (syncAssignments X (serving (tl_lib T) sn' now' au) order \<lparr>the_agent = ag, the_exec = e,
           the_world = UpsertNode ((agent_node fl)\<lparr>last_heartbeat := now'\<rparr>) s'\<rparr>), None)) \<and>
    (\<forall>now'. now' \<le> now + leafValidity - renewBefore - 1000000000 \<longrightarrow>
      agent_main T net' now' env' containerd self (fl\<lparr>af_token := token'\<rparr>) d1 w' = (d1, w', Inr (ag, tls, rt)))"
proof -
  obtain d1 tls where b: "BootstrapNode T (controller_net T sn now au) now env (https_at host) (af_token fl) (af_node_id fl)
        (af_data_dir fl) d s = (d1, s, Inr tls)" "tc_roots tls = ca_PEM (auth_CA au)" "NodeIDFromCN (tc_CN T tls) = af_node_id fl"
      "\<forall>now'. now' \<le> now + leafValidity - renewBefore - 1000000000 \<longrightarrow>
        BootstrapNode T net' now' env' (https_at host) token' (af_node_id fl) (af_data_dir fl) d1 w' = (d1, w', Inr tls)"
    using BootstrapNode_joins [where s = s and net' = net' and env' = env' and server' = "https_at host" and raw' = token' and w' = w',
        OF assms(1-4)] by blast
  have host: "plain_host host" and ne: "af_node_id fl \<noteq> []" using assms(2) by (auto simp: join_ready_def validNodeID_def)
  let ?c = "New_Client (https_at host) (tc_CN T tls)" and ?n = "agent_node fl"
  have c: "cl_base ?c = https_at host" "cl_cn ?c = NodeCN (node_ID ?n)"
    using plain_host_url(1) [OF host] tc_CN_NodeCN [OF b(3) ne] by (simp_all add: New_Client_def agent_node_def)
  have "rfc3339_ok 0" by code_simp
  then have n: "node_ID ?n \<noteq> []" "rfc3339_ok (last_heartbeat ?n)" using ne by (simp_all add: agent_node_def zero_node_def)
  let ?ag = "New_Agent self ?n ?c" and ?rt = "if af_runtime fl = ''sim'' then UseSim else UseContainerd (projr containerd)"
  have run: "Run_start X (client_transport (controller_net T sn' now' au) (ag_client ?ag) tls) order
          \<lparr>the_agent = ?ag, the_exec = e, the_world = s'\<rparr> =
        (fst (syncAssignments X (serving (tl_lib T) sn' now' au) order \<lparr>the_agent = ?ag, the_exec = e,
           the_world = UpsertNode (?n\<lparr>last_heartbeat := now'\<rparr>) s'\<rparr>), None)" for sn' now' s' e
    using Run_start_registers [where ag = ?ag and L = "tl_lib T" and sn = sn' and now = now' and au = au and s = s' and X = X
        and order = order and e = e] client_transport_controller [where T = T and sn = sn' and now = now', OF host b(2) c(1)]
      c n plain_host_url(2) [OF host]
    by (simp add: New_Agent_def)
  have again: "agent_main T net' now' env' containerd self (fl\<lparr>af_token := token'\<rparr>) d1 w' = (d1, w', Inr (?ag, tls, ?rt))"
    if "now' \<le> now + leafValidity - renewBefore - 1000000000" for now'
    using agent_main_booted [of T net' now' env' "fl\<lparr>af_token := token'\<rparr>" d1 w' d1 w' tls containerd self] b(4) that assms(5,6)
    by (simp add: agent_node_def)
  have first: "agent_main T (controller_net T sn now au) now env containerd self fl d s = (d1, s, Inr (?ag, tls, ?rt))"
    using agent_main_booted [where self = self, OF b(1) [folded assms(5)] assms(6)] by (simp only: assms(5))
  show ?thesis
    by (intro exI conjI allI impI) (rule first, rule run, erule again)
qed

end
