(* ===== verification/K8ctl_Tables.thy ===== *)
theory K8ctl_Tables
  imports K8ctl_Lines
begin

text \<open>What the tables of \<open>k8ctl\<close> look like: \<open>text/tabwriter\<close> aligns their columns.\<close>

definition plain_cell :: "string \<Rightarrow> bool" where
  "plain_cell cell \<longleftrightarrow> list_all (\<lambda>c. (of_char c :: nat) \<notin> {9, 10, 11, 12}) cell"

text \<open>A row of a table with columns of the given widths; the last cell is not padded.\<close>

definition aligned :: "(nat \<Rightarrow> nat) \<Rightarrow> string list \<Rightarrow> string" where
  "aligned width cells = concat (map (\<lambda>j. pad_cell (width j) (cells ! j)) [0..<length cells - 1]) @ last cells"

definition widest :: "string list list \<Rightarrow> nat \<Rightarrow> nat" where
  "widest rows j = Max ((\<lambda>cells. text_width (cells ! j)) ` set rows) + 2"

lemma fold_max: "fold (\<lambda>x w. max w (f x :: nat)) xs a = Max (insert a (f ` set xs))"
proof (induction xs arbitrary: a)
  case (Cons x xs)
  then show ?case by (cases "xs = []") (simp_all add: max.assoc)
qed simp

lemma column_width_uniform:
  assumes "\<forall>cells \<in> set (previous @ cells0 # rest). length cells = Suc n" "j < n"
  shows "column_width j previous (cells0 # rest @ [[[]]]) = widest (previous @ cells0 # rest) j"
proof -
  have t: "takeWhile (in_column j) xs = xs" if "\<forall>cells \<in> set xs. length cells = Suc n" for xs
    using that assms(2) by (simp add: in_column_def takeWhile_eq_all_conv)
  have following: "takeWhile (in_column j) (cells0 # rest @ [[[]]]) = cells0 # rest"
    using t [of "cells0 # rest"] assms by (subst append_Cons [symmetric], subst takeWhile_append2) (auto simp: in_column_def)
  have previous: "takeWhile (in_column j) previous = previous" by (rule t) (use assms(1) in simp)
  show ?thesis
    unfolding column_width_def widest_def fold_max following previous by (subst Max_insert) auto
qed

lemma format_lines_uniform:
  assumes "\<forall>cells \<in> set (previous @ rows). length cells = Suc n"
  shows "format_lines previous (rows @ [[[]]]) = map (aligned (widest (previous @ rows))) rows @ [[]]"
  using assms
proof (induction rows arbitrary: previous)
  case Nil
  then show ?case by (simp add: format_line_def in_column_def)
next
  case (Cons cells rest)
  have len: "length cells = Suc n" using Cons.prems by simp
  have "format_line previous cells (rest @ [[[]]]) = aligned (widest (previous @ cells # rest)) cells"
  proof -
    have "concat (map (\<lambda>j. if j < n then pad_cell (column_width j previous (cells # rest @ [[[]]])) (cells ! j) else cells ! j) [0..<n]) =
        concat (map (\<lambda>j. pad_cell (widest (previous @ cells # rest) j) (cells ! j)) [0..<n])"
      using column_width_uniform [OF Cons.prems] by (intro arg_cong [where f = concat] map_cong) simp_all
    moreover have "last cells = cells ! n" using len by (metis last_conv_nth diff_Suc_1 list.size(3) nat.distinct(1))
    ultimately show ?thesis using len by (simp add: format_line_def aligned_def in_column_def)
  qed
  moreover have "widest ((cells # previous) @ rest) = widest (previous @ cells # rest)"
    by (simp add: widest_def fun_eq_iff)
  ultimately show ?case using Cons.IH [of "cells # previous"] Cons.prems by simp
qed

lemma split_lines:
  assumes "\<forall>x \<in> set xs. c \<notin> set x"
  shows "split_on c (concat (map (\<lambda>x. x @ [c]) xs)) = xs @ [[]]"
  using assms by (induction xs) (simp_all add: split_on_append)

lemma Join_lines: "Strings_Join (map f xs @ [[]]) sep = concat (map (\<lambda>x. f x @ sep) xs)"
proof (induction xs)
  case (Cons x xs)
  then show ?case by (cases "map f xs @ [[]]") auto
qed simp

lemma plain_cell_chars: "plain_cell x \<Longrightarrow> CHR 0x09 \<notin> set x \<and> CHR 0x0A \<notin> set x \<and> CHR 0x0B \<notin> set x \<and> CHR 0x0C \<notin> set x"
  by (auto simp: plain_cell_def list_all_iff)

lemma tabwriter_aligned:
  assumes "\<forall>cells \<in> set rows. length cells = Suc n \<and> list_all plain_cell cells"
  shows "tabwriter (concat (map tab_row rows)) = concat (map (\<lambda>cells. aligned (widest rows) cells @ newline) rows)"
proof -
  let ?line = "\<lambda>cells. Strings_Join cells [CHR 0x09]"
  have chars: "CHR 0x0A \<notin> set (?line cells) \<and> CHR 0x0B \<notin> set (?line cells) \<and> CHR 0x0C \<notin> set (?line cells)"
    if "cells \<in> set rows" for cells
    using that assms set_Join [of cells "[CHR 0x09]"] plain_cell_chars by (fastforce simp: list_all_iff)
  have rows: "concat (map tab_row rows) = concat (map (\<lambda>x. x @ [CHR 0x0A]) (map ?line rows))"
    by (simp add: tab_row_def [abs_def] newline_def o_def)
  have "CHR 0x0C \<notin> set (concat (map tab_row rows))"
    using chars by (auto simp: tab_row_def newline_def)
  then have "split_on (CHR 0x0C) (concat (map tab_row rows)) = [concat (map tab_row rows)]" by (rule split_on_last)
  moreover have "split_on (CHR 0x0A) (concat (map tab_row rows)) = map ?line rows @ [[]]"
    unfolding rows using chars by (intro split_lines) auto
  moreover have "tab_cells (?line cells) = cells" if c: "cells \<in> set rows" for cells
  proof -
    have "map (\<lambda>c. if c = CHR 0x0B then CHR 0x09 else c) (?line cells) = ?line cells"
      using chars [OF c] by (intro map_idI) auto
    moreover have "split_on (CHR 0x09) (?line cells) = cells"
      using c assms plain_cell_chars by (intro split_on_Join) (auto simp: list_all_iff)
    ultimately show ?thesis by (simp add: tab_cells_def)
  qed
  then have "map tab_cells (map ?line rows @ [[]]) = rows @ [[[]]]"
    by (simp add: tab_cells_def map_idI)
  moreover have "format_lines [] (rows @ [[[]]]) = map (aligned (widest rows)) rows @ [[]]"
    using format_lines_uniform [of "[]" rows n] assms by simp
  ultimately show ?thesis by (simp add: tabwriter_def Join_lines)
qed

text \<open>The text of a table with aligned columns.\<close>

definition aligned_table :: "string \<Rightarrow> string list list \<Rightarrow> string" where
  "aligned_table title rows = title @ newline @ concat (map (\<lambda>cells. aligned (widest rows) cells @ newline) rows) @ newline"

definition plain_table :: "string list list \<Rightarrow> bool" where
  "plain_table rows = list_all (list_all plain_cell) rows"

lemma print_table_aligned:
  "plain_table rows \<Longrightarrow> list_all (\<lambda>cells. length cells = Suc n) rows \<Longrightarrow> print_table title rows = aligned_table title rows"
  by (simp add: print_table_def aligned_table_def plain_table_def list_all_iff tabwriter_aligned [where n = n])

section \<open>Reading the tables\<close>

text \<open>
  How a reader takes the output apart: sections end at an empty line, the first line of a section is
  its title and the next one the header, the columns start where the words of the header do, and
  a cell is what stands in its column up to the blanks that fill it.
\<close>

abbreviation blank :: char where
  "blank \<equiv> CHR '' ''"

lemma columns_rest:
  assumes "dropWhile (\<lambda>c. c = blank) (dropWhile (\<lambda>c. c \<noteq> blank) line) \<noteq> []"
  shows "length (dropWhile (\<lambda>c. c = blank) (dropWhile (\<lambda>c. c \<noteq> blank) line)) < length line"
proof (cases line)
  case (Cons c cs)
  have "length (dropWhile (\<lambda>c. c = blank) (dropWhile (\<lambda>c. c \<noteq> blank) cs)) \<le> length cs"
    by (meson length_dropWhile_le order_trans)
  then show ?thesis using length_dropWhile_le [of "\<lambda>c. c = blank" cs] by (simp add: Cons)
qed (use assms in simp)

function columns :: "string \<Rightarrow> nat list" where
  "columns line =
     (let word = takeWhile (\<lambda>c. c \<noteq> blank) line; gap = takeWhile (\<lambda>c. c = blank) (dropWhile (\<lambda>c. c \<noteq> blank) line);
          rest = dropWhile (\<lambda>c. c = blank) (dropWhile (\<lambda>c. c \<noteq> blank) line)
      in if rest = [] then [] else (length word + length gap) # columns rest)"
  by pat_completeness auto

termination
  by (relation "measure length") (simp_all add: columns_rest)

declare columns.simps [simp del]

definition trim_right :: "string \<Rightarrow> string" where
  "trim_right s = rev (dropWhile (\<lambda>c. c = blank) (rev s))"

fun cut_line :: "nat list \<Rightarrow> string \<Rightarrow> string list" where
  "cut_line [] line = [line]"
| "cut_line (w # ws) line = trim_right (take w line) # cut_line ws (drop w line)"

fun read_rows :: "string list \<Rightarrow> string list list" where
  "read_rows [] = []"
| "read_rows (header # lines) = map (cut_line (columns header)) (header # lines)"

function read_sections :: "string list \<Rightarrow> (string \<times> string list list) list" where
  "read_sections [] = []"
| "read_sections (title # lines) =
     (if title = [] then read_sections lines
      else (title, read_rows (takeWhile (\<lambda>l. l \<noteq> []) lines)) # read_sections (dropWhile (\<lambda>l. l \<noteq> []) lines))"
  by pat_completeness auto

termination
  by (relation "measure length") (simp_all add: length_dropWhile_le le_imp_less_Suc)

definition read_tables :: "string \<Rightarrow> (string \<times> string list list) list" where
  "read_tables text = read_sections (split_on (CHR 0x0A) text)"

text \<open>Cells of printable ASCII characters that do not end with a blank.\<close>

definition readable :: "string \<Rightarrow> bool" where
  "readable cell \<longleftrightarrow> list_all (\<lambda>c. 32 \<le> (of_char c :: nat) \<and> (of_char c :: nat) < 127) cell \<and> (cell = [] \<or> last cell \<noteq> blank)"

lemma readable_plain: "readable cell \<Longrightarrow> plain_cell cell"
  by (auto simp: readable_def plain_cell_def list_all_iff)

lemma readable_width: "readable cell \<Longrightarrow> text_width cell = length cell"
  by (auto simp: readable_def text_width_def list_all_iff intro!: arg_cong [where f = length] filter_True)

lemma trim_right_pad: "readable cell \<Longrightarrow> trim_right (cell @ replicate k blank) = cell"
proof -
  assume r: "readable cell"
  have "dropWhile (\<lambda>c. c = blank) (replicate k blank @ rev cell) = rev cell"
  proof (cases "rev cell")
    case Nil
    then show ?thesis by (simp add: dropWhile_eq_Nil_conv)
  next
    case (Cons a list)
    then have "a \<noteq> blank" using r by (auto simp: readable_def)
    then have "dropWhile (\<lambda>c. c = blank) (replicate k blank @ a # list) = a # list" by (induction k) simp_all
    then show ?thesis by (simp add: Cons)
  qed
  then show ?thesis by (simp add: trim_right_def)
qed

text \<open>A row as a list of widths and cells.\<close>

fun align :: "nat list \<Rightarrow> string list \<Rightarrow> string" where
  "align (w # ws) (c # cs) = pad_cell w c @ align ws cs"
| "align ws cs = concat cs"

lemma aligned_align: "length cells = Suc n \<Longrightarrow> aligned width cells = align (map width [0..<n]) cells"
proof (induction n arbitrary: width cells)
  case 0
  then show ?case by (cases cells) (simp_all add: aligned_def)
next
  case (Suc n)
  obtain c cs where c: "cells = c # cs" "length cs = Suc n" using Suc.prems by (cases cells) simp_all
  have u: "[0..<Suc n] = 0 # map Suc [0..<n]" by (simp add: upt_conv_Cons map_Suc_upt del: upt_Suc)
  have "cs \<noteq> []" using c(2) by auto
  then have "aligned width cells = pad_cell (width 0) c @ aligned (width \<circ> Suc) cs"
    using c(2) by (simp add: aligned_def c(1) u o_def del: upt_Suc)
  then show ?case using Suc.IH [OF c(2), of "width \<circ> Suc"] by (simp add: c(1) u o_def del: upt_Suc)
qed

lemma cut_align:
  assumes "length cells = Suc (length ws)" "list_all readable cells" "\<forall>j < length ws. length (cells ! j) \<le> ws ! j"
  shows "cut_line ws (align ws cells) = cells"
  using assms
proof (induction ws arbitrary: cells)
  case Nil
  then show ?case by (cases cells) simp_all
next
  case (Cons w ws)
  obtain c cs where c: "cells = c # cs" using Cons.prems(1) by (cases cells) simp_all
  have r: "readable c" and l: "length c \<le> w" using Cons.prems(2,3) by (auto simp: c)
  have p: "pad_cell w c = c @ replicate (w - length c) blank" "length (pad_cell w c) = w"
    using l by (simp_all add: pad_cell_def readable_width [OF r])
  have "\<forall>j < length ws. length (cs ! j) \<le> ws ! j" using Cons.prems(3) by (auto simp: c)
  then have "cut_line ws (align ws cs) = cs" using Cons by (simp add: c)
  then show ?case using p trim_right_pad [OF r, of "w - length c"] by (simp add: c)
qed

lemma word_split:
  "blank \<notin> set h \<Longrightarrow> takeWhile (\<lambda>c. c \<noteq> blank) (h @ blank # r) = h"
  "blank \<notin> set h \<Longrightarrow> dropWhile (\<lambda>c. c \<noteq> blank) (h @ blank # r) = blank # r"
  by (induction h) auto

lemma gap_split:
  assumes "r \<noteq> []" "hd r \<noteq> blank"
  shows "takeWhile (\<lambda>c. c = blank) (replicate k blank @ r) = replicate k blank"
    "dropWhile (\<lambda>c. c = blank) (replicate k blank @ r) = r"
  using assms by (induction k; cases r; simp)+

lemma columns_align:
  assumes "length hs = Suc (length ws)" "\<forall>h \<in> set hs. readable h \<and> h \<noteq> [] \<and> blank \<notin> set h" "\<forall>j < length ws. length (hs ! j) < ws ! j"
  shows "columns (align ws hs) = ws \<and> align ws hs \<noteq> [] \<and> hd (align ws hs) \<noteq> blank"
  using assms
proof (induction ws arbitrary: hs)
  case Nil
  then obtain h where h: "hs = [h]" by (cases hs) auto
  then have all: "\<forall>c \<in> set h. c \<noteq> blank" and "h \<noteq> []" using Nil(2) by auto
  then have "hd h \<noteq> blank" using hd_in_set by metis
  moreover have d: "dropWhile (\<lambda>c. c \<noteq> blank) h = []" using all by (simp only: dropWhile_eq_Nil_conv)
  have "columns h = []" by (subst columns.simps) (simp only: d Let_def dropWhile.simps if_True refl)
  ultimately show ?case using \<open>h \<noteq> []\<close> by (simp add: h)
next
  case (Cons w ws)
  obtain h hs' where h: "hs = h # hs'" using Cons.prems(1) by (cases hs) simp_all
  have r: "readable h" "h \<noteq> []" "blank \<notin> set h" and l: "length h < w" using Cons.prems(2,3) by (auto simp: h)
  have "\<forall>j < length ws. length (hs' ! j) < ws ! j" using Cons.prems(3) by (auto simp: h)
  then have IH: "columns (align ws hs') = ws" "align ws hs' \<noteq> []" "hd (align ws hs') \<noteq> blank"
    using Cons.IH [of hs'] Cons.prems(1,2) by (simp_all add: h)
  let ?rest = "align ws hs'" and ?gap = "replicate (w - length h) blank"
  have line: "align (w # ws) hs = h @ ?gap @ ?rest" by (simp add: h pad_cell_def readable_width [OF r(1)])
  obtain k where k: "w - length h = Suc k" using l by (metis Suc_diff_Suc)
  have "takeWhile (\<lambda>c. c \<noteq> blank) (h @ ?gap @ ?rest) = h" "dropWhile (\<lambda>c. c \<noteq> blank) (h @ ?gap @ ?rest) = ?gap @ ?rest"
    using word_split [OF r(3)] by (simp_all add: k)
  moreover have "takeWhile (\<lambda>c. c = blank) (?gap @ ?rest) = ?gap" "dropWhile (\<lambda>c. c = blank) (?gap @ ?rest) = ?rest"
    by (rule gap_split [OF IH(2,3)])+
  ultimately have "columns (h @ ?gap @ ?rest) = w # ws"
    using IH(1,2) l by (simp add: columns.simps [of "h @ ?gap @ ?rest"] Let_def)
  moreover have "hd h \<noteq> blank" using r(2,3) by (cases h) auto
  ultimately show ?case using r(2) by (simp add: line)
qed

text \<open>A table that is printed and read.\<close>

definition header_words :: "string list \<Rightarrow> bool" where
  "header_words hs \<longleftrightarrow> list_all (\<lambda>h. readable h \<and> h \<noteq> [] \<and> blank \<notin> set h) hs"

lemma widest_above:
  assumes "cells \<in> set rows" "readable (cells ! j)"
  shows "length (cells ! j) < widest rows j"
proof -
  have "text_width (cells ! j) \<le> Max ((\<lambda>cells. text_width (cells ! j)) ` set rows)"
    using assms(1) by (intro Max_ge) auto
  then show ?thesis by (simp add: widest_def readable_width [OF assms(2)])
qed

lemma read_rows_aligned:
  assumes "list_all (\<lambda>cells. length cells = Suc n) (header # rows)" "header_words header" "list_all (list_all readable) rows"
  shows "read_rows (map (aligned (widest (header # rows))) (header # rows)) = header # rows"
    and "0 < n \<Longrightarrow> line \<in> set (map (aligned (widest (header # rows))) (header # rows)) \<Longrightarrow> line \<noteq> []"
proof -
  let ?all = "header # rows" and ?ws = "map (widest (header # rows)) [0..<n]"
  have len: "length cells = Suc n" and read: "list_all readable cells" if "cells \<in> set ?all" for cells
    using that assms by (auto simp: list_all_iff header_words_def)
  have wide: "length (cells ! j) < ?ws ! j" if "cells \<in> set ?all" "j < n" for cells j
    using widest_above [OF that(1)] read [OF that(1)] len [OF that(1)] that(2) by (simp add: list_all_length)
  have row: "aligned (widest ?all) cells = align ?ws cells" if "cells \<in> set ?all" for cells
    using aligned_align [OF len [OF that]] .
  have "columns (align ?ws header) = ?ws"
    using columns_align [of header ?ws] len [of header] wide [of header] assms(2) by (simp add: header_words_def list_all_iff)
  moreover have "cut_line ?ws (align ?ws cells) = cells" if "cells \<in> set ?all" for cells
    using cut_align [of cells ?ws] len [OF that] read [OF that] wide [OF that] by (simp add: less_imp_le)
  ultimately show "read_rows (map (aligned (widest ?all)) ?all) = ?all"
    using row by (simp add: map_idI)
  show "line \<noteq> []" if n: "0 < n" and line: "line \<in> set (map (aligned (widest ?all)) ?all)"
  proof -
    obtain cells where c: "cells \<in> set ?all" "line = align ?ws cells" using line row by auto
    obtain x xs where x: "cells = x # xs" using len [OF c(1)] by (cases cells) simp_all
    have "?ws = widest ?all 0 # map (widest ?all) [1..<n]" using n by (simp add: upt_conv_Cons)
    moreover have "length x < widest ?all 0" using wide [OF c(1) n] n by (simp add: x)
    ultimately have "line = (x @ replicate (widest ?all 0 - length x) blank) @ align (map (widest ?all) [1..<n]) xs"
      using read [OF c(1)] by (simp only: c(2) x align.simps) (simp add: x pad_cell_def readable_width)
    then show ?thesis using \<open>length x < widest ?all 0\<close> by simp
  qed
qed

lemma read_sections_empty [simp]: "read_sections ([] # lines) = read_sections lines"
  by simp

lemma split_lines_rest:
  assumes "\<forall>x \<in> set xs. c \<notin> set x"
  shows "split_on c (concat (map (\<lambda>x. x @ [c]) xs) @ rest) = xs @ split_on c rest"
  using assms by (induction xs) (simp_all add: split_on_append)

lemma read_section:
  assumes "title \<noteq> []" "CHR 0x0A \<notin> set title" "0 < n" "list_all (\<lambda>cells. length cells = Suc n) (header # rows)"
    and "header_words header" "list_all (list_all readable) rows"
  shows "read_tables (print_table title (header # rows) @ rest) = (title, header # rows) # read_tables rest"
proof -
  let ?lines = "map (aligned (widest (header # rows))) (header # rows)"
  have plain: "plain_table (header # rows)"
    using assms(5,6) by (auto simp: plain_table_def header_words_def list_all_iff intro: readable_plain)
  have nl: "CHR 0x0A \<notin> set l" if "l \<in> set ?lines" for l
  proof -
    obtain cells where c: "cells \<in> set (header # rows)" "l = aligned (widest (header # rows)) cells" using \<open>l \<in> set ?lines\<close> by auto
    have "CHR 0x0A \<notin> set x" if "x \<in> set cells" for x
      using plain c(1) that plain_cell_chars by (auto simp: plain_table_def list_all_iff)
    moreover have "length cells = Suc n" using assms(4) c(1) by (auto simp: list_all_iff)
    ultimately show ?thesis
      by (auto simp: c(2) aligned_def pad_cell_def dest!: nth_mem) (metis last_in_set length_0_conv nat.distinct(1))
  qed
  have "print_table title (header # rows) @ rest = concat (map (\<lambda>x. x @ [CHR 0x0A]) (title # ?lines @ [[]])) @ rest"
    using print_table_aligned [OF plain assms(4), of title] by (simp add: aligned_table_def newline_def o_def)
  then have "split_on (CHR 0x0A) (print_table title (header # rows) @ rest) = title # ?lines @ [] # split_on (CHR 0x0A) rest"
    using split_lines_rest [of "title # ?lines @ [[]]" "CHR 0x0A" rest] nl assms(2) by auto
  moreover have "takeWhile (\<lambda>l. l \<noteq> []) (?lines @ [] # ls) = ?lines" "dropWhile (\<lambda>l. l \<noteq> []) (?lines @ [] # ls) = [] # ls" for ls
    using read_rows_aligned(2) [OF assms(4-6,3)] by (subst takeWhile_append2 dropWhile_append2; simp)+
  moreover have "read_rows ?lines = header # rows" by (rule read_rows_aligned(1) [OF assms(4-6)])
  ultimately show ?thesis using assms(1) by (simp add: read_tables_def)
qed

text \<open>What the row of an object holds.\<close>

definition node_fields :: "time \<Rightarrow> node \<Rightarrow> string list" where
  "node_fields now n = [node_ID n, formatMap (node_labels n), show_goint (res_CPU (node_capacity n)),
     show_goint (res_Memory (node_capacity n)), age now (last_heartbeat n)]"

definition service_fields :: "service \<Rightarrow> string list" where
  "service_fields v = [service_name v, service_image v, show_goint (desired_replicas (service_st v)),
     show_goint (running_replicas (service_st v)), show_goint (pending_replicas (service_st v)),
     Strings_Join (elems (assignment_IDs (service_st v))) '','']"

definition job_fields :: "job \<Rightarrow> string list" where
  "job_fields j = [job_name j, job_image j, show_goint (failed_attempts (job_st j)), job_shown j]"

definition assignment_fields :: "assignment \<Rightarrow> string list" where
  "assignment_fields a = [asg_ID a, kind_string (owner_kind a) @ ''/'' @ owner_name a, asg_node a, phase_string (asg_phase a),
     asg_image a, show_goint (res_CPU (asg_resources a)), show_goint (res_Memory (asg_resources a))]"

definition section_of :: "string \<Rightarrow> string list \<Rightarrow> string list list \<Rightarrow> (string \<times> string list list) list" where
  "section_of title header rows = (if rows = [] then [] else [(title, header # rows)])"

text \<open>
  C40: What \<open>k8ctl state\<close> prints can be read back by its columns, also by a program: cut at the empty
  lines into sections and each line where the words of its header start, it gives exactly the
  non-empty listings, with a row for every listed object in the order listed and every field
  in its column, none cut off or run into the next. This holds as long as the fields are
  printable ASCII text that does not end with a blank.
\<close>

theorem tables_read_back:
  assumes "list_all (list_all readable) (map (node_fields now) (snap_nodes st))"
    and "list_all (list_all readable) (map service_fields (snap_services st))"
    and "list_all (list_all readable) (map job_fields (snap_jobs st))"
    and "list_all (list_all readable) (map assignment_fields (snap_assignments st))"
  shows "read_tables (printState now st) =
    section_of ''NODES'' [''ID'', ''LABELS'', ''CPU'', ''MEMORY'', ''HEARTBEAT''] (map (node_fields now) (snap_nodes st)) @
    section_of ''SERVICES'' [''NAME'', ''IMAGE'', ''REPLICAS'', ''RUNNING'', ''PENDING'', ''ASSIGNMENTS'']
      (map service_fields (snap_services st)) @
    section_of ''JOBS'' [''NAME'', ''IMAGE'', ''ATTEMPTS'', ''STATUS''] (map job_fields (snap_jobs st)) @
    section_of ''ASSIGNMENTS'' [''ID'', ''OWNER'', ''NODE'', ''PHASE'', ''IMAGE'', ''CPU'', ''MEMORY'']
      (map assignment_fields (snap_assignments st))"
proof -
  have headers: "header_words [''ID'', ''LABELS'', ''CPU'', ''MEMORY'', ''HEARTBEAT'']"
    "header_words [''NAME'', ''IMAGE'', ''REPLICAS'', ''RUNNING'', ''PENDING'', ''ASSIGNMENTS'']"
    "header_words [''NAME'', ''IMAGE'', ''ATTEMPTS'', ''STATUS'']"
    "header_words [''ID'', ''OWNER'', ''NODE'', ''PHASE'', ''IMAGE'', ''CPU'', ''MEMORY'']"
    by code_simp+
  have nodes: "read_tables (printNodes now (snap_nodes st) @ rest) =
      section_of ''NODES'' [''ID'', ''LABELS'', ''CPU'', ''MEMORY'', ''HEARTBEAT''] (map (node_fields now) (snap_nodes st)) @ read_tables rest" for rest
    using read_section [where n = 4, OF _ _ _ _ headers(1) assms(1), of "''NODES''" rest]
    by (simp add: printNodes_def section_of_def node_table_def node_fields_def [abs_def] list_all_iff)
  have services: "read_tables (printServices (snap_services st) @ rest) =
      section_of ''SERVICES'' [''NAME'', ''IMAGE'', ''REPLICAS'', ''RUNNING'', ''PENDING'', ''ASSIGNMENTS'']
        (map service_fields (snap_services st)) @ read_tables rest" for rest
    using read_section [where n = 5, OF _ _ _ _ headers(2) assms(2), of "''SERVICES''" rest]
    by (simp add: printServices_def section_of_def service_table_def service_fields_def [abs_def] list_all_iff)
  have jobs: "read_tables (printJobs (snap_jobs st) @ rest) =
      section_of ''JOBS'' [''NAME'', ''IMAGE'', ''ATTEMPTS'', ''STATUS''] (map job_fields (snap_jobs st)) @ read_tables rest" for rest
    using read_section [where n = 3, OF _ _ _ _ headers(3) assms(3), of "''JOBS''" rest]
    by (simp add: printJobs_def section_of_def job_table_def job_fields_def [abs_def] list_all_iff)
  have assignments: "read_tables (printAssignments (snap_assignments st) @ rest) =
      section_of ''ASSIGNMENTS'' [''ID'', ''OWNER'', ''NODE'', ''PHASE'', ''IMAGE'', ''CPU'', ''MEMORY'']
        (map assignment_fields (snap_assignments st)) @ read_tables rest" for rest
    using read_section [where n = 6, OF _ _ _ _ headers(4) assms(4), of "''ASSIGNMENTS''" rest]
    by (simp add: printAssignments_def section_of_def assignment_table_def assignment_fields_def [abs_def] list_all_iff)
  have "read_tables [] = []" by (simp add: read_tables_def)
  then show ?thesis
    using nodes services jobs assignments [of "[]"] by (simp add: printState_def)
qed

end
