(* ===== verification/Examples_Admin.thy ===== *)
theory Examples_Admin
  imports Examples_Startup Agent_Command K8ctl_Tables Administration
begin

text \<open>The properties of the command line and of the agent's process at concrete values.\<close>

section \<open>Values and tables\<close>

definition labels1 :: "(string, string) fmap" where
  "labels1 = fmupd ''zone'' ''a b'' (fmupd ''disk'' [] fmempty)"

lemma labels1: "labels1 \<noteq> fmempty" "\<forall>k v. fmlookup labels1 k = Some v \<longrightarrow> plain_label k v"
proof -
  have "fmlookup labels1 ''zone'' \<noteq> None" by (simp add: labels1_def)
  then show "labels1 \<noteq> fmempty" by auto
  have "plain_label ''zone'' ''a b''" "plain_label ''disk'' []" by code_simp+
  then show "\<forall>k v. fmlookup labels1 k = Some v \<longrightarrow> plain_label k v" by (auto simp: labels1_def)
qed

lemma labels_read_alike_witness:
  "entries (agent_parseMap ''  '') = entries (parseMap ''  '') \<and>
    parseMap (formatMap (Some labels1)) = Some labels1 \<and> agent_parseMap (formatMap (Some labels1)) = Some labels1"
  using labels_read_alike [of "''  ''" labels1] labels1 by blast

definition failed1 :: job where
  "failed1 = batch\<lparr>job_name := ''nightly'', job_st := zero_job_status\<lparr>failed_attempts := 2\<rparr>\<rparr>"

definition state1 :: state_snapshot where
  "state1 = \<lparr>snap_nodes = [node_a], snap_services = [web], snap_jobs = [batch, failed1], snap_assignments = []\<rparr>"

lemma tables_read_back_witness:
  "read_tables (printState later state1) =
    [(''NODES'', [[''ID'', ''LABELS'', ''CPU'', ''MEMORY'', ''HEARTBEAT''], node_fields later node_a]),
     (''SERVICES'', [[''NAME'', ''IMAGE'', ''REPLICAS'', ''RUNNING'', ''PENDING'', ''ASSIGNMENTS''], service_fields web]),
     (''JOBS'', [[''NAME'', ''IMAGE'', ''ATTEMPTS'', ''STATUS''], [''batch'', ''busybox'', ''0'', ''running''],
        [''nightly'', ''busybox'', ''2'', ''failed'']])]"
proof -
  have r: "list_all (list_all readable) (map (node_fields later) (snap_nodes state1))"
    "list_all (list_all readable) (map service_fields (snap_services state1))"
    "list_all (list_all readable) (map job_fields (snap_jobs state1))"
    "list_all (list_all readable) (map assignment_fields (snap_assignments state1))"
    by code_simp+
  have "job_fields batch = [''batch'', ''busybox'', ''0'', ''running'']" "job_fields failed1 = [''nightly'', ''busybox'', ''2'', ''failed'']"
    by code_simp+
  then show ?thesis using tables_read_back [OF r] by (simp add: state1_def section_of_def)
qed

lemma status_column_witness:
  "\<exists>s' ent' j'. reconcileJob mem_iface c1 t0 batch bytes0 store0 = Inr (s', ent') \<and>
    fmlookup (m_jobs s') ''batch'' = Some j' \<and> job_shown j' = ''running''"
proof -
  have "\<not> isl (reconcileJob mem_iface c1 t0 batch bytes0 store0)" by code_simp
  then obtain s' ent' where run: "reconcileJob mem_iface c1 t0 batch bytes0 store0 = Inr (s', ent')"
    by (cases "reconcileJob mem_iface c1 t0 batch bytes0 store0") auto
  have name: "job_name batch = ''batch''" by (simp add: batch_def)
  have "map_option job_retries (fmlookup (m_jobs store0) ''batch'') = Some (job_retries batch)" by code_simp
  then obtain j0 where j0: "fmlookup (m_jobs store0) (job_name batch) = Some j0" "job_retries j0 = job_retries batch"
    by (auto simp: name)
  have none: "ListAssignmentsForOwner KindJob ''batch'' store0 = []" by code_simp
  have "\<not> job_retries batch <s 0" by code_simp
  then obtain j' where j': "fmlookup (m_jobs s') ''batch'' = Some j'" "job_shown j' \<noteq> ''succeeded''" "job_shown j' \<noteq> ''failed''"
    using status_column [OF run j0 wf_store0] unfolding name none by (auto simp: Let_def failures_def)
  then have "job_shown j' = ''running''" by (simp add: job_shown_def split: if_splits)
  with j'(1) run show ?thesis by blast
qed

section \<open>The admin\<close>

definition api1 :: service where
  "api1 = zero_service\<lparr>service_name := ''api'', service_image := ''nginx'', service_replicas := 3,
     service_command := Some [''serve'', ''-v''], service_placement := \<lparr>required_labels = Some labels1\<rparr>,
     service_ports := Some [80, 443]\<rparr>"

definition k8env0 :: k8ctl_env where
  "k8env0 = \<lparr>K8_CONFIG = [], time_Now = t0\<rparr>"

definition report1 :: job where
  "report1 = zero_job\<lparr>job_name := ''report'', job_image := ''busybox'', job_command := Some [''sh'', ''/run.sh''],
     job_retries := 2, job_env := Some labels1\<rparr>"

lemma started0:
  obtains d1 run where "start0 = (d1, Inr run)" "tl_pool armored_tls (ca_PEM (auth_CA (run_auth run)))"
    "ascii (ca_PEM (auth_CA (run_auth run)))"
proof -
  obtain d1 run where s: "start0 = (d1, Inr run)" "auth_CA (run_auth run) = projr (snd ca0)" using start0 by blast
  have "tl_pool armored_tls (ca_PEM (projr (snd ca0)))" "ascii (ca_PEM (projr (snd ca0)))"
    by code_simp+
  then show thesis using that [OF s(1)] by (simp add: s(2))
qed

lemma listen0: "ascii (fl_listen fl0)" "list_all plain_char (fl_listen fl0)"
  by code_simp+

lemma config0: "''/var/admin.conf'' = fl_data_dir fl0 @ ''/admin.conf''"
  by (simp add: fl0_def)

text \<open>The controller that has started, on the network.\<close>

definition controller0 where
  "controller0 = controller_net armored_tls 9 later (run_auth (projr (snd start0)))"

lemma admin_line_served_witness:
  "k8ctl_main armored_tls controller0 k8env0 (fst start0)
      (''service'' # ''create'' # service_line ''/var/admin.conf'' api1) store1 =
      (UpsertService (posted_service api1) store1, applied ''service'' ''api'' ''applied'', 0) \<and>
    k8ctl_main armored_tls controller0 k8env0 (fst start0)
      (''job'' # ''create'' # job_line ''/var/admin.conf'' report1) store1 =
      (UpsertJob report1 store1, applied ''job'' ''report'' ''applied'', 0) \<and>
    k8ctl_main armored_tls controller0 k8env0 (fst start0)
      [''service'', ''delete'', ''-config'', ''/var/admin.conf'', ''--'', ''web''] store1 =
      (fst (DeleteService ''web'' store1), applied ''service'' ''web'' ''deleted'', 0)"
proof -
  obtain d1 run where s: "start0 = (d1, Inr run)" and p: "tl_pool armored_tls (ca_PEM (auth_CA (run_auth run)))"
      "ascii (ca_PEM (auth_CA (run_auth run)))" using started0 .
  have "list_all plain_word [''serve'', ''-v'']" "list_all port_ok [80, 443]" "list_all plain_word [''sh'', ''/run.sh'']"
    by code_simp+
  then have v: "describable api1" "job_describable report1"
    using labels1 by (simp_all add: describable_def api1_def job_describable_def report1_def slice_ok_def map_ok_def fmpred_iff
        zero_service_def zero_job_def)
  have "plain_name ''web''" "snd (DeleteService ''web'' store1)" by code_simp+
  then show ?thesis
    using admin_line_served [OF armored_laws armored_json s [unfolded start0_def] p listen0 v config0,
        of 9 later k8env0 store1 "''web''"]
    by (simp add: s api1_def report1_def controller0_def)
qed

lemma admin_reads_witness:
  "k8ctl_main armored_tls controller0 k8env0 (fst start0)
      [''get'', ''services'', ''-config'', ''/var/admin.conf''] store1 = (store1, printServices (ListServices store1), 0) \<and>
    k8ctl_main armored_tls controller0 k8env0 (fst start0)
      [''state'', ''-config'', ''/var/admin.conf''] store1 = (store1, printState t0 (Snapshot store1), 0)"
proof -
  obtain d1 run where s: "start0 = (d1, Inr run)" and p: "tl_pool armored_tls (ca_PEM (auth_CA (run_auth run)))"
      "ascii (ca_PEM (auth_CA (run_auth run)))" using started0 .
  have w: "wf_store store1" by (rule wf_store1)
  have "list_all (\<lambda>n. rfc3339_ok (last_heartbeat n)) (ListNodes store1)" "list_all job_encodable (ListJobs store1)"
    "list_all assignment_encodable (ListAssignments store1)" by code_simp+
  then have "sendable store1" by (simp add: sendable_def list_all_iff)
  from admin_reads [OF armored_laws armored_json s [unfolded start0_def] p listen0 w this config0, of 9 later k8env0]
  show ?thesis by (simp add: s k8env0_def controller0_def)
qed

section \<open>The agent\<close>

definition agent_fl :: agent_flags where
  "agent_fl = \<lparr>af_server = https_at ''ctl:8443'', af_token = token_a, af_data_dir = ''/var'', af_node_id = ''node-a'',
     af_cpu = 1000, af_memory = 1024, af_labels = ''zone=a'', af_runtime = ''sim''\<rparr>"

lemma agent_comes_up_witness:
  "\<exists>d1 ag tls rt. agent_main toy_tls (controller_net toy_tls 1 t0 au0) t0 env0 (Inr ()) 0 agent_fl fmempty store1 =
      (d1, store1, Inr (ag, tls, rt)) \<and>
    snd (Run_start sim_executor (client_transport (controller_net toy_tls 2 later au0) (ag_client ag) tls) (\<lambda>xs. xs)
      \<lparr>the_agent = ag, the_exec = NewSimExecutor, the_world = store1\<rparr>) = None \<and>
    agent_main toy_tls (\<lambda>ch r w. (w, None)) later env0 (Inr ()) 0 (agent_fl\<lparr>af_token := []\<rparr>) d1 () = (d1, (), Inr (ag, tls, rt))"
proof -
  have ready: "join_ready toy_tls 1 t0 au0 env0 ''ctl:8443'' (af_token agent_fl) (af_node_id agent_fl) (af_data_dir agent_fl) fmempty
      (fst (key_a fmempty)) (pem_Encode toy ''PRIVATE KEY'' ''key'') cert_a"
    using ready_fresh by (simp add: agent_fl_def)
  have "later \<le> t0 + leafValidity - renewBefore - 1000000000" by code_simp
  moreover have "af_server agent_fl = https_at ''ctl:8443''" "af_runtime agent_fl = ''sim''" by (simp_all add: agent_fl_def)
  ultimately show ?thesis
    using agent_comes_up [OF toy_tls_laws ready faults_a, where X = sim_executor and order = "\<lambda>xs. xs" and containerd = "Inr ()"
        and self = 0 and s = store1 and net' = "\<lambda>ch r w. (w, None)" and env' = env0 and token' = "[]" and w' = "()"]
    by fastforce
qed

end
