(* ===== verification/Spec2Isabelle.thy ===== *)
theory Spec2Isabelle
  imports Examples_Pki Examples_Agent Examples_Backup Examples_Containerd Examples_Admin
begin

text \<open>
  A model of the k3 control plane (Go, under \<open>src/\<close>) and the theorems that make it correct.

  \<^bold>\<open>The program.\<close> A controller (\<open>cmd/controller\<close>) keeps nodes, services, jobs and assignments in a
  store (\<open>internal/store\<close>), reconciles them every few seconds (\<open>internal/controller\<close>), places
  work with a scheduler (\<open>internal/scheduler\<close>) and serves an HTTP API whose callers are
  identified by client certificates its own CA issued (\<open>internal/pki\<close>). The agent of a node
  (\<open>cmd/agent\<close>, \<open>internal/agent\<close>) joins with a token, registers, heartbeats, reads the assignments on
  its node, runs them (\<open>internal/runtime\<close>) and reports their status through the client
  (\<open>internal/client\<close>), which the admin's command line (\<open>cmd/k8ctl\<close>) uses too.

  \<^bold>\<open>Theories and code: the controller.\<close>
  \<^item> \<open>Prelude\<close>: Go's \<open>int\<close> as a 64 bit word, times as nanoseconds since year 1, slices and maps
    that may be nil, panics as values, \<open>sort.Slice\<close>; \<open>Go_Strings\<close>: package \<open>strings\<close>.
  \<^item> \<open>Api\<close>: \<open>internal/api\<close>, a record per struct, the phases and the \<open>Clone\<close> methods.
  \<^item> \<open>Scheduler\<close>: \<open>ChooseNode\<close> step by step, and the specification \<open>eligible\<close>.
  \<^item> \<open>Memory_Store\<close>, \<open>Store_Contract\<close>: \<open>MemoryStore\<close> with its invariant \<open>wf_store\<close>; the Go
    interface \<open>Store\<close> as a record of operations and its contract as the locale
    \<open>store_contract\<close>, interpreted on \<open>MemoryStore\<close>.
  \<^item> \<open>Controller\<close>, \<open>Services\<close>, \<open>Jobs\<close>, \<open>Reconcile\<close>: \<open>controller.go\<close>, \<open>services.go\<close> and \<open>jobs.go\<close>
    over any store. A run's writes are also given one by one (\<open>ctl_step\<close>).
  \<^item> \<open>Files\<close>, \<open>Pki\<close>: the file system calls of the program, \<open>WriteFile\<close>, the identities, join
    tokens and the CA. \<open>crypto/x509\<close>, \<open>encoding/pem\<close> and \<open>crypto/sha256\<close> are a parameter
    with the documented laws \<open>crypto_laws\<close>.
  \<^item> \<open>Rfc3339\<close>, \<open>Json\<close>: how \<open>encoding/json\<close> writes and reads the structs by their tags.
  \<^item> \<open>Http\<close>: routing, authentication and every handler; \<open>api_step\<close> lists what a request may do.
  \<^item> \<open>Lifecycle\<close>, \<open>Guarantees\<close>: requests, runs and restarts interleaved (\<open>cluster\<close>), and what
    holds after a run and in every reachable state.
  \<^item> \<open>Store_Refinement\<close>, \<open>Sqlite_Store\<close>: everything the controller does respects the contract;
    \<open>SQLiteStore\<close> on tables of JSON rows meets it, so it behaves as \<open>MemoryStore\<close> does.
  \<^item> \<open>Backup\<close>: \<open>store/backup.go\<close> with \<open>filepath.Glob\<close>, every system call failing.
  \<^item> \<open>Startup\<close>: \<open>cmd/controller/main.go\<close> from the flags to the running server.

  \<^bold>\<open>Theories and code: nodes and admin.\<close>
  \<^item> \<open>Client\<close>, \<open>Join\<close>: \<open>client.go\<close> and \<open>http.go\<close> with the URLs and redirects of \<open>net/http\<close>; \<open>join.go\<close>
    and \<open>config.go\<close> over any network, so that an adversary is just another network. TLS and
    the text of JSON are the parameter \<open>tls_lib\<close> with the laws \<open>tls_laws\<close> and \<open>json_laws\<close>.
  \<^item> \<open>Runtime\<close>: the Go interface \<open>Executor\<close> as a record, what the agent relies on as the locales
    \<open>executor_contract\<close> and \<open>prompt_executor\<close>, what its comments promise as \<open>documented_executor\<close>,
    and \<open>SimExecutor\<close>, on which they are interpreted.
  \<^item> \<open>Containerd\<close>, \<open>Containerd_Contract\<close>, \<open>Containerd_Node\<close>: \<open>containerd_linux.go\<close> over any client
    library; its goroutines wait in the state until a step runs them. Then the documented
    contract, \<open>Stop\<close> with the goroutines running during its calls, and a restart of the agent.
  \<^item> \<open>Agent\<close>, \<open>Agent_Reports\<close>: \<open>agent.go\<close> and \<open>sync.go\<close> over any runtime and network, proved from
    the runtime's contract; then with the simulated runtime against the real API.
  \<^item> \<open>K8ctl\<close>: \<open>cmd/k8ctl\<close>, with \<open>flag\<close>, \<open>strconv\<close> and \<open>text/tabwriter\<close> as far as they are used;
    \<open>K8ctl_Lines\<close>, \<open>K8ctl_Tables\<close>, \<open>K8ctl_Served\<close>: its theorems; \<open>Administration\<close>: k8ctl next to the controller.
  \<^item> \<open>Agent_Command\<close>: \<open>cmd/agent/main.go\<close>.
  \<^item> \<open>Examples\<close> and \<open>Examples_*\<close>: concrete clusters, requests, files, TLS libraries and daemons that
    meet the laws, at which the theorems are applied.

  \<^bold>\<open>What the theorems show.\<close> Placement is correct and never overcommits a node; ports are
  exclusive and a job runs at most one attempt, in every reachable state; a run converges each
  service, respects retries, gives up exactly the work of dead nodes and grants a grace
  period after a restart; a node can act only as itself, the admin can touch only
  specifications, others nothing; encodings round trip; the SQLite store refines the in-memory
  one; backups keep the newest snapshots and restore the state. The secret of a join goes only
  to a controller with the pinned CA, and a controller started again, even from a backup, is
  the same controller to every node. A synchronised agent runs exactly what it is handed and
  the controller learns how it goes; a restarted agent keeps its workloads. The
  containerd runtime does what \<open>Executor\<close> documents; an exit is reported once, however often
  containerd restarts in between, and not at all once \<open>Stop\<close> has spoken for the workload. What
  the admin writes as flags is what is stored, what the store holds is what the admin reads, and
  the tables can be read back; the status column tells whether a job gets another attempt.

  \<^bold>\<open>What they found.\<close> Theorems that exhibit a defect carry no property number; each starts with a
  sentence saying what goes wrong: \<open>delete_truncates\<close>, \<open>slash_name_undeletable\<close> (names in URLs),
  \<open>orphan_survives\<close> (a deletion during a run), \<open>running_report_not_repeated\<close> (a lost report),
  \<open>backup_discarded\<close>, \<open>backups_unseen\<close> (snapshots lost to the clock or to brackets in a path),
  \<open>secret_in_clear\<close>, \<open>half_join_accepted\<close> (joins), \<open>attach_error_fails\<close>, \<open>stop_misses_creation\<close>,
  \<open>attach_created\<close>, \<open>late_rewait\<close> (containerd).

  \<^bold>\<open>Bounds.\<close> Sums of resources wrap as Go's do; the theorems that count replicas or attempts
  ask for fewer than \<open>2 ^ 63\<close> stored assignments (\<open>small_store\<close>). Random bytes are a finite list:
  the search for an ID ends in a fault when the list is used up, and
  \<open>nextAssignmentID_fresh\<close> says how many bytes are enough. The order of SQLite's rows agrees with
  the in-memory order for times from 1678 to 2262 (\<open>time_ok\<close>). A client follows at most ten
  requests, as \<open>net/http\<close> does. The loop that waits for containerd to come back is partial;
  \<open>exit_reported\<close> shows that it returns once containerd answers again.

  \<^bold>\<open>Isolation.\<close> A method of a store is one step, as its mutex makes it, and a run of \<open>Reconcile\<close> is one
  step of \<open>cluster\<close>; \<open>orphan_survives\<close> shows what a request between its writes can do. For containerd
  the laws have two parts: \<open>container_promises\<close> is what the library and the daemon do, and
  \<open>undisturbed\<close> says that no other goroutine of the agent runs while a call blocks, an assumption
  about the schedule. \<open>Stop_reports\<close> lifts it for \<open>Stop\<close> and the goroutines that wait for exits;
  \<open>stop_misses_creation\<close> and \<open>late_rewait\<close> are schedules in which it does not hold.

  \<^bold>\<open>Not modelled.\<close> Sockets, TLS handshakes and \<open>net/http\<close> beyond routing; SQLite itself (a
  statement is one step that succeeds, a database file opens to its tables or not); the log and
  what goes to standard error; durations of waiting, the tickers and signals, which only decide
  when the modelled steps happen; the time zone and monotonic part of a \<open>time.Time\<close>; letters and
  spaces outside ASCII in \<open>strings\<close>; \<open>os.MkdirAll\<close> where the code does nothing else with the
  directory; the parsing of the flags of the two servers, whose values are parameters
  (\<open>start_flags\<close>, \<open>agent_flags\<close>), and the \<open>Clean\<close> of \<open>filepath.Join\<close>: directories and the names
  joined to them, assignment IDs among them, are clean paths; the escapes of \<open>%q\<close> in an error;
  the runtime on other systems than Linux, which only returns errors.
\<close>

end
